theory Spec2Isabelle
  imports Main "HOL-Library.Word"
begin

section \<open>The page as the Observer reads it\<close>

text \<open>
  The Observer (webModelPreload.ts) runs inside the automated page. It reads the page
  through \<^verbatim>\<open>document.querySelector\<close>, \<^verbatim>\<open>querySelectorAll\<close> and \<^verbatim>\<open>Date.now()\<close>,
  and acts on it by focusing, typing and clicking. A \<open>page\<close> is one snapshot of the
  document: what each selector finds at that moment. An element is what the code looks
  at in it: whether it is an \<^verbatim>\<open>HTMLButtonElement\<close>, and the form it sits in
  (\<^verbatim>\<open>closest('form')\<close>), given by what that form's own \<^verbatim>\<open>querySelector\<close> finds.
\<close>

type_synonym selector = string

text \<open>
  A text read from the page is a JavaScript string: a sequence of 16-bit code units.
  Selectors, request identifiers, prompts and error messages are only compared or passed
  on by the code, and are written as plain strings; \<open>ascii\<close> gives the JavaScript
  string of a plain one.
\<close>

type_synonym jsstring = "16 word list"

definition ascii :: "string \<Rightarrow> jsstring" where
  "ascii s = map (\<lambda>c. of_nat (of_char c)) s"

datatype element =
  Element (instanceofButton: bool) (closestForm: "(selector \<Rightarrow> element option) option")

record page =
  querySelector :: "selector \<Rightarrow> element option"
  querySelectorAll :: "selector \<Rightarrow> jsstring list"
  HTMLButtonCtor :: bool

text \<open>
  \<open>querySelectorAll pg sel\<close> lists the \<^verbatim>\<open>innerText\<close> of the nodes matching \<open>sel\<close>, in
  document order; \<open>HTMLButtonCtor\<close> says whether the global
  \<^verbatim>\<open>HTMLButtonElement\<close> constructor is defined.
\<close>

definition INPUT_SELECTORS :: "selector list" where
  "INPUT_SELECTORS =
     [''textarea[data-id=\"chat-input\"]'', ''textarea[placeholder*=\"Message\"]'', ''textarea'']"

definition SEND_BUTTON_SELECTORS :: "selector list" where
  "SEND_BUTTON_SELECTORS =
     [''button[data-testid=\"send-button\"]'', ''button[type=\"submit\"]'',
      ''button[aria-label*=\"Send\"]'']"

definition STOP_BUTTON_SELECTORS :: "selector list" where
  "STOP_BUTTON_SELECTORS =
     [''button[data-testid=\"stop-button\"]'', ''button[aria-label*=\"Stop\"]'']"

definition ASSISTANT_MESSAGE_SELECTOR :: selector where
  "ASSISTANT_MESSAGE_SELECTOR = ''[data-message-author-role=\"assistant\"]''"

text \<open>
  The loop \<^verbatim>\<open>for (const selector of ...) { const button = q(selector); if (HTMLButtonCtor
  && button instanceof HTMLButtonCtor) return button }\<close> of \<^verbatim>\<open>findSendButton\<close> and
  \<^verbatim>\<open>findStopButton\<close>, over the lookup \<open>q\<close>.
\<close>

fun firstButton :: "bool \<Rightarrow> (selector \<Rightarrow> element option) \<Rightarrow> selector list \<Rightarrow> element option" where
  "firstButton ctor q [] = None"
| "firstButton ctor q (s # ss) =
     (case q s of
        Some button \<Rightarrow> if ctor \<and> instanceofButton button then Some button else firstButton ctor q ss
      | None \<Rightarrow> firstButton ctor q ss)"

definition findSendButton :: "page \<Rightarrow> element \<Rightarrow> element option" where
  "findSendButton pg textarea =
     (case (case closestForm textarea of
              Some form \<Rightarrow> firstButton (HTMLButtonCtor pg) form SEND_BUTTON_SELECTORS
            | None \<Rightarrow> None) of
        Some button \<Rightarrow> Some button
      | None \<Rightarrow> firstButton (HTMLButtonCtor pg) (querySelector pg) SEND_BUTTON_SELECTORS)"

definition findStopButton :: "page \<Rightarrow> element option" where
  "findStopButton pg = firstButton (HTMLButtonCtor pg) (querySelector pg) STOP_BUTTON_SELECTORS"

text \<open>
  \<^verbatim>\<open>String.prototype.trim\<close> removes, at both ends, the code units that ECMAScript calls
  WhiteSpace or LineTerminator: U+0009 tab, U+000A line feed, U+000B vertical tab,
  U+000C form feed, U+000D carriage return, U+0020 space, U+00A0 no-break space,
  U+1680, U+2000 to U+200A, U+2028 line separator, U+2029 paragraph separator, U+202F,
  U+205F, U+3000 and U+FEFF. All of them are single code units.
\<close>

definition isWhiteSpace :: "16 word \<Rightarrow> bool" where
  "isWhiteSpace c =
     (c \<in> {0x0009, 0x000A, 0x000B, 0x000C, 0x000D, 0x0020, 0x00A0, 0x1680,
            0x2000, 0x2001, 0x2002, 0x2003, 0x2004, 0x2005, 0x2006, 0x2007, 0x2008, 0x2009, 0x200A,
            0x2028, 0x2029, 0x202F, 0x205F, 0x3000, 0xFEFF})"

definition trim :: "jsstring \<Rightarrow> jsstring" where
  "trim s = rev (dropWhile isWhiteSpace (rev (dropWhile isWhiteSpace s)))"

definition getLatestAssistantContent :: "page \<Rightarrow> jsstring" where
  "getLatestAssistantContent pg =
     (let nodes = querySelectorAll pg ASSISTANT_MESSAGE_SELECTOR
      in if length nodes = 0 then [] else trim (last nodes))"

section \<open>The Observer: per-request state, timers and upstream messages\<close>

text \<open>
  \<^verbatim>\<open>WebModelChunkPayload\<close> with its three optional fields. The field \<^verbatim>\<open>done\<close> of the
  source is \<open>done_ev\<close> here and the field \<^verbatim>\<open>done\<close> of \<^verbatim>\<open>RequestState\<close> is \<open>done_st\<close>
  (\<open>done\<close> is a keyword of the proof language).
\<close>

record payload =
  requestId :: string
  content :: "jsstring option"
  done_ev :: "bool option"
  error :: "string option"

text \<open>What \<^verbatim>\<open>ipcRenderer.send\<close> is called with: the channel and its payload.\<close>

datatype upstream =
  WebModelChunk payload
| WebModelError payload
| WebModelReady

record RequestState =
  interval :: "nat option"
  lastContent :: jsstring
  lastEmit :: int
  done_st :: bool

datatype dom_action = Focus | SetNativeValue string | ClickSend | ClickStop

text \<open>
  The state objects of the source are shared: \<^verbatim>\<open>ACTIVE_REQUESTS\<close> holds a reference to
  the object the timer's closure mutates. So the objects live in a store \<open>heap\<close>,
  \<open>ACTIVE_REQUESTS\<close> maps a request identifier to an address, and \<open>intervals\<close> holds
  the live \<^verbatim>\<open>setInterval\<close> timers: a handle maps to the closure's captured
  \<^verbatim>\<open>requestId\<close> and \<^verbatim>\<open>state\<close>. \<open>fresh\<close> is the next unused number, taken both as the
  address of a new object and as the handle of its timer. \<open>sent\<close> logs
  \<^verbatim>\<open>ipcRenderer.send\<close>, \<open>dom_log\<close> the actions on the page.
\<close>

record observer =
  heap :: "nat \<Rightarrow> RequestState"
  ACTIVE_REQUESTS :: "string \<rightharpoonup> nat"
  intervals :: "nat \<rightharpoonup> (string \<times> nat)"
  fresh :: nat
  sent :: "upstream list"
  dom_log :: "dom_action list"

definition observer_init :: observer where
  "observer_init =
     \<lparr>heap = (\<lambda>_. \<lparr>interval = None, lastContent = [], lastEmit = 0, done_st = False\<rparr>),
      ACTIVE_REQUESTS = Map.empty, intervals = Map.empty, fresh = 0, sent = [], dom_log = []\<rparr>"

definition ipcRenderer_send :: "upstream \<Rightarrow> observer \<Rightarrow> observer" where
  "ipcRenderer_send m \<sigma> = \<sigma>\<lparr>sent := sent \<sigma> @ [m]\<rparr>"

definition act :: "dom_action \<Rightarrow> observer \<Rightarrow> observer" where
  "act a \<sigma> = \<sigma>\<lparr>dom_log := dom_log \<sigma> @ [a]\<rparr>"

definition cleanupRequest :: "string \<Rightarrow> observer \<Rightarrow> observer" where
  "cleanupRequest rid \<sigma> =
     (case ACTIVE_REQUESTS \<sigma> rid of
        None \<Rightarrow> \<sigma>
      | Some a \<Rightarrow>
          (let \<sigma>1 = (case interval (heap \<sigma> a) of
                       Some h \<Rightarrow> \<sigma>\<lparr>intervals := (intervals \<sigma>)(h := None)\<rparr>
                     | None \<Rightarrow> \<sigma>)
           in \<sigma>1\<lparr>ACTIVE_REQUESTS := (ACTIVE_REQUESTS \<sigma>1)(rid := None)\<rparr>))"

text \<open>
  \<^verbatim>\<open>startPolling\<close>: a new state object, registered under the identifier, and a new
  timer whose handle is stored in the object. The timer's callback is \<open>pollTick\<close>.
\<close>

definition startPolling :: "string \<Rightarrow> observer \<Rightarrow> observer" where
  "startPolling rid \<sigma> =
     (let a = fresh \<sigma>;
          state = \<lparr>interval = Some a, lastContent = [], lastEmit = 0, done_st = False\<rparr>
      in \<sigma>\<lparr>heap := (heap \<sigma>)(a := state),
            ACTIVE_REQUESTS := (ACTIVE_REQUESTS \<sigma>)(rid \<mapsto> a),
            intervals := (intervals \<sigma>)(a \<mapsto> (rid, a)),
            fresh := Suc a\<rparr>)"

text \<open>The message \<^verbatim>\<open>ipcRenderer.send('web-model:chunk', { requestId, content, done })\<close>.\<close>

definition chunkPayload :: "string \<Rightarrow> jsstring \<Rightarrow> bool \<Rightarrow> payload" where
  "chunkPayload rid c d = \<lparr>requestId = rid, content = Some c, done_ev = Some d, error = None\<rparr>"

definition chunk :: "string \<Rightarrow> jsstring \<Rightarrow> bool \<Rightarrow> upstream" where
  "chunk rid c d = WebModelChunk (chunkPayload rid c d)"

text \<open>
  One run of the timer callback of \<^verbatim>\<open>startPolling\<close>, for the closure \<open>(rid, a)\<close>, on the
  page \<open>pg\<close>. \<^verbatim>\<open>Date.now()\<close> is read twice: \<open>nowEmit\<close> where the content changed (line
  143), \<open>nowCheck\<close> in the completion test (line 153).
\<close>

definition pollBody :: "string \<Rightarrow> nat \<Rightarrow> page \<Rightarrow> int \<Rightarrow> int \<Rightarrow> observer \<Rightarrow> observer" where
  "pollBody rid a pg nowEmit nowCheck \<sigma> =
     (let sampled = getLatestAssistantContent pg;
          \<sigma>1 = (if sampled \<noteq> [] \<and> sampled \<noteq> lastContent (heap \<sigma> a)
                then ipcRenderer_send (chunk rid sampled False)
                       (\<sigma>\<lparr>heap := (heap \<sigma>)(a := (heap \<sigma> a)\<lparr>lastContent := sampled, lastEmit := nowEmit\<rparr>)\<rparr>)
                else \<sigma>);
          stopButtonVisible = (findStopButton pg \<noteq> None)
      in if \<not> done_st (heap \<sigma>1 a) then
           if sampled = [] \<and> lastEmit (heap \<sigma>1 a) = 0 then \<sigma>1
           else if \<not> stopButtonVisible \<and> lastEmit (heap \<sigma>1 a) > 0
                   \<and> nowCheck - lastEmit (heap \<sigma>1 a) > 1500 then
             cleanupRequest rid
               (ipcRenderer_send (chunk rid (lastContent (heap \<sigma>1 a)) True)
                  (\<sigma>1\<lparr>heap := (heap \<sigma>1)(a := (heap \<sigma>1 a)\<lparr>done_st := True\<rparr>)\<rparr>))
           else \<sigma>1
         else \<sigma>1)"

text \<open>The timer \<open>h\<close> fires: a cleared timer never does.\<close>

definition pollTick :: "nat \<Rightarrow> page \<Rightarrow> int \<Rightarrow> int \<Rightarrow> observer \<Rightarrow> observer" where
  "pollTick h pg nowEmit nowCheck \<sigma> =
     (case intervals \<sigma> h of
        None \<Rightarrow> \<sigma>
      | Some (rid, a) \<Rightarrow> pollBody rid a pg nowEmit nowCheck \<sigma>)"

definition cancelRequest :: "string \<Rightarrow> page \<Rightarrow> observer \<Rightarrow> observer" where
  "cancelRequest rid pg \<sigma> =
     cleanupRequest rid
       (case findStopButton pg of
          Some stopButton \<Rightarrow> act ClickStop \<sigma>
        | None \<Rightarrow> \<sigma>)"

text \<open>The ticks of one timer, in order: each with its page and its two clock readings.\<close>

fun runTicks :: "nat \<Rightarrow> (page \<times> int \<times> int) list \<Rightarrow> observer \<Rightarrow> observer" where
  "runTicks h [] \<sigma> = \<sigma>"
| "runTicks h ((pg, nowEmit, nowCheck) # ticks) \<sigma> = runTicks h ticks (pollTick h pg nowEmit nowCheck \<sigma>)"

section \<open>The Observer: submitting a prompt\<close>

text \<open>
  A promise as a handler sees it when it looks: still pending, resolved with a value, or
  rejected with the message of the \<^verbatim>\<open>Error\<close>.
\<close>

datatype 'a promise = Pending | Resolved 'a | Rejected string

text \<open>A thrown value: an \<^verbatim>\<open>Error\<close> with its message, or anything else.\<close>

datatype thrown = JsError string | NonError

fun firstMatch :: "page \<Rightarrow> selector list \<Rightarrow> element option" where
  "firstMatch pg [] = None"
| "firstMatch pg (s # ss) =
     (case querySelector pg s of Some el \<Rightarrow> Some el | None \<Rightarrow> firstMatch pg ss)"

text \<open>
  \<^verbatim>\<open>waitForSelector\<close>: \<open>start\<close> is the clock when the promise is made; \<open>checks\<close> are
  the runs of \<^verbatim>\<open>check\<close> that have happened so far, each with the page and the clock it
  saw (the first at once, the next ones 200 ms apart through \<^verbatim>\<open>setTimeout\<close>). The
  promise is pending as long as no check has found an element or passed the timeout.
  A resolved promise comes with the page of the check that resolved it: the
  continuation of \<^verbatim>\<open>submitPrompt\<close> runs on that document.
\<close>

fun waitForSelector :: "selector list \<Rightarrow> int \<Rightarrow> int \<Rightarrow> (page \<times> int) list \<Rightarrow> (element \<times> page) promise" where
  "waitForSelector selectors timeout start [] = Pending"
| "waitForSelector selectors timeout start ((pg, now) # checks) =
     (case firstMatch pg selectors of
        Some el \<Rightarrow> Resolved (el, pg)
      | None \<Rightarrow>
          if now - start > timeout then Rejected ''Timed out waiting for ChatGPT input area''
          else waitForSelector selectors timeout start checks)"

text \<open>
  \<^verbatim>\<open>submitPrompt\<close>: \<open>None\<close> while it still awaits the input area; \<open>Inl\<close> when it throws
  (the state reached goes with the thrown value: what was done before the throw stays
  done); \<open>Inr\<close> when it has started polling.
\<close>

definition submitPrompt :: "string \<Rightarrow> string \<Rightarrow> int \<Rightarrow> (page \<times> int) list \<Rightarrow> observer \<Rightarrow> ((thrown \<times> observer) + observer) option" where
  "submitPrompt rid prompt start checks \<sigma> =
     (case waitForSelector INPUT_SELECTORS 15000 start checks of
        Pending \<Rightarrow> None
      | Rejected msg \<Rightarrow> Some (Inl (JsError msg, \<sigma>))
      | Resolved (textarea, pg) \<Rightarrow>
          (let \<sigma>1 = act (SetNativeValue prompt) (act Focus \<sigma>)
           in case findSendButton pg textarea of
                None \<Rightarrow>
                  Some (Inl (JsError ''Unable to locate ChatGPT send button. Please make sure you are signed in.'', \<sigma>1))
              | Some sendButton \<Rightarrow> Some (Inr (startPolling rid (act ClickSend \<sigma>1)))))"

text \<open>
  The message \<^verbatim>\<open>ipcRenderer.send('web-model:error', { requestId, error })\<close> of the
  prompt listener.
\<close>

definition errorEvent :: "string \<Rightarrow> string \<Rightarrow> upstream" where
  "errorEvent rid msg = WebModelError \<lparr>requestId = rid, content = None, done_ev = None, error = Some msg\<rparr>"

text \<open>
  The listener of \<^verbatim>\<open>'web-model:prompt'\<close>. It touches the Observer's state only once
  \<^verbatim>\<open>waitForSelector\<close> has settled, so its effect is one step on the state of that moment;
  \<open>None\<close> means it has not got there yet.
\<close>

definition onPrompt :: "string \<Rightarrow> string \<Rightarrow> int \<Rightarrow> (page \<times> int) list \<Rightarrow> observer \<Rightarrow> observer option" where
  "onPrompt rid prompt start checks \<sigma> =
     (case submitPrompt rid prompt start checks \<sigma> of
        None \<Rightarrow> None
      | Some (Inr \<sigma>') \<Rightarrow> Some \<sigma>'
      | Some (Inl (e, \<sigma>')) \<Rightarrow>
          Some (ipcRenderer_send
                  (errorEvent rid (case e of JsError message \<Rightarrow> message | NonError \<Rightarrow> ''Unknown error''))
                  (cleanupRequest rid \<sigma>')))"

text \<open>
  What the Observer reacts to: a timer firing, a cancel message, a prompt message whose
  wait has the given checks behind it. \<open>observerRun\<close> is the Observer's single thread:
  one reaction after the other.
\<close>

datatype obs_event =
  Tick nat page int int
| OnCancel string page
| OnPrompt string string int "(page \<times> int) list"

definition observerStep :: "obs_event \<Rightarrow> observer \<Rightarrow> observer" where
  "observerStep ev \<sigma> =
     (case ev of
        Tick h pg nowEmit nowCheck \<Rightarrow> pollTick h pg nowEmit nowCheck \<sigma>
      | OnCancel rid pg \<Rightarrow> cancelRequest rid pg \<sigma>
      | OnPrompt rid prompt start checks \<Rightarrow>
          (case onPrompt rid prompt start checks \<sigma> of Some \<sigma>' \<Rightarrow> \<sigma>' | None \<Rightarrow> \<sigma>))"

fun observerRun :: "obs_event list \<Rightarrow> observer \<Rightarrow> observer" where
  "observerRun [] \<sigma> = \<sigma>"
| "observerRun (ev # evs) \<sigma> = observerRun evs (observerStep ev \<sigma>)"

section \<open>The Broker: WebModelService\<close>

text \<open>
  JavaScript's truthiness, where the code tests an optional field: \<^verbatim>\<open>payload.done\<close> holds
  for \<^verbatim>\<open>true\<close> only, \<^verbatim>\<open>payload.error\<close> for a string that is not empty.
\<close>

definition truthyBool :: "bool option \<Rightarrow> bool" where
  "truthyBool b = (b = Some True)"

definition truthyString :: "string option \<Rightarrow> bool" where
  "truthyString s = (case s of Some t \<Rightarrow> t \<noteq> [] | None \<Rightarrow> False)"

record PendingRequest =
  senderId :: int

record BrowserWindow =
  wid :: nat
  isDestroyed :: bool

text \<open>What \<^verbatim>\<open>webContents.fromId\<close> finds: a caller's context and whether it is destroyed.\<close>

datatype WebContents = WebContents (wcDestroyed: bool)

datatype downstream =
  WebModelPrompt string string "string option"
| WebModelCancel string

text \<open>
  The fields of \<^verbatim>\<open>WebModelService\<close>, and what it has done: \<open>created\<close> counts the calls
  of \<^verbatim>\<open>createWindow\<close> (the count names the window and the promise of the next call),
  \<open>toObserver\<close> logs \<^verbatim>\<open>window.webContents.send\<close> with the window it went to,
  \<open>toCallers\<close> logs \<^verbatim>\<open>target.send(IpcChannel.WebModel_Stream, payload)\<close> with the
  \<^verbatim>\<open>senderId\<close> of the target.
\<close>

record broker =
  window :: "BrowserWindow option"
  isReady :: bool
  creatingWindowPromise :: "nat option"
  pendingRequests :: "string \<rightharpoonup> PendingRequest"
  created :: nat
  toObserver :: "(nat \<times> downstream) list"
  toCallers :: "(int \<times> payload) list"

definition broker_init :: broker where
  "broker_init =
     \<lparr>window = None, isReady = False, creatingWindowPromise = None,
      pendingRequests = Map.empty, created = 0, toObserver = [], toCallers = []\<rparr>"

definition forwardChunk :: "(int \<Rightarrow> WebContents option) \<Rightarrow> payload \<Rightarrow> broker \<Rightarrow> broker" where
  "forwardChunk fromId p s =
     (case pendingRequests s (requestId p) of
        None \<Rightarrow> s
      | Some request \<Rightarrow>
          (case fromId (senderId request) of
             None \<Rightarrow> s\<lparr>pendingRequests := (pendingRequests s)(requestId p := None)\<rparr>
           | Some target \<Rightarrow>
               if wcDestroyed target
               then s\<lparr>pendingRequests := (pendingRequests s)(requestId p := None)\<rparr>
               else
                 (let s1 = s\<lparr>toCallers := toCallers s @ [(senderId request, p)]\<rparr>
                  in if truthyBool (done_ev p) \<or> truthyString (error p)
                     then s1\<lparr>pendingRequests := (pendingRequests s1)(requestId p := None)\<rparr>
                     else s1)))"

text \<open>
  The payload the listener of \<^verbatim>\<open>'web-model:error'\<close> passes to \<^verbatim>\<open>forwardChunk\<close>:
  \<^verbatim>\<open>{ ...payload, error: payload.error ?? 'Unknown error', done: true }\<close>.
\<close>

definition asError :: "payload \<Rightarrow> payload" where
  "asError p = p\<lparr>error := Some (case error p of Some e \<Rightarrow> e | None \<Rightarrow> ''Unknown error''),
                done_ev := Some True\<rparr>"

text \<open>The three listeners the constructor registers on \<^verbatim>\<open>ipcMain\<close>.\<close>

definition onWebModelError :: "(int \<Rightarrow> WebContents option) \<Rightarrow> payload \<Rightarrow> broker \<Rightarrow> broker" where
  "onWebModelError fromId p s = forwardChunk fromId (asError p) s"

definition ipcMain_on :: "(int \<Rightarrow> WebContents option) \<Rightarrow> upstream \<Rightarrow> broker \<Rightarrow> broker" where
  "ipcMain_on fromId m s =
     (case m of
        WebModelReady \<Rightarrow> s\<lparr>isReady := True\<rparr>
      | WebModelChunk p \<Rightarrow> forwardChunk fromId p s
      | WebModelError p \<Rightarrow> onWebModelError fromId p s)"

definition liveWindow :: "broker \<Rightarrow> bool" where
  "liveWindow s = (case window s of Some w \<Rightarrow> \<not> isDestroyed w | None \<Rightarrow> False)"

text \<open>
  \<^verbatim>\<open>createWindow\<close> is an async function: the call runs its body up to
  \<^verbatim>\<open>await this.window.loadURL(...)\<close> and returns the promise. That part clears
  \<open>isReady\<close> and stores the new window.
\<close>

definition createWindow :: "broker \<Rightarrow> nat \<times> broker" where
  "createWindow s =
     (created s,
      s\<lparr>isReady := False,
        window := Some \<lparr>wid = created s, isDestroyed = False\<rparr>,
        created := Suc (created s)\<rparr>)"

text \<open>
  Where a call of \<^verbatim>\<open>ensureWindow\<close> stands when it first gives up control: it has
  returned, it awaits the promise another call stored, or it awaits the promise of the
  creation it started itself.
\<close>

datatype ensured = Returned | AwaitsStored nat | AwaitsOwn nat

definition ensureWindow :: "broker \<Rightarrow> ensured \<times> broker" where
  "ensureWindow s =
     (if liveWindow s then (Returned, s)
      else case creatingWindowPromise s of
             Some p \<Rightarrow> (AwaitsStored p, s)
           | None \<Rightarrow>
               (let (p, s1) = createWindow s
                in (AwaitsOwn p, s1\<lparr>creatingWindowPromise := Some p\<rparr>)))"

text \<open>
  The rest of \<^verbatim>\<open>ensureWindow\<close> once the awaited promise has settled (\<open>ok\<close>: it resolved):
  the creating call clears the stored promise in its \<^verbatim>\<open>finally\<close>; a rejection is thrown
  on to the caller (\<open>Inl\<close>).
\<close>

definition ensureWindow_settled :: "ensured \<Rightarrow> bool \<Rightarrow> broker \<Rightarrow> (unit + unit) \<times> broker" where
  "ensureWindow_settled e ok s =
     (case e of
        Returned \<Rightarrow> (Inr (), s)
      | AwaitsStored p \<Rightarrow> (if ok then Inr () else Inl (), s)
      | AwaitsOwn p \<Rightarrow> (if ok then Inr () else Inl (), s\<lparr>creatingWindowPromise := None\<rparr>))"

text \<open>
  \<^verbatim>\<open>initialize\<close> from the point where its \<^verbatim>\<open>await this.ensureWindow()\<close> is over: it
  returns \<open>isReady\<close> as it is then, or passes the rejection on.
\<close>

definition initialize :: "ensured \<Rightarrow> bool \<Rightarrow> broker \<Rightarrow> (unit + bool) \<times> broker" where
  "initialize e ok s =
     (case ensureWindow_settled e ok s of
        (Inr u, s') \<Rightarrow> (Inr (isReady s'), s')
      | (Inl u, s') \<Rightarrow> (Inl u, s'))"

text \<open>
  \<open>n\<close> calls of \<^verbatim>\<open>ensureWindow\<close> (from \<^verbatim>\<open>initialize\<close> or \<^verbatim>\<open>sendMessage\<close>) arriving one
  after the other while nothing else happens: no promise settles and no window closes
  between them.
\<close>

fun ensureWindowCalls :: "nat \<Rightarrow> broker \<Rightarrow> ensured list \<times> broker" where
  "ensureWindowCalls 0 s = ([], s)"
| "ensureWindowCalls (Suc n) s =
     (let (e, s1) = ensureWindow s; (es, s2) = ensureWindowCalls n s1 in (e # es, s2))"

text \<open>The listener of the window's \<^verbatim>\<open>'closed'\<close> event.\<close>

definition onClosed :: "broker \<Rightarrow> broker" where
  "onClosed s = s\<lparr>window := None, isReady := False\<rparr>"

text \<open>
  \<^verbatim>\<open>sendMessage\<close> after its \<^verbatim>\<open>await this.ensureWindow()\<close>: \<open>uuid\<close> is what \<^verbatim>\<open>uuidv4()\<close>
  returns.
\<close>

definition sendMessage :: "string \<Rightarrow> string option \<Rightarrow> int \<Rightarrow> string \<Rightarrow> broker \<Rightarrow> thrown + (string \<times> broker)" where
  "sendMessage prompt provider sender uuid s =
     (case window s of
        None \<Rightarrow> Inl (JsError ''Web model window is not available'')
      | Some w \<Rightarrow>
          if isDestroyed w then Inl (JsError ''Web model window is not available'')
          else Inr (uuid,
                 s\<lparr>pendingRequests := (pendingRequests s)(uuid \<mapsto> \<lparr>senderId = sender\<rparr>),
                   toObserver := toObserver s @ [(wid w, WebModelPrompt uuid prompt provider)]\<rparr>))"

text \<open>
  \<^verbatim>\<open>cancel\<close> of the service. \<^verbatim>\<open>this.window?.webContents.send\<close> sends whenever the window
  field is not null: unlike \<^verbatim>\<open>ensureWindow\<close> and \<^verbatim>\<open>sendMessage\<close>, it does not ask
  \<^verbatim>\<open>isDestroyed()\<close>.
\<close>

definition cancel :: "string \<Rightarrow> broker \<Rightarrow> broker" where
  "cancel rid s =
     (if rid = [] then s
      else
        (let s1 = (case window s of
                     Some w \<Rightarrow> s\<lparr>toObserver := toObserver s @ [(wid w, WebModelCancel rid)]\<rparr>
                   | None \<Rightarrow> s)
         in s1\<lparr>pendingRequests := (pendingRequests s1)(rid := None)\<rparr>))"

section \<open>The Facade: WebModelClient\<close>

text \<open>
  \<^verbatim>\<open>StreamCallbacks\<close>: both callbacks are optional. \<open>'u\<close> and \<open>'e\<close> are the functions the
  caller passed, told apart by what they are. An invocation is logged with the
  identifier of the event that caused it.
\<close>

record ('u, 'e) StreamCallbacks =
  onUpdate :: "'u option"
  onError :: "'e option"

datatype ('u, 'e) invocation =
  OnUpdate 'u jsstring bool
| OnError 'e string

record ('u, 'e) client =
  listeners :: "string \<rightharpoonup> ('u, 'e) StreamCallbacks"
  invoked :: "(string \<times> ('u, 'e) invocation) list"
  apiCancel :: "string list"

definition client_init :: "('u, 'e) client" where
  "client_init = \<lparr>listeners = Map.empty, invoked = [], apiCancel = []\<rparr>"

definition invoke :: "string \<Rightarrow> ('u, 'e) invocation option \<Rightarrow> ('u, 'e) client \<Rightarrow> ('u, 'e) client" where
  "invoke rid call c = (case call of Some i \<Rightarrow> c\<lparr>invoked := invoked c @ [(rid, i)]\<rparr> | None \<Rightarrow> c)"

definition handleEvent :: "payload \<Rightarrow> ('u, 'e) client \<Rightarrow> ('u, 'e) client" where
  "handleEvent p c =
     (case listeners c (requestId p) of
        None \<Rightarrow> c
      | Some listener \<Rightarrow>
          if truthyString (error p) then
            (let c1 = invoke (requestId p)
                        (map_option (\<lambda>f. OnError f (case error p of Some msg \<Rightarrow> msg | None \<Rightarrow> []))
                           (onError listener)) c
             in c1\<lparr>listeners := (listeners c1)(requestId p := None)\<rparr>)
          else
            (let c1 = (case content p of
                         Some text \<Rightarrow>
                           invoke (requestId p)
                             (map_option (\<lambda>f. OnUpdate f text (truthyBool (done_ev p))) (onUpdate listener)) c
                       | None \<Rightarrow> c)
             in if truthyBool (done_ev p)
                then c1\<lparr>listeners := (listeners c1)(requestId p := None)\<rparr>
                else c1))"

text \<open>
  \<^verbatim>\<open>sendMessage\<close> of the client, after the Broker has returned the identifier:
  \<^verbatim>\<open>this.listeners.set(requestId, callbacks)\<close>.
\<close>

definition setListener :: "string \<Rightarrow> ('u, 'e) StreamCallbacks \<Rightarrow> ('u, 'e) client \<Rightarrow> ('u, 'e) client" where
  "setListener rid callbacks c = c\<lparr>listeners := (listeners c)(rid \<mapsto> callbacks)\<rparr>"

text \<open>\<^verbatim>\<open>cancel\<close> of the client; \<open>api\<close> says whether \<^verbatim>\<open>window.api?.webModel\<close> is there.\<close>

definition clientCancel :: "bool \<Rightarrow> string \<Rightarrow> ('u, 'e) client \<Rightarrow> ('u, 'e) client" where
  "clientCancel api rid c =
     (if rid = [] then c
      else
        (let c1 = (if api then c\<lparr>apiCancel := apiCancel c @ [rid]\<rparr> else c)
         in c1\<lparr>listeners := (listeners c1)(rid := None)\<rparr>))"

datatype ('u, 'e) client_event =
  SetListener string "('u, 'e) StreamCallbacks"
| Cancel string
| Event payload

definition clientStep :: "bool \<Rightarrow> ('u, 'e) client_event \<Rightarrow> ('u, 'e) client \<Rightarrow> ('u, 'e) client" where
  "clientStep api ev c =
     (case ev of
        SetListener rid callbacks \<Rightarrow> setListener rid callbacks c
      | Cancel rid \<Rightarrow> clientCancel api rid c
      | Event p \<Rightarrow> handleEvent p c)"

fun clientRun :: "bool \<Rightarrow> ('u, 'e) client_event list \<Rightarrow> ('u, 'e) client \<Rightarrow> ('u, 'e) client" where
  "clientRun api [] c = c"
| "clientRun api (ev # evs) c = clientRun api evs (clientStep api ev c)"

text \<open>
  A terminal payload, as both \<^verbatim>\<open>forwardChunk\<close> and \<^verbatim>\<open>handleEvent\<close> test it
  (\<^verbatim>\<open>payload.done || payload.error\<close>), and a terminal invocation: \<^verbatim>\<open>onError\<close>, or
  \<^verbatim>\<open>onUpdate\<close> with \<^verbatim>\<open>done\<close> true.
\<close>

definition terminal :: "payload \<Rightarrow> bool" where
  "terminal p \<longleftrightarrow> truthyBool (done_ev p) \<or> truthyString (error p)"

fun terminalCall :: "('u, 'e) invocation \<Rightarrow> bool" where
  "terminalCall (OnUpdate f text d) = d"
| "terminalCall (OnError f msg) = True"

definition invokedFor :: "string \<Rightarrow> ('u, 'e) client \<Rightarrow> ('u, 'e) invocation list" where
  "invokedFor rid c = map snd (filter (\<lambda>x. fst x = rid) (invoked c))"

text \<open>
  The way up, end to end: every message the Observer sent goes through the Broker's
  listeners, and every payload the Broker sent to a caller goes through that caller's
  \<^verbatim>\<open>handleEvent\<close>.
\<close>

fun brokerIntake :: "(int \<Rightarrow> WebContents option) \<Rightarrow> upstream list \<Rightarrow> broker \<Rightarrow> broker" where
  "brokerIntake fromId [] s = s"
| "brokerIntake fromId (m # ms) s = brokerIntake fromId ms (ipcMain_on fromId m s)"

fun clientIntake :: "payload list \<Rightarrow> ('u, 'e) client \<Rightarrow> ('u, 'e) client" where
  "clientIntake [] c = c"
| "clientIntake (p # ps) c = clientIntake ps (handleEvent p c)"

section \<open>Notions for stating the properties\<close>

text \<open>The identifier an upstream message is tagged with, and the messages of one request.\<close>

definition tagOf :: "upstream \<Rightarrow> string option" where
  "tagOf m = (case m of WebModelChunk p \<Rightarrow> Some (requestId p)
                      | WebModelError p \<Rightarrow> Some (requestId p)
                      | WebModelReady \<Rightarrow> None)"

definition sentFor :: "string \<Rightarrow> observer \<Rightarrow> upstream list" where
  "sentFor rid \<sigma> = filter (\<lambda>m. tagOf m = Some rid) (sent \<sigma>)"

text \<open>The contents of the chunk messages with \<^verbatim>\<open>done: false\<close>, in order.\<close>

fun updates :: "upstream list \<Rightarrow> jsstring list" where
  "updates [] = []"
| "updates (WebModelChunk p # ms) =
     (case (content p, done_ev p) of
        (Some c, Some False) \<Rightarrow> c # updates ms
      | _ \<Rightarrow> updates ms)"
| "updates (m # ms) = updates ms"

text \<open>
  The timer \<open>h\<close> is the one timer of request \<open>rid\<close>, it works on the object \<open>a\<close> that
  \<open>ACTIVE_REQUESTS\<close> holds for \<open>rid\<close>, the object knows the handle and is not done.
  \<^verbatim>\<open>startPolling\<close> sets this up for an identifier no live timer carries.
\<close>

definition soleTimer :: "observer \<Rightarrow> nat \<Rightarrow> string \<Rightarrow> nat \<Rightarrow> bool" where
  "soleTimer \<sigma> h rid a \<longleftrightarrow>
     intervals \<sigma> h = Some (rid, a) \<and> ACTIVE_REQUESTS \<sigma> rid = Some a
     \<and> interval (heap \<sigma> a) = Some h \<and> \<not> done_st (heap \<sigma> a)
     \<and> (\<forall>h' a'. intervals \<sigma> h' = Some (rid, a') \<longrightarrow> h' = h)"

text \<open>No live timer carries the identifier \<open>rid\<close>.\<close>

definition quiet :: "string \<Rightarrow> observer \<Rightarrow> bool" where
  "quiet rid \<sigma> \<longleftrightarrow> (\<forall>h a. intervals \<sigma> h \<noteq> Some (rid, a))"

text \<open>What was sent between the state \<open>\<sigma>\<close> and the later state \<open>\<sigma>'\<close>.\<close>

definition emitted :: "observer \<Rightarrow> observer \<Rightarrow> upstream list" where
  "emitted \<sigma> \<sigma>' = drop (length (sent \<sigma>)) (sent \<sigma>')"

text \<open>A chunk message with \<^verbatim>\<open>done: true\<close>.\<close>

definition isDone :: "upstream \<Rightarrow> bool" where
  "isDone m = (case m of WebModelChunk p \<Rightarrow> done_ev p = Some True | _ \<Rightarrow> False)"

text \<open>The event is a prompt message for the identifier \<open>rid\<close>.\<close>

definition promptFor :: "string \<Rightarrow> obs_event \<Rightarrow> bool" where
  "promptFor rid ev = (case ev of OnPrompt r prompt start checks \<Rightarrow> r = rid | _ \<Rightarrow> False)"

text \<open>
  The two fields of a request's record as the specification words them, over the samples
  taken so far (the text and the clock of each, oldest first): \<open>lastContent\<close> is the
  "most recent non-empty sampled answer text", and \<open>lastEmitTime\<close>, a "timestamp or
  unset", is "when \<open>lastContent\<close> last changed": the clock of the latest sample whose text
  is not empty and is not the most recent non-empty text before it. \<open>sampleOf\<close> is what
  a tick samples: the text of the page and the clock read at line 143.
\<close>

definition sampleOf :: "page \<times> int \<times> int \<Rightarrow> jsstring \<times> int" where
  "sampleOf t = (getLatestAssistantContent (fst t), fst (snd t))"

definition spec_lastContent :: "(jsstring \<times> int) list \<Rightarrow> jsstring" where
  "spec_lastContent samples = last ([] # filter (\<lambda>s. s \<noteq> []) (map fst samples))"

fun spec_lastEmitTime_back :: "(jsstring \<times> int) list \<Rightarrow> int option" where
  "spec_lastEmitTime_back [] = None"
| "spec_lastEmitTime_back ((s, t) # earlier) =
     (if s \<noteq> [] \<and> s \<noteq> spec_lastContent (rev earlier) then Some t else spec_lastEmitTime_back earlier)"

definition spec_lastEmitTime :: "(jsstring \<times> int) list \<Rightarrow> int option" where
  "spec_lastEmitTime samples = spec_lastEmitTime_back (rev samples)"

text \<open>The poll reads a text that is not empty and is not the one the object holds.\<close>

definition changed :: "observer \<Rightarrow> nat \<Rightarrow> page \<Rightarrow> bool" where
  "changed \<sigma> a pg \<longleftrightarrow>
     getLatestAssistantContent pg \<noteq> [] \<and> getLatestAssistantContent pg \<noteq> lastContent (heap \<sigma> a)"

text \<open>
  The timer \<open>h\<close> of request \<open>rid\<close> is live and works on the object that
  \<open>ACTIVE_REQUESTS\<close> holds for \<open>rid\<close>: the state \<^verbatim>\<open>startPolling\<close> leaves.
\<close>

definition polling :: "observer \<Rightarrow> nat \<Rightarrow> string \<Rightarrow> nat \<Rightarrow> bool" where
  "polling \<sigma> h rid a \<longleftrightarrow>
     intervals \<sigma> h = Some (rid, a) \<and> ACTIVE_REQUESTS \<sigma> rid = Some a
     \<and> interval (heap \<sigma> a) = Some h \<and> \<not> done_st (heap \<sigma> a)"

text \<open>What the Broker sent to callers between the state \<open>s\<close> and the later state \<open>s'\<close>.\<close>

definition forwarded :: "broker \<Rightarrow> broker \<Rightarrow> (int \<times> payload) list" where
  "forwarded s s' = drop (length (toCallers s)) (toCallers s')"

text \<open>The event stores a listener under the identifier \<open>rid\<close>.\<close>

definition registers :: "string \<Rightarrow> ('u, 'e) client_event \<Rightarrow> bool" where
  "registers rid ev = (case ev of SetListener r callbacks \<Rightarrow> r = rid | _ \<Rightarrow> False)"

text \<open>The callbacks invoked between the state \<open>c\<close> and the later state \<open>c'\<close>.\<close>

definition delivered :: "('u, 'e) client \<Rightarrow> ('u, 'e) client \<Rightarrow> (string \<times> ('u, 'e) invocation) list" where
  "delivered c c' = drop (length (invoked c)) (invoked c')"

text \<open>The invocation calls a callback of the pair \<open>cb\<close>.\<close>

fun callbackOf :: "('u, 'e) StreamCallbacks \<Rightarrow> ('u, 'e) invocation \<Rightarrow> bool" where
  "callbackOf cb (OnUpdate f text d) = (onUpdate cb = Some f)"
| "callbackOf cb (OnError f msg) = (onError cb = Some f)"

text \<open>The terminal payloads the Broker forwarded for \<open>rid\<close>.\<close>

definition terminalFor :: "string \<Rightarrow> (int \<times> payload) list \<Rightarrow> (int \<times> payload) list" where
  "terminalFor rid xs = filter (\<lambda>x. requestId (snd x) = rid \<and> terminal (snd x)) xs"

text \<open>
  How the Observer hands out objects and timers: a live timer works on the object whose
  address is its handle, taken before \<open>fresh\<close>; an object \<open>ACTIVE_REQUESTS\<close> holds knows
  its own timer; no object is held under two identifiers.
\<close>

definition allocated :: "observer \<Rightarrow> bool" where
  "allocated \<sigma> \<longleftrightarrow>
     (\<forall>h r a. intervals \<sigma> h = Some (r, a) \<longrightarrow> a = h \<and> h < fresh \<sigma>)
     \<and> (\<forall>r a. ACTIVE_REQUESTS \<sigma> r = Some a \<longrightarrow> a < fresh \<sigma> \<and> interval (heap \<sigma> a) = Some a)
     \<and> (\<forall>r r' a. ACTIVE_REQUESTS \<sigma> r = Some a \<and> ACTIVE_REQUESTS \<sigma> r' = Some a \<longrightarrow> r = r')"

text \<open>
  The event leaves the request \<open>rid\<close> with the timer \<open>h\<close> alone: it is a tick of another
  timer, a cancel or a prompt for another identifier.
\<close>

definition foreign :: "nat \<Rightarrow> string \<Rightarrow> obs_event \<Rightarrow> bool" where
  "foreign h rid ev =
     (case ev of
        Tick h' pg nowEmit nowCheck \<Rightarrow> h' \<noteq> h
      | OnCancel r pg \<Rightarrow> r \<noteq> rid
      | OnPrompt r prompt start checks \<Rightarrow> r \<noteq> rid)"

text \<open>
  The event is foreign to the request, or a tick of its timer that reads an empty
  answer text, or its cancel message.
\<close>

definition silentFor :: "nat \<Rightarrow> string \<Rightarrow> obs_event \<Rightarrow> bool" where
  "silentFor h rid ev =
     (case ev of
        Tick h' pg nowEmit nowCheck \<Rightarrow> h' = h \<longrightarrow> getLatestAssistantContent pg = []
      | OnCancel r pg \<Rightarrow> True
      | OnPrompt r prompt start checks \<Rightarrow> r \<noteq> rid)"

section \<open>Pages for examples\<close>

text \<open>
  A page whose assistant messages have the given texts, with a stop button (found by
  the first stop selector) or without, and no other element.
\<close>

definition examplePage :: "jsstring list \<Rightarrow> bool \<Rightarrow> page" where
  "examplePage texts stop =
     \<lparr>querySelector =
        (\<lambda>sel. if stop \<and> sel = ''button[data-testid=\"stop-button\"]''
               then Some (Element True None) else None),
      querySelectorAll = (\<lambda>sel. if sel = ASSISTANT_MESSAGE_SELECTOR then texts else []),
      HTMLButtonCtor = True\<rparr>"

text \<open>
  A page with an input area (found by the last input selector) and a send button (found
  by the first send selector), outside any form.
\<close>

definition exampleChatPage :: page where
  "exampleChatPage =
     \<lparr>querySelector =
        (\<lambda>sel. if sel = ''textarea'' then Some (Element False None)
               else if sel = ''button[data-testid=\"send-button\"]'' then Some (Element True None)
               else None),
      querySelectorAll = (\<lambda>sel. []),
      HTMLButtonCtor = True\<rparr>"

section \<open>Reading the example pages\<close>

lemma examplePage_content [simp]:
  "getLatestAssistantContent (examplePage texts stop) = (if texts = [] then [] else trim (last texts))"
  by (simp add: getLatestAssistantContent_def examplePage_def)

lemma examplePage_stop [simp]:
  "findStopButton (examplePage texts stop) = (if stop then Some (Element True None) else None)"
  by (simp add: findStopButton_def examplePage_def STOP_BUTTON_SELECTORS_def)

lemma ascii_Nil_iff [simp]: "ascii s = [] \<longleftrightarrow> s = []" "[] = ascii s \<longleftrightarrow> s = []" "ascii [] = []"
  by (auto simp add: ascii_def)

lemma code_unit_of_char_inject:
  "(of_nat (of_char c) :: 16 word) = of_nat (of_char d) \<longleftrightarrow> c = d"
proof
  assume eq: "(of_nat (of_char c) :: 16 word) = of_nat (of_char d)"
  have c: "(of_char c :: nat) < 2 ^ 16" and d: "(of_char d :: nat) < 2 ^ 16"
    by (cases c, simp) (cases d, simp)
  from eq have "unat (of_nat (of_char c) :: 16 word) = unat (of_nat (of_char d) :: 16 word)"
    by simp
  with c d have "(of_char c :: nat) = of_char d"
    by (simp add: unat_of_nat)
  then show "c = d"
    by simp
qed simp

lemma ascii_eq_iff [simp]: "ascii s = ascii t \<longleftrightarrow> s = t"
proof (induction s arbitrary: t)
  case Nil
  then show ?case by (auto simp add: ascii_def)
next
  case (Cons c s)
  then show ?case by (cases t) (auto simp add: ascii_def code_unit_of_char_inject)
qed

lemma trim_examples [simp]:
  "trim (ascii ''Hi'') = ascii ''Hi''" "trim (ascii ''Hi there'') = ascii ''Hi there''"
  "trim (ascii ''A'') = ascii ''A''" "trim (ascii ''B'') = ascii ''B''"
  "trim [] = []" "trim (ascii ''  '') = []" "trim [0x00A0] = []" "trim [0xFEFF, 0x2028] = []"
  by (simp_all add: trim_def isWhiteSpace_def ascii_def)

lemmas run_simps = pollTick_def pollBody_def startPolling_def Let_def ipcRenderer_send_def
  cleanupRequest_def observer_init_def emitted_def

lemmas way_up_simps = ipcMain_on_def forwardChunk_def onWebModelError_def asError_def handleEvent_def invoke_def
  truthyBool_def truthyString_def chunk_def chunkPayload_def forwarded_def broker_init_def
  client_init_def setListener_def

section \<open>The poll callback\<close>

lemma sent_cleanupRequest [simp]: "sent (cleanupRequest r \<sigma>) = sent \<sigma>"
  by (simp add: cleanupRequest_def Let_def split: option.splits)

lemma heap_cleanupRequest [simp]: "heap (cleanupRequest r \<sigma>) = heap \<sigma>"
  by (simp add: cleanupRequest_def Let_def split: option.splits)

lemma intervals_cleanupRequest_shrink:
  "intervals (cleanupRequest r \<sigma>) h = Some x \<Longrightarrow> intervals \<sigma> h = Some x"
  by (auto simp: cleanupRequest_def Let_def split: option.splits if_splits)

lemma quiet_cleanupRequest: "quiet rid \<sigma> \<Longrightarrow> quiet rid (cleanupRequest r \<sigma>)"
  unfolding quiet_def by (metis intervals_cleanupRequest_shrink)

text \<open>What one run of the timer callback sends, and what it leaves in the object.\<close>

lemma pollBody_heap_lastEmit:
  "lastEmit (heap (pollBody rid a pg nowEmit nowCheck \<sigma>) a) =
     (if changed \<sigma> a pg then nowEmit else lastEmit (heap \<sigma> a))"
  by (simp add: pollBody_def Let_def changed_def ipcRenderer_send_def)

lemma pollBody_heap_lastContent:
  "lastContent (heap (pollBody rid a pg nowEmit nowCheck \<sigma>) a) =
     (if changed \<sigma> a pg then getLatestAssistantContent pg else lastContent (heap \<sigma> a))"
  by (simp add: pollBody_def Let_def changed_def ipcRenderer_send_def)

lemma sent_pollBody:
  "sent (pollBody rid a pg nowEmit nowCheck \<sigma>) =
     sent \<sigma>
     @ (if changed \<sigma> a pg then [chunk rid (getLatestAssistantContent pg) False] else [])
     @ (if \<not> done_st (heap \<sigma> a) \<and> findStopButton pg = None
           \<and> 0 < lastEmit (heap (pollBody rid a pg nowEmit nowCheck \<sigma>) a)
           \<and> 1500 < nowCheck - lastEmit (heap (pollBody rid a pg nowEmit nowCheck \<sigma>) a)
        then [chunk rid (lastContent (heap (pollBody rid a pg nowEmit nowCheck \<sigma>) a)) True] else [])"
  unfolding pollBody_heap_lastEmit pollBody_heap_lastContent
  by (simp add: pollBody_def Let_def changed_def ipcRenderer_send_def)

lemma intervals_pollBody_shrink:
  "intervals (pollBody r a pg nowEmit nowCheck \<sigma>) h = Some x \<Longrightarrow> intervals \<sigma> h = Some x"
  by (auto simp: pollBody_def Let_def ipcRenderer_send_def split: if_splits
           dest!: intervals_cleanupRequest_shrink)

lemma sentFor_pollBody_other:
  "r \<noteq> rid \<Longrightarrow> sentFor rid (pollBody r a pg nowEmit nowCheck \<sigma>) = sentFor rid \<sigma>"
  by (simp add: sentFor_def sent_pollBody tagOf_def chunk_def chunkPayload_def)

subsection \<open>An identifier no timer carries stays silent\<close>

text \<open>
  Timers are only ever added by \<^verbatim>\<open>startPolling\<close>, under the identifier of its prompt.
  So once no live timer carries \<open>rid\<close>, nothing is sent for \<open>rid\<close> until a prompt for
  \<open>rid\<close> comes in.
\<close>

lemma quiet_pollTick:
  assumes "quiet rid \<sigma>"
  shows "quiet rid (pollTick h pg nowEmit nowCheck \<sigma>)"
    and "sentFor rid (pollTick h pg nowEmit nowCheck \<sigma>) = sentFor rid \<sigma>"
proof -
  show "quiet rid (pollTick h pg nowEmit nowCheck \<sigma>)"
    using assms unfolding quiet_def pollTick_def
    by (auto split: option.splits dest: intervals_pollBody_shrink)
  show "sentFor rid (pollTick h pg nowEmit nowCheck \<sigma>) = sentFor rid \<sigma>"
  proof (cases "intervals \<sigma> h")
    case None
    then show ?thesis by (simp add: pollTick_def)
  next
    case (Some x)
    obtain r a where x: "x = (r, a)" by (cases x)
    with Some assms have "r \<noteq> rid" by (auto simp: quiet_def)
    with Some x show ?thesis by (simp add: pollTick_def sentFor_pollBody_other)
  qed
qed

lemma quiet_cancelRequest:
  assumes "quiet rid \<sigma>"
  shows "quiet rid (cancelRequest r pg \<sigma>)"
    and "sentFor rid (cancelRequest r pg \<sigma>) = sentFor rid \<sigma>"
proof -
  have "quiet rid (act ClickStop \<sigma>)"
    using assms by (simp add: quiet_def act_def)
  with assms show "quiet rid (cancelRequest r pg \<sigma>)"
    by (auto simp: cancelRequest_def split: option.splits intro: quiet_cleanupRequest)
  show "sentFor rid (cancelRequest r pg \<sigma>) = sentFor rid \<sigma>"
    by (simp add: cancelRequest_def sentFor_def act_def split: option.splits)
qed

lemma quiet_startPolling:
  "quiet rid \<sigma> \<Longrightarrow> r \<noteq> rid \<Longrightarrow> quiet rid (startPolling r \<sigma>)"
  by (simp add: quiet_def startPolling_def Let_def)

lemma sent_startPolling [simp]: "sent (startPolling r \<sigma>) = sent \<sigma>"
  by (simp add: startPolling_def Let_def)

lemma quiet_act [simp]: "quiet rid (act x \<sigma>) = quiet rid \<sigma>"
  by (simp add: quiet_def act_def)

lemma sent_act [simp]: "sent (act x \<sigma>) = sent \<sigma>"
  by (simp add: act_def)

lemma quiet_onPrompt:
  assumes "quiet rid \<sigma>" and "r \<noteq> rid" and "onPrompt r prompt start checks \<sigma> = Some \<sigma>'"
  shows "quiet rid \<sigma>'" and "sentFor rid \<sigma>' = sentFor rid \<sigma>"
proof -
  have q: "\<And>\<tau>. quiet rid \<tau> \<Longrightarrow> quiet rid (ipcRenderer_send m (cleanupRequest r \<tau>))" for m
    using quiet_cleanupRequest by (simp add: quiet_def ipcRenderer_send_def)
  show "quiet rid \<sigma>'"
    using assms
    by (auto simp: onPrompt_def submitPrompt_def Let_def
             split: option.splits sum.splits promise.splits prod.splits
             intro!: q quiet_startPolling)
  show "sentFor rid \<sigma>' = sentFor rid \<sigma>"
    using assms(2,3)
    by (auto simp: onPrompt_def submitPrompt_def Let_def sentFor_def ipcRenderer_send_def tagOf_def
               errorEvent_def
             split: option.splits sum.splits promise.splits prod.splits)
qed

lemma quiet_observerStep:
  assumes "quiet rid \<sigma>" and "\<not> promptFor rid ev"
  shows "quiet rid (observerStep ev \<sigma>) \<and> sentFor rid (observerStep ev \<sigma>) = sentFor rid \<sigma>"
proof (cases ev)
  case (Tick h pg nowEmit nowCheck)
  with assms(1) show ?thesis by (simp add: observerStep_def quiet_pollTick)
next
  case (OnCancel r pg)
  with assms(1) show ?thesis by (simp add: observerStep_def quiet_cancelRequest)
next
  case (OnPrompt r prompt start checks)
  with assms(2) have "r \<noteq> rid" by (simp add: promptFor_def)
  with assms(1) OnPrompt show ?thesis
    by (auto simp: observerStep_def split: option.splits dest: quiet_onPrompt)
qed

lemma quiet_observerRun:
  assumes "quiet rid \<sigma>" and "\<forall>ev \<in> set evs. \<not> promptFor rid ev"
  shows "quiet rid (observerRun evs \<sigma>) \<and> sentFor rid (observerRun evs \<sigma>) = sentFor rid \<sigma>"
  using assms
proof (induction evs arbitrary: \<sigma>)
  case Nil
  then show ?case by simp
next
  case (Cons ev evs)
  from Cons.prems have step: "quiet rid (observerStep ev \<sigma>)"
    and same: "sentFor rid (observerStep ev \<sigma>) = sentFor rid \<sigma>"
    using quiet_observerStep [of rid \<sigma> ev] by auto
  from Cons.IH [OF step] Cons.prems(2) same show ?case by simp
qed

subsection \<open>Completion\<close>

lemma pollTick_soleTimer:
  "soleTimer \<sigma> h rid a \<Longrightarrow> pollTick h pg nowEmit nowCheck \<sigma> = pollBody rid a pg nowEmit nowCheck \<sigma>"
  by (simp add: soleTimer_def pollTick_def)

lemma emitted_append: "sent \<sigma>' = sent \<sigma> @ ms \<Longrightarrow> emitted \<sigma> \<sigma>' = ms"
  by (simp add: emitted_def)

lemma isDone_chunk [simp]: "isDone (chunk rid c d) = d"
  by (simp add: isDone_def chunk_def chunkPayload_def)

lemma pollBody_completes:
  assumes "soleTimer \<sigma> h rid a"
    and "findStopButton pg = None"
    and "0 < lastEmit (heap (pollBody rid a pg nowEmit nowCheck \<sigma>) a)"
    and "1500 < nowCheck - lastEmit (heap (pollBody rid a pg nowEmit nowCheck \<sigma>) a)"
  shows "intervals (pollBody rid a pg nowEmit nowCheck \<sigma>) h = None"
    and "ACTIVE_REQUESTS (pollBody rid a pg nowEmit nowCheck \<sigma>) rid = None"
    and "quiet rid (pollBody rid a pg nowEmit nowCheck \<sigma>)"
proof -
  let ?\<sigma>' = "pollBody rid a pg nowEmit nowCheck \<sigma>"
  from assms(3,4) have le: "0 < (if changed \<sigma> a pg then nowEmit else lastEmit (heap \<sigma> a))"
    "1500 < nowCheck - (if changed \<sigma> a pg then nowEmit else lastEmit (heap \<sigma> a))"
    by (simp_all add: pollBody_heap_lastEmit)
  have iv: "intervals ?\<sigma>' = (intervals \<sigma>)(h := None)" and ar: "ACTIVE_REQUESTS ?\<sigma>' rid = None"
    using assms(1,2) le
    by (auto simp: soleTimer_def pollBody_def Let_def changed_def ipcRenderer_send_def cleanupRequest_def
             split: if_splits)
  show "intervals ?\<sigma>' h = None" by (simp add: iv)
  show "ACTIVE_REQUESTS ?\<sigma>' rid = None" by (rule ar)
  show "quiet rid ?\<sigma>'"
    using assms(1) by (auto simp: quiet_def iv soleTimer_def)
qed

lemma pollBody_continues:
  assumes "soleTimer \<sigma> h rid a"
    and "\<not> (findStopButton pg = None
           \<and> 0 < lastEmit (heap (pollBody rid a pg nowEmit nowCheck \<sigma>) a)
           \<and> 1500 < nowCheck - lastEmit (heap (pollBody rid a pg nowEmit nowCheck \<sigma>) a))"
  shows "soleTimer (pollBody rid a pg nowEmit nowCheck \<sigma>) h rid a"
proof -
  from assms(2) have "\<not> (findStopButton pg = None
      \<and> 0 < (if changed \<sigma> a pg then nowEmit else lastEmit (heap \<sigma> a))
      \<and> 1500 < nowCheck - (if changed \<sigma> a pg then nowEmit else lastEmit (heap \<sigma> a)))"
    by (simp add: pollBody_heap_lastEmit)
  with assms(1) show ?thesis
    by (auto simp: soleTimer_def pollBody_def Let_def changed_def ipcRenderer_send_def
             split: if_splits)
qed

section \<open>Silence from the start\<close>

lemma pollTick_silent:
  assumes "intervals \<sigma> h = Some (rid, a)"
    and "lastEmit (heap \<sigma> a) = 0"
    and "\<not> done_st (heap \<sigma> a)"
    and "getLatestAssistantContent pg = []"
  shows "pollTick h pg nowEmit nowCheck \<sigma> = \<sigma>"
  using assms by (simp add: pollTick_def pollBody_def)

lemma runTicks_silent:
  assumes "intervals \<sigma> h = Some (rid, a)"
    and "lastEmit (heap \<sigma> a) = 0"
    and "\<not> done_st (heap \<sigma> a)"
    and "\<forall>t \<in> set ticks. getLatestAssistantContent (fst t) = []"
  shows "runTicks h ticks \<sigma> = \<sigma>"
  using assms
proof (induction ticks)
  case Nil
  then show ?case by simp
next
  case (Cons t ticks)
  obtain pg nowEmit nowCheck where t: "t = (pg, nowEmit, nowCheck)"
    by (cases t) auto
  from Cons.prems have "pollTick h pg nowEmit nowCheck \<sigma> = \<sigma>"
    by (intro pollTick_silent) (auto simp: t)
  with Cons show ?case by (simp add: t)
qed

section \<open>The shape of a polling run\<close>

lemma runTicks_dead: "intervals \<sigma> h = None \<Longrightarrow> runTicks h ticks \<sigma> = \<sigma>"
  by (induction ticks) (auto simp: pollTick_def)

lemma polling_startPolling: "polling (startPolling rid \<sigma>) (fresh \<sigma>) rid (fresh \<sigma>)"
  by (simp add: polling_def startPolling_def Let_def)

lemma pollTick_polling:
  "polling \<sigma> h rid a \<Longrightarrow> pollTick h pg nowEmit nowCheck \<sigma> = pollBody rid a pg nowEmit nowCheck \<sigma>"
  by (simp add: polling_def pollTick_def)

text \<open>One tick of a polling timer: either it completes and the timer is gone, or it goes on.\<close>

lemma pollBody_polling:
  fixes pg :: page and nowEmit nowCheck :: int
  assumes "polling \<sigma> h rid a"
  defines "\<sigma>' \<equiv> pollBody rid a pg nowEmit nowCheck \<sigma>"
  defines "over \<equiv> findStopButton pg = None \<and> 0 < lastEmit (heap \<sigma>' a) \<and> 1500 < nowCheck - lastEmit (heap \<sigma>' a)"
  shows "sent \<sigma>' = sent \<sigma>
           @ (if changed \<sigma> a pg then [chunk rid (getLatestAssistantContent pg) False] else [])
           @ (if over then [chunk rid (lastContent (heap \<sigma>' a)) True] else [])"
    and "over \<Longrightarrow> intervals \<sigma>' h = None"
    and "\<not> over \<Longrightarrow> polling \<sigma>' h rid a"
proof -
  from assms(1) have nd: "\<not> done_st (heap \<sigma> a)" by (simp add: polling_def)
  show "sent \<sigma>' = sent \<sigma>
           @ (if changed \<sigma> a pg then [chunk rid (getLatestAssistantContent pg) False] else [])
           @ (if over then [chunk rid (lastContent (heap \<sigma>' a)) True] else [])"
    unfolding over_def \<sigma>'_def using nd by (simp add: sent_pollBody)
  have le: "lastEmit (heap \<sigma>' a) = (if changed \<sigma> a pg then nowEmit else lastEmit (heap \<sigma> a))"
    unfolding \<sigma>'_def by (rule pollBody_heap_lastEmit)
  show "intervals \<sigma>' h = None" if over
    using that assms(1) unfolding over_def le unfolding \<sigma>'_def
    by (auto simp: polling_def pollBody_def Let_def changed_def ipcRenderer_send_def cleanupRequest_def
             split: if_splits)
  show "polling \<sigma>' h rid a" if "\<not> over"
    using that assms(1) unfolding over_def le unfolding \<sigma>'_def
    by (auto simp: polling_def pollBody_def Let_def changed_def ipcRenderer_send_def
             split: if_splits)
qed

text \<open>
  All the ticks of a request: chunks whose contents are not empty and differ from one
  to the next, then at most one done event, which repeats the last content.
\<close>

lemma runTicks_shape:
  assumes "polling \<sigma> h rid a"
  shows "\<exists>us fin. sent (runTicks h ticks \<sigma>)
             = sent \<sigma> @ map (\<lambda>c. chunk rid c False) us
               @ (if fin then [chunk rid (last (lastContent (heap \<sigma> a) # us)) True] else [])
           \<and> distinct_adj (lastContent (heap \<sigma> a) # us) \<and> [] \<notin> set us
           \<and> (fin \<longrightarrow> 0 < lastEmit (heap \<sigma> a) \<or> us \<noteq> [])"
  using assms
proof (induction ticks arbitrary: \<sigma>)
  case Nil
  show ?case by (rule exI [of _ "[]"], rule exI [of _ False]) simp
next
  case (Cons t ticks)
  obtain pg nowEmit nowCheck where t: "t = (pg, nowEmit, nowCheck)" by (cases t) auto
  define \<sigma>' where "\<sigma>' = pollBody rid a pg nowEmit nowCheck \<sigma>"
  define over where "over \<longleftrightarrow> findStopButton pg = None \<and> 0 < lastEmit (heap \<sigma>' a)
      \<and> 1500 < nowCheck - lastEmit (heap \<sigma>' a)"
  define s where "s = getLatestAssistantContent pg"
  define L where "L = lastContent (heap \<sigma> a)"
  have step: "sent \<sigma>' = sent \<sigma>
           @ (if changed \<sigma> a pg then [chunk rid s False] else [])
           @ (if over then [chunk rid (lastContent (heap \<sigma>' a)) True] else [])"
    "over \<Longrightarrow> intervals \<sigma>' h = None"
    "\<not> over \<Longrightarrow> polling \<sigma>' h rid a"
    using pollBody_polling [OF Cons.prems, of pg nowEmit nowCheck]
    by (simp_all add: \<sigma>'_def over_def s_def)
  have run: "runTicks h (t # ticks) \<sigma> = runTicks h ticks \<sigma>'"
    by (simp add: t \<sigma>'_def pollTick_polling [OF Cons.prems])
  have L': "lastContent (heap \<sigma>' a) = (if changed \<sigma> a pg then s else L)"
    unfolding \<sigma>'_def s_def L_def by (rule pollBody_heap_lastContent)
  have E': "lastEmit (heap \<sigma>' a) = (if changed \<sigma> a pg then nowEmit else lastEmit (heap \<sigma> a))"
    unfolding \<sigma>'_def by (rule pollBody_heap_lastEmit)
  have ch: "changed \<sigma> a pg \<longleftrightarrow> s \<noteq> [] \<and> s \<noteq> L"
    by (simp add: changed_def s_def L_def)
  show ?case
  proof (cases over)
    case True
    then have "runTicks h ticks \<sigma>' = \<sigma>'" by (intro runTicks_dead step(2))
    with run step(1) True have snt: "sent (runTicks h (t # ticks) \<sigma>)
        = sent \<sigma> @ (if changed \<sigma> a pg then [chunk rid s False] else [])
          @ [chunk rid (lastContent (heap \<sigma>' a)) True]" by simp
    from True have pos: "0 < lastEmit (heap \<sigma>' a)" by (simp add: over_def)
    show ?thesis
    proof (cases "changed \<sigma> a pg")
      case True
      with snt L' ch show ?thesis
        by (intro exI [of _ "[s]"] exI [of _ "True"]) (auto simp: L_def)
    next
      case False
      with snt L' pos E' show ?thesis
        by (intro exI [of _ "[]"] exI [of _ "True"]) (auto simp: L_def)
    qed
  next
    case False
    then have pol: "polling \<sigma>' h rid a" by (rule step(3))
    from Cons.IH [OF pol] obtain us fin where
      snt: "sent (runTicks h ticks \<sigma>') = sent \<sigma>' @ map (\<lambda>c. chunk rid c False) us
               @ (if fin then [chunk rid (last (lastContent (heap \<sigma>' a) # us)) True] else [])"
      and adj: "distinct_adj (lastContent (heap \<sigma>' a) # us)" and ne: "[] \<notin> set us"
      and fin: "fin \<longrightarrow> 0 < lastEmit (heap \<sigma>' a) \<or> us \<noteq> []"
      by blast
    from step(1) False have s': "sent \<sigma>' = sent \<sigma> @ (if changed \<sigma> a pg then [chunk rid s False] else [])"
      by simp
    show ?thesis
    proof (cases "changed \<sigma> a pg")
      case True
      with snt s' adj ne L' ch run show ?thesis
        by (intro exI [of _ "s # us"] exI [of _ fin]) (auto simp: L_def)
    next
      case False
      with snt s' adj ne L' E' fin run show ?thesis
        by (intro exI [of _ us] exI [of _ fin]) (auto simp: L_def)
    qed
  qed
qed

section \<open>Completion after a quiet period\<close>

lemma runTicks_snoc:
  "runTicks h (ticks @ [(pg, nowEmit, nowCheck)]) \<sigma> = pollTick h pg nowEmit nowCheck (runTicks h ticks \<sigma>)"
  by (induction ticks arbitrary: \<sigma>) auto

lemma updates_append: "updates (xs @ ys) = updates xs @ updates ys"
  by (induction xs rule: updates.induct) (auto split: option.splits bool.splits)

lemma spec_lastContent_snoc:
  "spec_lastContent (samples @ [(s, t)]) = (if s \<noteq> [] then s else spec_lastContent samples)"
  by (simp add: spec_lastContent_def)

lemma spec_lastEmitTime_snoc:
  "spec_lastEmitTime (samples @ [(s, t)]) =
     (if s \<noteq> [] \<and> s \<noteq> spec_lastContent samples then Some t else spec_lastEmitTime samples)"
  by (simp add: spec_lastEmitTime_def)

lemma intervals_pollTick_shrink:
  "intervals (pollTick h' pg nowEmit nowCheck \<sigma>) h = Some x \<Longrightarrow> intervals \<sigma> h = Some x"
  by (auto simp: pollTick_def split: option.splits dest: intervals_pollBody_shrink)

lemma runTicks_tracks:
  assumes "intervals (runTicks (fresh \<sigma>0) ticks (startPolling rid \<sigma>0)) (fresh \<sigma>0) \<noteq> None"
  shows "polling (runTicks (fresh \<sigma>0) ticks (startPolling rid \<sigma>0)) (fresh \<sigma>0) rid (fresh \<sigma>0)
       \<and> lastContent (heap (runTicks (fresh \<sigma>0) ticks (startPolling rid \<sigma>0)) (fresh \<sigma>0))
           = spec_lastContent (map sampleOf ticks)
       \<and> lastEmit (heap (runTicks (fresh \<sigma>0) ticks (startPolling rid \<sigma>0)) (fresh \<sigma>0))
           = (case spec_lastEmitTime (map sampleOf ticks) of Some t \<Rightarrow> t | None \<Rightarrow> 0)
       \<and> (\<exists>ms. sent (runTicks (fresh \<sigma>0) ticks (startPolling rid \<sigma>0)) = sent \<sigma>0 @ ms
                \<and> (updates ms = [] \<longleftrightarrow> spec_lastEmitTime (map sampleOf ticks) = None))"
  using assms
proof (induction ticks rule: rev_induct)
  case Nil
  show ?case
    using polling_startPolling [of rid \<sigma>0]
    by (simp add: spec_lastContent_def spec_lastEmitTime_def startPolling_def Let_def)
next
  case (snoc t ticks)
  obtain pg nowEmit nowCheck where t: "t = (pg, nowEmit, nowCheck)" by (cases t) auto
  let ?h = "fresh \<sigma>0"
  let ?\<sigma> = "runTicks ?h ticks (startPolling rid \<sigma>0)"
  let ?\<sigma>' = "pollBody rid ?h pg nowEmit nowCheck ?\<sigma>"
  let ?s = "getLatestAssistantContent pg"
  have run: "runTicks ?h (ticks @ [t]) (startPolling rid \<sigma>0) = pollTick ?h pg nowEmit nowCheck ?\<sigma>"
    by (simp add: t runTicks_snoc)
  from snoc.prems obtain x where "intervals (pollTick ?h pg nowEmit nowCheck ?\<sigma>) ?h = Some x"
    unfolding run by blast
  then have "intervals ?\<sigma> ?h = Some x"
    by (rule intervals_pollTick_shrink)
  then have alive: "intervals ?\<sigma> ?h \<noteq> None"
    by simp
  note IH = snoc.IH [OF alive]
  note pol = IH [THEN conjunct1]
  note lc = IH [THEN conjunct2, THEN conjunct1]
  note le = IH [THEN conjunct2, THEN conjunct2, THEN conjunct1]
  from IH [THEN conjunct2, THEN conjunct2, THEN conjunct2] obtain ms where
    snt: "sent ?\<sigma> = sent \<sigma>0 @ ms"
    and upd: "updates ms = [] \<longleftrightarrow> spec_lastEmitTime (map sampleOf ticks) = None"
    by (elim exE conjE)
  have run': "runTicks ?h (ticks @ [t]) (startPolling rid \<sigma>0) = ?\<sigma>'"
    unfolding run by (rule pollTick_polling [OF pol])
  define over where "over \<longleftrightarrow> findStopButton pg = None \<and> 0 < lastEmit (heap ?\<sigma>' ?h)
      \<and> 1500 < nowCheck - lastEmit (heap ?\<sigma>' ?h)"
  have step: "sent ?\<sigma>' = sent ?\<sigma>
           @ (if changed ?\<sigma> ?h pg then [chunk rid ?s False] else [])
           @ (if over then [chunk rid (lastContent (heap ?\<sigma>' ?h)) True] else [])"
    "over \<Longrightarrow> intervals ?\<sigma>' ?h = None"
    "\<not> over \<Longrightarrow> polling ?\<sigma>' ?h rid ?h"
    using pollBody_polling [OF pol, of pg nowEmit nowCheck]
    by (simp_all add: over_def)
  have "\<not> over"
  proof
    assume over
    then have "intervals ?\<sigma>' ?h = None" by (rule step(2))
    with snoc.prems show False unfolding run' by simp
  qed
  then have pol': "polling ?\<sigma>' ?h rid ?h"
    and snt': "sent ?\<sigma>' = sent \<sigma>0 @ (ms @ (if changed ?\<sigma> ?h pg then [chunk rid ?s False] else []))"
    using step(1,3) snt by simp_all
  have ch: "changed ?\<sigma> ?h pg \<longleftrightarrow> ?s \<noteq> [] \<and> ?s \<noteq> spec_lastContent (map sampleOf ticks)"
    by (simp add: changed_def lc)
  have samples: "map sampleOf (ticks @ [t]) = map sampleOf ticks @ [(?s, nowEmit)]"
    by (simp add: t sampleOf_def)
  have lc': "lastContent (heap ?\<sigma>' ?h) = spec_lastContent (map sampleOf (ticks @ [t]))"
    unfolding samples spec_lastContent_snoc pollBody_heap_lastContent ch lc by auto
  have le': "lastEmit (heap ?\<sigma>' ?h)
      = (case spec_lastEmitTime (map sampleOf (ticks @ [t])) of Some t \<Rightarrow> t | None \<Rightarrow> 0)"
    unfolding samples spec_lastEmitTime_snoc pollBody_heap_lastEmit ch le by auto
  have upd': "updates (ms @ (if changed ?\<sigma> ?h pg then [chunk rid ?s False] else [])) = []
      \<longleftrightarrow> spec_lastEmitTime (map sampleOf (ticks @ [t])) = None"
    unfolding samples spec_lastEmitTime_snoc ch [symmetric]
    using upd by (simp add: updates_append chunk_def chunkPayload_def)
  show ?case
    unfolding run' using pol' lc' le' snt' upd'
    by (intro conjI exI [of _ "ms @ (if changed ?\<sigma> ?h pg then [chunk rid ?s False] else [])"])
qed


lemma isDone_simps [simp]:
  "isDone (WebModelChunk \<lparr>requestId = r, content = c, done_ev = d, error = e\<rparr>) \<longleftrightarrow> d = Some True"
  by (simp add: isDone_def)

text \<open>
  Claim C2. Take a request whose one live timer is \<open>h\<close> (\<open>soleTimer\<close>: the state
  \<^verbatim>\<open>startPolling\<close> sets up, with the object not yet done), and let that timer fire once,
  on the page \<open>pg\<close>. The content has changed at this tick when the text read is not empty
  and is not \<open>lastContent\<close>; then, and only then, the tick sends a chunk with
  \<^verbatim>\<open>done: false\<close> and sets \<open>lastEmit\<close> to the clock \<open>nowEmit\<close> of this tick, and
  otherwise \<open>lastEmit\<close> and \<open>lastContent\<close> stay as they were. So \<open>lastChange\<close>, the value
  of \<open>lastEmit\<close> the completion test reads, is the clock of the last content change. The
  tick sends a done event if and only if the stop button is absent, \<open>lastChange\<close> is
  positive and more than 1500 ms have passed since \<open>lastChange\<close>. When it does, it sends
  exactly one done event, \<^verbatim>\<open>{requestId, content: lastContent, done: true}\<close>, as its last
  message, the timer is cleared and the entry of \<open>ACTIVE_REQUESTS\<close> is gone, and no later
  run of the Observer sends anything for this identifier, as long as no second prompt
  with the same identifier arrives. When it does not, the request goes on polling in the
  same way.

  The last part reads the same in the words of the specification, for a request that
  \<^verbatim>\<open>startPolling\<close> started and that has had the ticks \<open>ticks\<close> so far: \<open>lastContent\<close> is the
  most recent non-empty sampled text, \<open>lastChange\<close> is the time when \<open>lastContent\<close> last
  changed (0 while it is unset), and it is unset exactly as long as no chunk with
  \<^verbatim>\<open>done: false\<close> has been sent.
\<close>

theorem completion_iff_quiet_period:
  assumes "soleTimer \<sigma> h rid a"
  shows "let \<sigma>' = pollTick h pg nowEmit nowCheck \<sigma>;
             lastChange = (if changed \<sigma> a pg then nowEmit else lastEmit (heap \<sigma> a));
             over = (findStopButton pg = None \<and> 0 < lastChange \<and> 1500 < nowCheck - lastChange);
             final = WebModelChunk \<lparr>requestId = rid, content = Some (lastContent (heap \<sigma>' a)),
                                    done_ev = Some True, error = None\<rparr>
         in lastEmit (heap \<sigma>' a) = lastChange
            \<and> lastContent (heap \<sigma>' a)
                = (if changed \<sigma> a pg then getLatestAssistantContent pg else lastContent (heap \<sigma> a))
            \<and> emitted \<sigma> \<sigma>'
                = (if changed \<sigma> a pg
                   then [WebModelChunk \<lparr>requestId = rid, content = Some (getLatestAssistantContent pg),
                                         done_ev = Some False, error = None\<rparr>]
                   else [])
                  @ (if over then [final] else [])
            \<and> ((\<exists>m \<in> set (emitted \<sigma> \<sigma>'). isDone m) \<longleftrightarrow> over)
            \<and> (over \<longrightarrow>
                 filter isDone (emitted \<sigma> \<sigma>') = [final]
                 \<and> last (sent \<sigma>') = final
                 \<and> intervals \<sigma>' h = None \<and> ACTIVE_REQUESTS \<sigma>' rid = None \<and> quiet rid \<sigma>'
                 \<and> (\<forall>evs. (\<forall>ev \<in> set evs. \<not> promptFor rid ev)
                       \<longrightarrow> sentFor rid (observerRun evs \<sigma>') = sentFor rid \<sigma>'))
            \<and> (\<not> over \<longrightarrow> soleTimer \<sigma>' h rid a)
            \<and> (\<forall>\<sigma>0 ticks. h = fresh \<sigma>0 \<and> \<sigma> = runTicks h ticks (startPolling rid \<sigma>0) \<longrightarrow>
                  lastContent (heap \<sigma>' a) = spec_lastContent (map sampleOf (ticks @ [(pg, nowEmit, nowCheck)]))
                  \<and> lastChange
                      = (case spec_lastEmitTime (map sampleOf (ticks @ [(pg, nowEmit, nowCheck)])) of
                           Some t \<Rightarrow> t | None \<Rightarrow> 0)
                  \<and> (spec_lastEmitTime (map sampleOf (ticks @ [(pg, nowEmit, nowCheck)])) = None
                       \<longleftrightarrow> updates (emitted \<sigma>0 \<sigma>') = []))"
proof -
  let ?\<sigma>' = "pollBody rid a pg nowEmit nowCheck \<sigma>"
  let ?s = "getLatestAssistantContent pg"
  let ?lastChange = "if changed \<sigma> a pg then nowEmit else lastEmit (heap \<sigma> a)"
  let ?over = "findStopButton pg = None \<and> 0 < ?lastChange \<and> 1500 < nowCheck - ?lastChange"
  let ?final = "WebModelChunk \<lparr>requestId = rid, content = Some (lastContent (heap ?\<sigma>' a)),
                                    done_ev = Some True, error = None\<rparr>"
  let ?chunk = "WebModelChunk \<lparr>requestId = rid, content = Some ?s, done_ev = Some False, error = None\<rparr>"
  from assms have nd: "\<not> done_st (heap \<sigma> a)" by (simp add: soleTimer_def)
  have le: "lastEmit (heap ?\<sigma>' a) = ?lastChange"
    by (rule pollBody_heap_lastEmit)
  have lc: "lastContent (heap ?\<sigma>' a) = (if changed \<sigma> a pg then ?s else lastContent (heap \<sigma> a))"
    by (rule pollBody_heap_lastContent)
  have sn: "sent ?\<sigma>' = sent \<sigma> @ ((if changed \<sigma> a pg then [?chunk] else []) @ (if ?over then [?final] else []))"
    using nd sent_pollBody [of rid a pg nowEmit nowCheck \<sigma>] unfolding le
    by (simp add: chunk_def chunkPayload_def)
  have em: "emitted \<sigma> ?\<sigma>' = (if changed \<sigma> a pg then [?chunk] else []) @ (if ?over then [?final] else [])"
    using sn by (rule emitted_append)
  have iff: "(\<exists>m \<in> set (emitted \<sigma> ?\<sigma>'). isDone m) \<longleftrightarrow> ?over"
    unfolding em by simp
  have once: "filter isDone (emitted \<sigma> ?\<sigma>') = [?final]" if ?over
    unfolding em using that by simp
  have lst: "last (sent ?\<sigma>') = ?final" if ?over
    unfolding sn using that by simp
  have released: "intervals ?\<sigma>' h = None" "ACTIVE_REQUESTS ?\<sigma>' rid = None" "quiet rid ?\<sigma>'" if ?over
    using that pollBody_completes [OF assms, of pg nowEmit nowCheck] unfolding le by simp_all
  have never: "sentFor rid (observerRun evs ?\<sigma>') = sentFor rid ?\<sigma>'"
    if ?over and "\<forall>ev \<in> set evs. \<not> promptFor rid ev" for evs
    using quiet_observerRun [OF released(3) [OF that(1)] that(2)] by simp
  have goes_on: "soleTimer ?\<sigma>' h rid a" if "\<not> ?over"
    using pollBody_continues [OF assms, of pg nowEmit nowCheck] that unfolding le by simp
  have tracked: "lastContent (heap ?\<sigma>' a) = spec_lastContent (map sampleOf (ticks @ [(pg, nowEmit, nowCheck)]))
      \<and> ?lastChange = (case spec_lastEmitTime (map sampleOf (ticks @ [(pg, nowEmit, nowCheck)])) of
                          Some t \<Rightarrow> t | None \<Rightarrow> 0)
      \<and> (spec_lastEmitTime (map sampleOf (ticks @ [(pg, nowEmit, nowCheck)])) = None
            \<longleftrightarrow> updates (emitted \<sigma>0 ?\<sigma>') = [])"
    if start: "h = fresh \<sigma>0 \<and> \<sigma> = runTicks h ticks (startPolling rid \<sigma>0)" for \<sigma>0 ticks
  proof -
    from start have h: "h = fresh \<sigma>0" and \<sigma>: "\<sigma> = runTicks (fresh \<sigma>0) ticks (startPolling rid \<sigma>0)"
      by simp_all
    from assms have live: "intervals \<sigma> h = Some (rid, a)" by (simp add: soleTimer_def)
    then have "intervals (runTicks (fresh \<sigma>0) ticks (startPolling rid \<sigma>0)) (fresh \<sigma>0) \<noteq> None"
      unfolding h \<sigma> by simp
    note T = runTicks_tracks [OF this, folded \<sigma>]
    from T [THEN conjunct1] live have a: "a = h"
      by (simp add: polling_def h)
    note lc0 = T [THEN conjunct2, THEN conjunct1, folded h, folded a]
    note le0 = T [THEN conjunct2, THEN conjunct2, THEN conjunct1, folded h, folded a]
    from T [THEN conjunct2, THEN conjunct2, THEN conjunct2] obtain ms where
      snt: "sent \<sigma> = sent \<sigma>0 @ ms"
      and upd: "updates ms = [] \<longleftrightarrow> spec_lastEmitTime (map sampleOf ticks) = None"
      by (elim exE conjE)
    have samples: "map sampleOf (ticks @ [(pg, nowEmit, nowCheck)]) = map sampleOf ticks @ [(?s, nowEmit)]"
      by (simp add: sampleOf_def)
    have ch: "changed \<sigma> a pg \<longleftrightarrow> ?s \<noteq> [] \<and> ?s \<noteq> spec_lastContent (map sampleOf ticks)"
      by (simp add: changed_def lc0)
    have 1: "lastContent (heap ?\<sigma>' a) = spec_lastContent (map sampleOf (ticks @ [(pg, nowEmit, nowCheck)]))"
      unfolding samples spec_lastContent_snoc lc ch lc0 by auto
    have 2: "?lastChange = (case spec_lastEmitTime (map sampleOf (ticks @ [(pg, nowEmit, nowCheck)])) of
                          Some t \<Rightarrow> t | None \<Rightarrow> 0)"
      unfolding samples spec_lastEmitTime_snoc ch le0 by auto
    have "emitted \<sigma>0 ?\<sigma>' = ms @ (if changed \<sigma> a pg then [?chunk] else []) @ (if ?over then [?final] else [])"
      by (rule emitted_append) (simp add: sn snt)
    then have 3: "spec_lastEmitTime (map sampleOf (ticks @ [(pg, nowEmit, nowCheck)])) = None
            \<longleftrightarrow> updates (emitted \<sigma>0 ?\<sigma>') = []"
      unfolding samples spec_lastEmitTime_snoc ch [symmetric]
      using upd by (simp add: updates_append)
    from 1 2 3 show ?thesis by (intro conjI)
  qed
  show ?thesis
    unfolding pollTick_soleTimer [OF assms] Let_def
    apply (intro conjI impI allI)
    subgoal by (rule le)
    subgoal by (rule lc)
    subgoal by (rule em)
    subgoal by (rule iff)
    subgoal by (rule once)
    subgoal by (rule lst)
    subgoal by (rule released(1))
    subgoal by (rule released(2))
    subgoal by (rule released(3))
    subgoal by (rule never)
    subgoal by (rule goes_on)
    subgoal using tracked by blast
    subgoal using tracked by blast
    subgoal using tracked by blast
    done
qed

text \<open>
  Claim C2, at a concrete input: after chunks at 400 ms and 800 ms, a tick at 2301 ms
  with no stop button completes the request, 1501 ms after the last content change at
  800 ms; a later tick of the same timer on a page with new text and a cancel message add
  nothing. A tick at 2000 ms instead, 1200 ms after the last change, sends nothing.
\<close>

theorem completion_witness:
  "soleTimer
     (runTicks 0 [(examplePage [ascii ''Hi''] True, 400, 400), (examplePage [ascii ''Hi there''] False, 800, 800)]
        (startPolling ''r1'' observer_init)) 0 ''r1'' 0
   \<and> emitted
       (runTicks 0 [(examplePage [ascii ''Hi''] True, 400, 400), (examplePage [ascii ''Hi there''] False, 800, 800)]
          (startPolling ''r1'' observer_init))
       (pollTick 0 (examplePage [ascii ''Hi there''] False) 2301 2301
          (runTicks 0 [(examplePage [ascii ''Hi''] True, 400, 400), (examplePage [ascii ''Hi there''] False, 800, 800)]
             (startPolling ''r1'' observer_init)))
     = [WebModelChunk \<lparr>requestId = ''r1'', content = Some (ascii ''Hi there''), done_ev = Some True, error = None\<rparr>]
   \<and> spec_lastEmitTime
       (map sampleOf [(examplePage [ascii ''Hi''] True, 400, 400), (examplePage [ascii ''Hi there''] False, 800, 800),
                      (examplePage [ascii ''Hi there''] False, 2301, 2301)]) = Some 800
   \<and> sentFor ''r1''
       (observerRun [Tick 0 (examplePage [ascii ''More''] False) 2700 2700, OnCancel ''r1'' (examplePage [] False)]
          (pollTick 0 (examplePage [ascii ''Hi there''] False) 2301 2301
             (runTicks 0 [(examplePage [ascii ''Hi''] True, 400, 400), (examplePage [ascii ''Hi there''] False, 800, 800)]
                (startPolling ''r1'' observer_init))))
     = [WebModelChunk \<lparr>requestId = ''r1'', content = Some (ascii ''Hi''), done_ev = Some False, error = None\<rparr>,
        WebModelChunk \<lparr>requestId = ''r1'', content = Some (ascii ''Hi there''), done_ev = Some False, error = None\<rparr>,
        WebModelChunk \<lparr>requestId = ''r1'', content = Some (ascii ''Hi there''), done_ev = Some True, error = None\<rparr>]
   \<and> emitted
       (runTicks 0 [(examplePage [ascii ''Hi''] True, 400, 400), (examplePage [ascii ''Hi there''] False, 800, 800)]
          (startPolling ''r1'' observer_init))
       (pollTick 0 (examplePage [ascii ''Hi there''] False) 2000 2000
          (runTicks 0 [(examplePage [ascii ''Hi''] True, 400, 400), (examplePage [ascii ''Hi there''] False, 800, 800)]
             (startPolling ''r1'' observer_init)))
     = []"
proof -
  let ?ticks = "[(examplePage [ascii ''Hi''] True, 400, 400), (examplePage [ascii ''Hi there''] False, 800, 800)]"
  let ?\<sigma> = "runTicks 0 ?ticks (startPolling ''r1'' observer_init)"
  let ?pg = "examplePage [ascii ''Hi there''] False"
  have sole: "soleTimer ?\<sigma> 0 ''r1'' 0"
    by (simp add: soleTimer_def run_simps chunk_def chunkPayload_def)
  have ch: "\<not> changed ?\<sigma> 0 ?pg"
    by (simp add: changed_def run_simps chunk_def chunkPayload_def)
  have le: "lastEmit (heap ?\<sigma> 0) = 800" and lc: "lastContent (heap ?\<sigma> 0) = ascii ''Hi there''"
    by (simp_all add: run_simps chunk_def chunkPayload_def)
  have stop: "findStopButton ?pg = None"
    by simp
  have np: "\<forall>ev \<in> set [Tick 0 (examplePage [ascii ''More''] False) 2700 2700, OnCancel ''r1'' (examplePage [] False)].
      \<not> promptFor ''r1'' ev"
    by (simp add: promptFor_def)
  have was: "sentFor ''r1'' ?\<sigma>
      = [WebModelChunk \<lparr>requestId = ''r1'', content = Some (ascii ''Hi''), done_ev = Some False, error = None\<rparr>,
         WebModelChunk \<lparr>requestId = ''r1'', content = Some (ascii ''Hi there''), done_ev = Some False, error = None\<rparr>]"
    and all: "sent ?\<sigma> = sentFor ''r1'' ?\<sigma>"
    by (simp_all add: run_simps sentFor_def tagOf_def chunk_def chunkPayload_def)
  note T = completion_iff_quiet_period [OF sole, of ?pg 2301 2301, unfolded Let_def]
  have over: "findStopButton ?pg = None
      \<and> 0 < (if changed ?\<sigma> 0 ?pg then 2301 else lastEmit (heap ?\<sigma> 0))
      \<and> 1500 < 2301 - (if changed ?\<sigma> 0 ?pg then 2301 else lastEmit (heap ?\<sigma> 0))"
    using ch le stop by simp
  have lc': "lastContent (heap (pollTick 0 ?pg 2301 2301 ?\<sigma>) 0) = ascii ''Hi there''"
    using T [THEN conjunct2, THEN conjunct1] ch lc by simp
  have em: "emitted ?\<sigma> (pollTick 0 ?pg 2301 2301 ?\<sigma>)
      = [WebModelChunk \<lparr>requestId = ''r1'', content = Some (ascii ''Hi there''), done_ev = Some True, error = None\<rparr>]"
    using T [THEN conjunct2, THEN conjunct2, THEN conjunct1] lc' ch le stop by simp
  from T [THEN conjunct2, THEN conjunct2, THEN conjunct2, THEN conjunct2, THEN conjunct1, rule_format, OF over]
  have "\<forall>evs. (\<forall>ev \<in> set evs. \<not> promptFor ''r1'' ev)
      \<longrightarrow> sentFor ''r1'' (observerRun evs (pollTick 0 ?pg 2301 2301 ?\<sigma>)) = sentFor ''r1'' (pollTick 0 ?pg 2301 2301 ?\<sigma>)"
    by (elim conjE)
  with np have later: "sentFor ''r1'' (observerRun [Tick 0 (examplePage [ascii ''More''] False) 2700 2700, OnCancel ''r1'' (examplePage [] False)] (pollTick 0 ?pg 2301 2301 ?\<sigma>))
      = sentFor ''r1'' (pollTick 0 ?pg 2301 2301 ?\<sigma>)"
    by blast
  have "sent (pollTick 0 ?pg 2301 2301 ?\<sigma>) = sent ?\<sigma> @ emitted ?\<sigma> (pollTick 0 ?pg 2301 2301 ?\<sigma>)"
    unfolding em by (simp add: run_simps chunk_def chunkPayload_def)
  then have now: "sentFor ''r1'' (pollTick 0 ?pg 2301 2301 ?\<sigma>) = sentFor ''r1'' ?\<sigma> @ emitted ?\<sigma> (pollTick 0 ?pg 2301 2301 ?\<sigma>)"
    unfolding em by (simp add: sentFor_def tagOf_def)
  have spec: "spec_lastEmitTime (map sampleOf (?ticks @ [(?pg, 2301, 2301)])) = Some 800"
    by (simp add: spec_lastEmitTime_def spec_lastContent_def sampleOf_def)
  have early: "emitted ?\<sigma> (pollTick 0 ?pg 2000 2000 ?\<sigma>) = []"
    by (simp add: run_simps chunk_def chunkPayload_def)
  from sole em spec later [unfolded now was em] early show ?thesis
    by simp
qed

section \<open>From the Observer to the callbacks\<close>

lemma updates_chunks [simp]: "updates (map (\<lambda>c. chunk rid c False) us @ ms) = us @ updates ms"
  by (induction us) (simp_all add: chunk_def chunkPayload_def)

lemma updates_done [simp]: "updates [chunk rid c True] = []"
  by (simp add: chunk_def chunkPayload_def)

lemma forwardChunk_update:
  assumes "pendingRequests s rid = Some req" and "fromId (senderId req) = Some (WebContents False)"
  shows "forwardChunk fromId (chunkPayload rid x False) s
           = s\<lparr>toCallers := toCallers s @ [(senderId req, chunkPayload rid x False)]\<rparr>"
  using assms by (simp add: forwardChunk_def chunkPayload_def truthyBool_def truthyString_def)

lemma forwardChunk_done:
  assumes "pendingRequests s rid = Some req" and "fromId (senderId req) = Some (WebContents False)"
  shows "forwardChunk fromId (chunkPayload rid x True) s
           = s\<lparr>toCallers := toCallers s @ [(senderId req, chunkPayload rid x True)],
               pendingRequests := (pendingRequests s)(rid := None)\<rparr>"
  using assms by (simp add: forwardChunk_def chunkPayload_def truthyBool_def truthyString_def)

lemma brokerIntake_append:
  "brokerIntake fromId (ms @ ms') s = brokerIntake fromId ms' (brokerIntake fromId ms s)"
  by (induction ms arbitrary: s) simp_all

lemma brokerIntake_updates:
  assumes "pendingRequests s rid = Some req" and "fromId (senderId req) = Some (WebContents False)"
  shows "brokerIntake fromId (map (\<lambda>x. chunk rid x False) us) s
           = s\<lparr>toCallers := toCallers s @ map (\<lambda>x. (senderId req, chunkPayload rid x False)) us\<rparr>"
  using assms
proof (induction us arbitrary: s)
  case Nil
  then show ?case by simp
next
  case (Cons x us)
  let ?s1 = "s\<lparr>toCallers := toCallers s @ [(senderId req, chunkPayload rid x False)]\<rparr>"
  have "ipcMain_on fromId (chunk rid x False) s = ?s1"
    using Cons.prems by (simp add: ipcMain_on_def chunk_def forwardChunk_update)
  moreover have "pendingRequests ?s1 rid = Some req" using Cons.prems by simp
  ultimately show ?case using Cons.IH [of ?s1] Cons.prems(2) by simp
qed

lemma handleEvent_update:
  assumes "listeners c rid = Some cb" and "onUpdate cb = Some u"
  shows "handleEvent (chunkPayload rid x False) c = c\<lparr>invoked := invoked c @ [(rid, OnUpdate u x False)]\<rparr>"
  using assms
  by (simp add: handleEvent_def chunkPayload_def truthyBool_def truthyString_def invoke_def)

lemma handleEvent_done:
  assumes "listeners c rid = Some cb" and "onUpdate cb = Some u"
  shows "handleEvent (chunkPayload rid x True) c
           = c\<lparr>invoked := invoked c @ [(rid, OnUpdate u x True)], listeners := (listeners c)(rid := None)\<rparr>"
  using assms
  by (simp add: handleEvent_def chunkPayload_def truthyBool_def truthyString_def invoke_def)

lemma clientIntake_append:
  "clientIntake (ps @ ps') c = clientIntake ps' (clientIntake ps c)"
  by (induction ps arbitrary: c) simp_all

lemma clientIntake_updates:
  assumes "listeners c rid = Some cb" and "onUpdate cb = Some u"
  shows "clientIntake (map (\<lambda>x. chunkPayload rid x False) us) c
           = c\<lparr>invoked := invoked c @ map (\<lambda>x. (rid, OnUpdate u x False)) us\<rparr>"
  using assms
proof (induction us arbitrary: c)
  case Nil
  then show ?case by simp
next
  case (Cons x us)
  let ?c1 = "c\<lparr>invoked := invoked c @ [(rid, OnUpdate u x False)]\<rparr>"
  have "handleEvent (chunkPayload rid x False) c = ?c1"
    using Cons.prems by (rule handleEvent_update)
  moreover have "listeners ?c1 rid = Some cb" using Cons.prems by simp
  ultimately show ?case using Cons.IH [of ?c1] Cons.prems(2) by simp
qed

text \<open>
  Claim C5, as the code has it. Run any sequence of ticks of a request from
  \<^verbatim>\<open>startPolling\<close>, pass what the Observer sent through the Broker (the request is
  pending, its caller alive) and on to the Facade (a listener with an \<^verbatim>\<open>onUpdate\<close>
  callback is stored). The contents of the \<^verbatim>\<open>done: false\<close> chunks are not empty and no
  two consecutive ones are equal; \<^verbatim>\<open>onUpdate\<close> is invoked exactly once for each of them,
  in order, and once more with \<^verbatim>\<open>done\<close> true and the last content if the run completed.
  The same content can come again after a different one, and the done event repeats
  the last content: "at most once per distinct content value" does not hold.
\<close>

theorem updates_differ_from_the_one_before:
  assumes "pendingRequests s rid = Some req" and "fromId (senderId req) = Some (WebContents False)"
    and "listeners c rid = Some cb" and "onUpdate cb = Some u"
  shows "let evs = emitted \<sigma> (runTicks (fresh \<sigma>) ticks (startPolling rid \<sigma>));
             s' = brokerIntake fromId evs s;
             c' = clientIntake (map snd (forwarded s s')) c
         in distinct_adj (updates evs) \<and> [] \<notin> set (updates evs)
            \<and> invoked c' = invoked c @ map (\<lambda>x. (rid, OnUpdate u x False)) (updates evs)
                 @ (if \<exists>m \<in> set evs. isDone m then [(rid, OnUpdate u (last (updates evs)) True)] else [])"
proof -
  let ?\<sigma>0 = "startPolling rid \<sigma>"
  have L0: "lastContent (heap ?\<sigma>0 (fresh \<sigma>)) = []" and E0: "lastEmit (heap ?\<sigma>0 (fresh \<sigma>)) = 0"
    by (simp_all add: startPolling_def Let_def)
  from runTicks_shape [OF polling_startPolling [of rid \<sigma>], of ticks] obtain us fin where
    snt: "sent (runTicks (fresh \<sigma>) ticks ?\<sigma>0)
            = sent \<sigma> @ map (\<lambda>c. chunk rid c False) us @ (if fin then [chunk rid (last ([] # us)) True] else [])"
    and adj: "distinct_adj ([] # us)" and ne: "[] \<notin> set us" and fin: "fin \<longrightarrow> us \<noteq> []"
    unfolding L0 E0 by auto
  define evs where "evs = emitted \<sigma> (runTicks (fresh \<sigma>) ticks ?\<sigma>0)"
  have evs: "evs = map (\<lambda>c. chunk rid c False) us @ (if fin then [chunk rid (last us) True] else [])"
    unfolding evs_def using snt fin by (intro emitted_append) auto
  have up: "updates evs = us" by (simp add: evs)
  have dn: "(\<exists>m \<in> set evs. isDone m) \<longleftrightarrow> fin" by (auto simp: evs)
  have adj': "distinct_adj us" using adj by (cases us) simp_all
  define s1 where "s1 = s\<lparr>toCallers := toCallers s @ map (\<lambda>x. (senderId req, chunkPayload rid x False)) us\<rparr>"
  have b1: "brokerIntake fromId (map (\<lambda>x. chunk rid x False) us) s = s1"
    unfolding s1_def using assms(1,2) by (rule brokerIntake_updates)
  have p1: "pendingRequests s1 rid = Some req" by (simp add: s1_def assms(1))
  have fw: "forwarded s (brokerIntake fromId evs s)
      = map (\<lambda>x. (senderId req, chunkPayload rid x False)) us
        @ (if fin then [(senderId req, chunkPayload rid (last us) True)] else [])"
  proof -
    have "toCallers (forwardChunk fromId (chunkPayload rid y True) s1)
        = toCallers s @ map (\<lambda>x. (senderId req, chunkPayload rid x False)) us
          @ [(senderId req, chunkPayload rid y True)]" for y
      unfolding forwardChunk_done [where fromId = fromId, OF p1 assms(2)] by (simp add: s1_def)
    moreover have "toCallers s1 = toCallers s @ map (\<lambda>x. (senderId req, chunkPayload rid x False)) us"
      by (simp add: s1_def)
    ultimately show ?thesis
      unfolding evs brokerIntake_append b1
      by (simp add: forwarded_def ipcMain_on_def chunk_def)
  qed
  define c1 where "c1 = c\<lparr>invoked := invoked c @ map (\<lambda>x. (rid, OnUpdate u x False)) us\<rparr>"
  have k1: "clientIntake (map (\<lambda>x. chunkPayload rid x False) us) c = c1"
    unfolding c1_def using assms(3,4) by (rule clientIntake_updates)
  have l1: "listeners c1 rid = Some cb" by (simp add: c1_def assms(3))
  have inv: "invoked (clientIntake (map snd (forwarded s (brokerIntake fromId evs s))) c)
      = invoked c @ map (\<lambda>x. (rid, OnUpdate u x False)) us
        @ (if fin then [(rid, OnUpdate u (last us) True)] else [])"
  proof -
    have "invoked (handleEvent (chunkPayload rid y True) c1)
        = invoked c @ map (\<lambda>x. (rid, OnUpdate u x False)) us @ [(rid, OnUpdate u y True)]" for y
      unfolding handleEvent_done [OF l1 assms(4)] by (simp add: c1_def)
    moreover have "invoked c1 = invoked c @ map (\<lambda>x. (rid, OnUpdate u x False)) us"
      by (simp add: c1_def)
    ultimately show ?thesis
      unfolding fw by (simp add: clientIntake_append comp_def k1)
  qed
  show ?thesis
    unfolding Let_def evs_def [symmetric] up dn using adj' ne inv by simp
qed

text \<open>
  Claim C5, at a concrete input: the texts Hi, Hi, Hi there are delivered as Hi, Hi there.
\<close>

theorem updates_differ_witness:
  "invoked
     (clientIntake
        (map snd (forwarded (broker_init\<lparr>pendingRequests := [''r1'' \<mapsto> \<lparr>senderId = 7\<rparr>]\<rparr>)
           (brokerIntake (\<lambda>_. Some (WebContents False))
              (emitted observer_init
                 (runTicks 0
                    [(examplePage [ascii ''Hi''] True, 400, 400), (examplePage [ascii ''Hi''] True, 800, 800),
                     (examplePage [ascii ''Hi there''] False, 1200, 1200)]
                    (startPolling ''r1'' observer_init)))
              (broker_init\<lparr>pendingRequests := [''r1'' \<mapsto> \<lparr>senderId = 7\<rparr>]\<rparr>))))
        (setListener ''r1'' \<lparr>onUpdate = Some (1::nat), onError = Some (2::nat)\<rparr> client_init))
   = [(''r1'', OnUpdate 1 (ascii ''Hi'') False), (''r1'', OnUpdate 1 (ascii ''Hi there'') False)]
   \<and> distinct_adj [ascii ''Hi'', ascii ''Hi there'']"
proof -
  let ?s = "broker_init\<lparr>pendingRequests := [''r1'' \<mapsto> \<lparr>senderId = 7\<rparr>]\<rparr>"
  let ?c = "setListener ''r1'' \<lparr>onUpdate = Some (1::nat), onError = Some (2::nat)\<rparr> client_init"
  let ?ticks = "[(examplePage [ascii ''Hi''] True, 400, 400), (examplePage [ascii ''Hi''] True, 800, 800),
                     (examplePage [ascii ''Hi there''] False, 1200, 1200)]"
  have evs: "emitted observer_init (runTicks 0 ?ticks (startPolling ''r1'' observer_init))
      = [chunk ''r1'' (ascii ''Hi'') False, chunk ''r1'' (ascii ''Hi there'') False]"
    by (simp add: run_simps)
  have p: "pendingRequests ?s ''r1'' = Some \<lparr>senderId = 7\<rparr>" by simp
  have f: "(\<lambda>_. Some (WebContents False)) (senderId \<lparr>senderId = 7\<rparr>) = Some (WebContents False)" by simp
  have l: "listeners ?c ''r1'' = Some \<lparr>onUpdate = Some (1::nat), onError = Some (2::nat)\<rparr>"
    by (simp add: setListener_def)
  have u: "onUpdate \<lparr>onUpdate = Some (1::nat), onError = Some (2::nat)\<rparr> = Some 1" by simp
  have fr: "fresh observer_init = 0" by (simp add: observer_init_def)
  show ?thesis
    using updates_differ_from_the_one_before [OF p f l u, of observer_init ?ticks]
    unfolding fr Let_def evs
    by (simp add: chunk_def chunkPayload_def isDone_def client_init_def setListener_def)
qed

text \<open>
  Claim C5 as stated fails: the poll reads A, B, A and then completes; \<^verbatim>\<open>onUpdate\<close> is
  invoked with A three times (twice with \<^verbatim>\<open>done\<close> false around B, once with \<^verbatim>\<open>done\<close>
  true).
\<close>

theorem same_content_twice_counterexample:
  "map snd (invoked
     (clientIntake
        (map snd (toCallers
           (brokerIntake (\<lambda>_. Some (WebContents False))
              (sent (runTicks 0
                       [(examplePage [ascii ''A''] True, 400, 400), (examplePage [ascii ''B''] True, 800, 800),
                        (examplePage [ascii ''A''] False, 1200, 1200), (examplePage [ascii ''A''] False, 3000, 3000)]
                       (startPolling ''r1'' observer_init)))
              (broker_init\<lparr>pendingRequests := [''r1'' \<mapsto> \<lparr>senderId = 7\<rparr>]\<rparr>))))
        (setListener ''r1'' \<lparr>onUpdate = Some (1::nat), onError = Some (2::nat)\<rparr> client_init)))
   = [OnUpdate 1 (ascii ''A'') False, OnUpdate 1 (ascii ''B'') False, OnUpdate 1 (ascii ''A'') False, OnUpdate 1 (ascii ''A'') True]"
  by (simp add: run_simps way_up_simps)

section \<open>The scenario of the specification\<close>

text \<open>
  Claim C1, as the code has it. The poll reads the empty text at \<open>t0\<close>, Hi at
  \<open>t0 + 400\<close>, Hi there at \<open>t0 + 800\<close> and Hi there again at \<open>t0 + t\<close>; the stop button is
  absent at the last two ticks (at the first two it may be there or not). The Observer
  sends chunk Hi, chunk Hi there and then, at the fourth tick, the done event with
  Hi there exactly when \<open>t > 2300\<close>: the quiet period must be more than 1500 ms, and at
  \<open>t = 2300\<close> it is 1500 ms.
\<close>

theorem scenario_Hi_there:
  assumes "getLatestAssistantContent pg0 = []"
    and "getLatestAssistantContent pg1 = ascii ''Hi''"
    and "getLatestAssistantContent pg2 = ascii ''Hi there''"
    and "getLatestAssistantContent pg3 = ascii ''Hi there''"
    and "findStopButton pg2 = None" and "findStopButton pg3 = None"
    and "0 \<le> t0"
  shows "emitted \<sigma>
           (runTicks (fresh \<sigma>)
              [(pg0, t0, t0), (pg1, t0 + 400, t0 + 400), (pg2, t0 + 800, t0 + 800), (pg3, t0 + t, t0 + t)]
              (startPolling rid \<sigma>))
         = [WebModelChunk \<lparr>requestId = rid, content = Some (ascii ''Hi''), done_ev = Some False, error = None\<rparr>,
            WebModelChunk \<lparr>requestId = rid, content = Some (ascii ''Hi there''), done_ev = Some False, error = None\<rparr>]
           @ (if 2300 < t
              then [WebModelChunk \<lparr>requestId = rid, content = Some (ascii ''Hi there''), done_ev = Some True, error = None\<rparr>]
              else [])"
  using assms
  by (simp add: emitted_def pollTick_def pollBody_def startPolling_def Let_def ipcRenderer_send_def
        cleanupRequest_def chunk_def chunkPayload_def)

text \<open>Claim C1, at a concrete input: with the fourth tick at 2700 ms the three events are sent.\<close>

theorem scenario_Hi_there_witness:
  "emitted observer_init
     (runTicks 0
        [(examplePage [] True, 0, 0), (examplePage [ascii ''Hi''] True, 400, 400),
         (examplePage [ascii ''Hi there''] False, 800, 800), (examplePage [ascii ''Hi there''] False, 2700, 2700)]
        (startPolling ''r1'' observer_init))
   = [WebModelChunk \<lparr>requestId = ''r1'', content = Some (ascii ''Hi''), done_ev = Some False, error = None\<rparr>,
      WebModelChunk \<lparr>requestId = ''r1'', content = Some (ascii ''Hi there''), done_ev = Some False, error = None\<rparr>,
      WebModelChunk \<lparr>requestId = ''r1'', content = Some (ascii ''Hi there''), done_ev = Some True, error = None\<rparr>]"
  using scenario_Hi_there [of "examplePage [] True" "examplePage [ascii ''Hi''] True"
      "examplePage [ascii ''Hi there''] False" "examplePage [ascii ''Hi there''] False" 0 observer_init 2700 "''r1''"]
  by (simp add: observer_init_def)

text \<open>
  Claim C1 as stated fails: with the fourth tick at 2300 ms exactly, the two chunks are
  sent and no done event.
\<close>

theorem scenario_at_2300_counterexample:
  "emitted observer_init
     (runTicks 0
        [(examplePage [] True, 0, 0), (examplePage [ascii ''Hi''] True, 400, 400),
         (examplePage [ascii ''Hi there''] False, 800, 800), (examplePage [ascii ''Hi there''] False, 2300, 2300)]
        (startPolling ''r1'' observer_init))
   = [WebModelChunk \<lparr>requestId = ''r1'', content = Some (ascii ''Hi''), done_ev = Some False, error = None\<rparr>,
      WebModelChunk \<lparr>requestId = ''r1'', content = Some (ascii ''Hi there''), done_ev = Some False, error = None\<rparr>]"
  by (simp add: run_simps chunk_def chunkPayload_def)

section \<open>Terminal events\<close>

subsection \<open>The Facade retires a listener for good\<close>

lemma handleEvent_absent: "listeners c (requestId p) = None \<Longrightarrow> handleEvent p c = c"
  by (simp add: handleEvent_def)

lemma forwardChunk_absent: "pendingRequests s (requestId p) = None \<Longrightarrow> forwardChunk fromId p s = s"
  by (simp add: forwardChunk_def)

lemma invoked_invoke:
  "invoked (invoke rid call c) = invoked c @ (case call of Some i \<Rightarrow> [(rid, i)] | None \<Rightarrow> [])"
  by (simp add: invoke_def split: option.splits)

lemma listeners_invoke [simp]: "listeners (invoke rid call c) = listeners c"
  by (simp add: invoke_def split: option.splits)

text \<open>What \<open>handleEvent\<close> invokes and what it leaves of the listeners.\<close>

lemma handleEvent_present:
  assumes "listeners c (requestId p) = Some cb"
  shows "invoked (handleEvent p c) = invoked c @
           (if truthyString (error p)
            then (case onError cb of Some f \<Rightarrow> [(requestId p, OnError f (case error p of Some msg \<Rightarrow> msg | None \<Rightarrow> []))]
                  | None \<Rightarrow> [])
            else (case content p of
                    Some text \<Rightarrow> (case onUpdate cb of
                                    Some f \<Rightarrow> [(requestId p, OnUpdate f text (truthyBool (done_ev p)))]
                                  | None \<Rightarrow> [])
                  | None \<Rightarrow> []))"
    and "listeners (handleEvent p c) = (if terminal p then (listeners c)(requestId p := None) else listeners c)"
  using assms
  by (auto simp: handleEvent_def Let_def invoked_invoke terminal_def split: option.splits)

lemma handleEvent_other:
  "rid \<noteq> requestId p \<Longrightarrow> listeners (handleEvent p c) rid = listeners c rid"
  by (cases "listeners c (requestId p)") (simp_all add: handleEvent_absent handleEvent_present)

lemma invokedFor_handleEvent_other:
  "rid \<noteq> requestId p \<Longrightarrow> invokedFor rid (handleEvent p c) = invokedFor rid c"
  by (cases "listeners c (requestId p)")
     (auto simp: handleEvent_absent handleEvent_present invokedFor_def split: option.splits)

lemma handleEvent_terminal_count:
  assumes "listeners c (requestId p) = Some cb"
  shows "length (filter terminalCall (invokedFor rid (handleEvent p c)))
           \<le> length (filter terminalCall (invokedFor rid c)) + (if terminal p \<and> rid = requestId p then 1 else 0)"
  using assms
  by (auto simp: handleEvent_present invokedFor_def terminal_def split: option.splits)

lemma clientStep_invoked_other:
  "\<not> (\<exists>p. ev = Event p) \<Longrightarrow> invoked (clientStep api ev c) = invoked c"
  by (cases ev) (simp_all add: clientStep_def setListener_def clientCancel_def Let_def)

text \<open>
  With no listener under \<open>rid\<close> and none stored later, nothing is invoked for \<open>rid\<close>.
\<close>

lemma clientRun_absent:
  assumes "listeners c rid = None" and "\<forall>ev \<in> set evs. \<not> registers rid ev"
  shows "invokedFor rid (clientRun api evs c) = invokedFor rid c \<and> listeners (clientRun api evs c) rid = None"
  using assms
proof (induction evs arbitrary: c)
  case Nil
  then show ?case by simp
next
  case (Cons ev evs)
  have "invokedFor rid (clientStep api ev c) = invokedFor rid c \<and> listeners (clientStep api ev c) rid = None"
  proof (cases ev)
    case (SetListener r callbacks)
    with Cons.prems show ?thesis
      by (auto simp: clientStep_def setListener_def registers_def invokedFor_def)
  next
    case (Cancel r)
    with Cons.prems show ?thesis
      by (auto simp: clientStep_def clientCancel_def Let_def invokedFor_def)
  next
    case (Event p)
    show ?thesis
    proof (cases "requestId p = rid")
      case True
      with Cons.prems(1) Event show ?thesis by (simp add: clientStep_def handleEvent_absent)
    next
      case False
      with Cons.prems(1) Event show ?thesis
        by (simp add: clientStep_def handleEvent_other invokedFor_handleEvent_other)
    qed
  qed
  with Cons.IH [of "clientStep api ev c"] Cons.prems(2) show ?case by simp
qed

text \<open>
  Terminal invocations for \<open>rid\<close> in a run: at most one per listener stored under \<open>rid\<close>,
  counting the one that may be there at the start.
\<close>

lemma clientRun_terminal_count:
  "length (filter terminalCall (invokedFor rid (clientRun api evs c)))
     \<le> length (filter terminalCall (invokedFor rid c))
       + length (filter (registers rid) evs) + (if listeners c rid = None then 0 else 1)"
proof (induction evs arbitrary: c)
  case Nil
  then show ?case by simp
next
  case (Cons ev evs)
  let ?c' = "clientStep api ev c"
  let ?T = "\<lambda>c. length (filter terminalCall (invokedFor rid c))"
  let ?L = "\<lambda>c. if listeners c rid = None then 0 else (1::nat)"
  have step: "?T ?c' + ?L ?c' \<le> ?T c + (if registers rid ev then 1 else 0) + ?L c"
  proof (cases ev)
    case (SetListener r callbacks)
    then show ?thesis
      by (simp add: clientStep_def setListener_def registers_def invokedFor_def)
  next
    case (Cancel r)
    then show ?thesis
      by (simp add: clientStep_def clientCancel_def Let_def registers_def invokedFor_def)
  next
    case (Event p)
    show ?thesis
    proof (cases "listeners c (requestId p)")
      case None
      with Event show ?thesis by (simp add: clientStep_def handleEvent_absent registers_def)
    next
      case (Some cb)
      show ?thesis
      proof (cases "rid = requestId p")
        case True
        with Some Event handleEvent_terminal_count [OF Some, of rid] show ?thesis
          by (auto simp: clientStep_def registers_def handleEvent_present(2) [OF Some])
      next
        case False
        with Event show ?thesis
          by (simp add: clientStep_def registers_def handleEvent_other invokedFor_handleEvent_other)
      qed
    qed
  qed
  have "?T (clientRun api (ev # evs) c) \<le> ?T ?c' + length (filter (registers rid) evs) + ?L ?c'"
    using Cons.IH [of ?c'] by simp
  with step show ?case by (simp split: if_splits)
qed

subsection \<open>The Broker forwards at most one terminal payload\<close>

lemma toCallers_forwardChunk:
  "toCallers (forwardChunk fromId p s) = toCallers s @
     (case pendingRequests s (requestId p) of
        None \<Rightarrow> []
      | Some req \<Rightarrow> (case fromId (senderId req) of
                       None \<Rightarrow> []
                     | Some target \<Rightarrow> if wcDestroyed target then [] else [(senderId req, p)]))"
  by (simp add: forwardChunk_def Let_def split: option.splits)

lemma pendingRequests_forwardChunk_other:
  "rid \<noteq> requestId p \<Longrightarrow> pendingRequests (forwardChunk fromId p s) rid = pendingRequests s rid"
  by (simp add: forwardChunk_def Let_def split: option.splits)

lemma pendingRequests_forwardChunk_terminal:
  "terminal p \<Longrightarrow> pendingRequests (forwardChunk fromId p s) (requestId p) = None"
  by (simp add: forwardChunk_def Let_def terminal_def split: option.splits)

lemma pendingRequests_forwardChunk_shrink:
  "pendingRequests s rid = None \<Longrightarrow> pendingRequests (forwardChunk fromId p s) rid = None"
  by (auto simp: forwardChunk_def Let_def split: option.splits)

lemma forwardChunk_terminal_count:
  "length (terminalFor rid (toCallers (forwardChunk fromId p s)))
     + (if pendingRequests (forwardChunk fromId p s) rid = None then 0 else 1)
   \<le> length (terminalFor rid (toCallers s)) + (if pendingRequests s rid = None then 0 else 1)"
proof (cases "rid = requestId p")
  case True
  then show ?thesis
    by (auto simp: toCallers_forwardChunk terminalFor_def pendingRequests_forwardChunk_terminal
               pendingRequests_forwardChunk_shrink
             split: option.splits)
next
  case False
  then show ?thesis
    by (auto simp: toCallers_forwardChunk terminalFor_def pendingRequests_forwardChunk_other
             split: option.splits)
qed

lemma ipcMain_on_terminal_count:
  "length (terminalFor rid (toCallers (ipcMain_on fromId m s)))
     + (if pendingRequests (ipcMain_on fromId m s) rid = None then 0 else 1)
   \<le> length (terminalFor rid (toCallers s)) + (if pendingRequests s rid = None then 0 else 1)"
proof (cases m)
  case (WebModelChunk p)
  then show ?thesis using forwardChunk_terminal_count [of rid fromId p s] by (simp add: ipcMain_on_def)
next
  case (WebModelError p)
  then show ?thesis
    using forwardChunk_terminal_count [of rid fromId _ s]
    by (simp add: ipcMain_on_def onWebModelError_def)
next
  case WebModelReady
  then show ?thesis by (simp add: ipcMain_on_def)
qed

lemma brokerIntake_terminal_count:
  "length (terminalFor rid (toCallers (brokerIntake fromId ms s)))
     \<le> length (terminalFor rid (toCallers s)) + (if pendingRequests s rid = None then 0 else 1)"
proof (induction ms arbitrary: s)
  case Nil
  then show ?case by simp
next
  case (Cons m ms)
  from Cons.IH [of "ipcMain_on fromId m s"] ipcMain_on_terminal_count [of rid fromId m s]
  show ?case by (simp split: if_splits)
qed

text \<open>
  Claim C3. A terminal event is one with \<^verbatim>\<open>done\<close> true or a non-empty \<^verbatim>\<open>error\<close>, which is
  what both \<^verbatim>\<open>forwardChunk\<close> and \<^verbatim>\<open>handleEvent\<close> test. In any run of the Facade from its
  initial state (listeners stored, cancels, events, in any order) in which a listener
  is stored under \<open>rid\<close> at most once, at most one terminal invocation (\<^verbatim>\<open>onError\<close>, or
  \<^verbatim>\<open>onUpdate\<close> with \<^verbatim>\<open>done\<close> true) is made for \<open>rid\<close>. From a Broker state where \<open>rid\<close> is
  pending, any sequence of upstream messages forwards at most one terminal payload for
  \<open>rid\<close>. Handling a terminal event removes the listener and the pending-request
  record; cancel removes the listener. Once the listener is gone and none is stored
  again, no later event invokes anything for \<open>rid\<close>. The Broker drops an event with no
  pending-request record and the Facade drops an event with no listener: the state
  stays as it is.
\<close>

theorem one_terminal_delivery_then_silence:
  "(length (filter (registers rid) evs) \<le> 1
      \<longrightarrow> length (filter terminalCall (invokedFor rid (clientRun api evs client_init))) \<le> 1)
   \<and> (pendingRequests s rid \<noteq> None \<and> terminalFor rid (toCallers s) = []
        \<longrightarrow> length (terminalFor rid (toCallers (brokerIntake fromId ms s))) \<le> 1)
   \<and> (terminal p \<longrightarrow> listeners (handleEvent p c) (requestId p) = None
                      \<and> pendingRequests (forwardChunk fromId p s) (requestId p) = None)
   \<and> (rid \<noteq> [] \<longrightarrow> listeners (clientCancel api rid c) rid = None)
   \<and> (listeners c rid = None \<and> (\<forall>ev \<in> set evs'. \<not> registers rid ev)
        \<longrightarrow> invokedFor rid (clientRun api evs' c) = invokedFor rid c
            \<and> listeners (clientRun api evs' c) rid = None)
   \<and> (pendingRequests s (requestId p) = None \<longrightarrow> forwardChunk fromId p s = s)
   \<and> (listeners c (requestId p) = None \<longrightarrow> handleEvent p c = c)"
proof -
  have a: "length (filter (registers rid) evs) \<le> 1
      \<longrightarrow> length (filter terminalCall (invokedFor rid (clientRun api evs client_init))) \<le> 1"
    using clientRun_terminal_count [of rid api evs client_init]
    by (simp add: client_init_def invokedFor_def)
  have b: "pendingRequests s rid \<noteq> None \<and> terminalFor rid (toCallers s) = []
      \<longrightarrow> length (terminalFor rid (toCallers (brokerIntake fromId ms s))) \<le> 1"
    using brokerIntake_terminal_count [of rid fromId ms s] by auto
  have t: "terminal p \<longrightarrow> listeners (handleEvent p c) (requestId p) = None
      \<and> pendingRequests (forwardChunk fromId p s) (requestId p) = None"
  proof (cases "listeners c (requestId p)")
    case None
    then show ?thesis by (simp add: handleEvent_absent pendingRequests_forwardChunk_terminal)
  next
    case (Some cb)
    then show ?thesis by (simp add: handleEvent_present(2) pendingRequests_forwardChunk_terminal)
  qed
  have k: "rid \<noteq> [] \<longrightarrow> listeners (clientCancel api rid c) rid = None"
    by (simp add: clientCancel_def Let_def)
  have r: "listeners c rid = None \<and> (\<forall>ev \<in> set evs'. \<not> registers rid ev)
        \<longrightarrow> invokedFor rid (clientRun api evs' c) = invokedFor rid c
            \<and> listeners (clientRun api evs' c) rid = None"
    using clientRun_absent [of c rid evs' api] by blast
  have f: "pendingRequests s (requestId p) = None \<longrightarrow> forwardChunk fromId p s = s"
    by (simp add: forwardChunk_absent)
  have h: "listeners c (requestId p) = None \<longrightarrow> handleEvent p c = c"
    by (simp add: handleEvent_absent)
  show ?thesis using a b t k r f h by (intro conjI)
qed

text \<open>
  Claim C3, at a concrete input: after done, a second done and an error for the same
  identifier change nothing, and after cancel a late chunk invokes nothing.
\<close>

theorem one_terminal_delivery_witness:
  "length (filter terminalCall (invokedFor ''r1''
     (clientRun True
        [SetListener ''r1'' \<lparr>onUpdate = Some (1::nat), onError = Some (2::nat)\<rparr>,
         Event (chunkPayload ''r1'' (ascii ''Hi'') False),
         Event (chunkPayload ''r1'' (ascii ''Hi'') True),
         Event (chunkPayload ''r1'' (ascii ''late'') True),
         Event \<lparr>requestId = ''r1'', content = None, done_ev = Some True, error = Some ''late error''\<rparr>]
        client_init))) = 1
   \<and> invokedFor ''r1''
       (clientRun True [Event (chunkPayload ''r1'' (ascii ''late'') False)]
          (clientCancel True ''r1''
             (setListener ''r1'' \<lparr>onUpdate = Some (1::nat), onError = Some (2::nat)\<rparr> client_init))) = []"
proof -
  let ?cb = "\<lparr>onUpdate = Some (1::nat), onError = Some (2::nat)\<rparr>"
  let ?evs = "[SetListener ''r1'' ?cb,
         Event (chunkPayload ''r1'' (ascii ''Hi'') False),
         Event (chunkPayload ''r1'' (ascii ''Hi'') True),
         Event (chunkPayload ''r1'' (ascii ''late'') True),
         Event \<lparr>requestId = ''r1'', content = None, done_ev = Some True, error = Some ''late error''\<rparr>]"
  let ?c = "clientCancel True ''r1'' (setListener ''r1'' ?cb client_init)"
  have once: "length (filter (registers ''r1'') ?evs) \<le> 1"
    by (simp add: registers_def)
  have gone: "listeners ?c ''r1'' = None"
    by (simp add: clientCancel_def setListener_def client_init_def)
  have none: "\<forall>ev \<in> set [Event (chunkPayload ''r1'' (ascii ''late'') False)]. \<not> registers ''r1'' ev"
    by (simp add: registers_def)
  have start: "invokedFor ''r1'' ?c = []"
    by (simp add: invokedFor_def clientCancel_def setListener_def client_init_def)
  have some: "1 \<le> length (filter terminalCall (invokedFor ''r1'' (clientRun True ?evs client_init)))"
    by (simp add: invokedFor_def clientStep_def setListener_def client_init_def handleEvent_def
          invoke_def chunkPayload_def truthyBool_def truthyString_def)
  note T = one_terminal_delivery_then_silence
         [where rid = "''r1''" and evs = ?evs and api = True and c = ?c
            and evs' = "[Event (chunkPayload ''r1'' (ascii ''late'') False)]"]
  from T once have "length (filter terminalCall (invokedFor ''r1'' (clientRun True ?evs client_init))) \<le> 1"
    by blast
  then have one: "length (filter terminalCall (invokedFor ''r1'' (clientRun True ?evs client_init))) = 1"
    using some by (rule le_antisym)
  from T gone none have "invokedFor ''r1'' (clientRun True [Event (chunkPayload ''r1'' (ascii ''late'') False)] ?c)
      = invokedFor ''r1'' ?c"
    by blast
  with start have "invokedFor ''r1'' (clientRun True [Event (chunkPayload ''r1'' (ascii ''late'') False)] ?c) = []"
    by metis
  with one show ?thesis by (rule conjI)
qed

subsection \<open>Routing by the event's own identifier\<close>

lemma forwarded_forwardChunk:
  "forwarded s (forwardChunk fromId p s) =
     (case pendingRequests s (requestId p) of
        None \<Rightarrow> []
      | Some req \<Rightarrow> (case fromId (senderId req) of
                       None \<Rightarrow> []
                     | Some target \<Rightarrow> if wcDestroyed target then [] else [(senderId req, p)]))"
  by (simp add: forwarded_def toCallers_forwardChunk)

lemma delivered_handleEvent:
  "delivered c (handleEvent p c) =
     (case listeners c (requestId p) of
        None \<Rightarrow> []
      | Some cb \<Rightarrow>
          if truthyString (error p)
          then (case onError cb of Some f \<Rightarrow> [(requestId p, OnError f (case error p of Some msg \<Rightarrow> msg | None \<Rightarrow> []))]
                | None \<Rightarrow> [])
          else (case content p of
                  Some text \<Rightarrow> (case onUpdate cb of
                                  Some f \<Rightarrow> [(requestId p, OnUpdate f text (truthyBool (done_ev p)))]
                                | None \<Rightarrow> [])
                | None \<Rightarrow> []))"
proof (cases "listeners c (requestId p)")
  case None
  then show ?thesis by (simp add: delivered_def handleEvent_absent)
next
  case (Some cb)
  then show ?thesis by (simp add: delivered_def handleEvent_present(1) [OF Some])
qed

text \<open>
  Claim C4. Whatever \<^verbatim>\<open>forwardChunk\<close> sends for a payload goes to the \<^verbatim>\<open>senderId\<close> stored
  under that payload's own \<^verbatim>\<open>requestId\<close>, and is that payload. Whatever \<^verbatim>\<open>handleEvent\<close>
  invokes for a payload is a callback of the pair stored under that payload's own
  \<^verbatim>\<open>requestId\<close>. For any other identifier \<open>B\<close>, the pending-request record, the listener
  and the invocations made for \<open>B\<close> stay as they were.
\<close>

theorem no_cross_delivery:
  "(\<forall>x \<in> set (forwarded s (forwardChunk fromId p s)).
      \<exists>req. pendingRequests s (requestId p) = Some req \<and> x = (senderId req, p))
   \<and> (\<forall>x \<in> set (delivered c (handleEvent p c)).
        \<exists>cb. listeners c (requestId p) = Some cb \<and> fst x = requestId p \<and> callbackOf cb (snd x))
   \<and> (B \<noteq> requestId p \<longrightarrow>
        pendingRequests (forwardChunk fromId p s) B = pendingRequests s B
        \<and> listeners (handleEvent p c) B = listeners c B
        \<and> invokedFor B (handleEvent p c) = invokedFor B c)"
proof -
  have b: "\<forall>x \<in> set (forwarded s (forwardChunk fromId p s)).
      \<exists>req. pendingRequests s (requestId p) = Some req \<and> x = (senderId req, p)"
  proof (cases "pendingRequests s (requestId p)")
    case None
    then show ?thesis by (simp add: forwarded_forwardChunk)
  next
    case (Some req)
    then show ?thesis by (auto simp: forwarded_forwardChunk split: option.splits if_splits)
  qed
  have f: "\<forall>x \<in> set (delivered c (handleEvent p c)).
        \<exists>cb. listeners c (requestId p) = Some cb \<and> fst x = requestId p \<and> callbackOf cb (snd x)"
  proof (cases "listeners c (requestId p)")
    case None
    then show ?thesis by (simp add: delivered_handleEvent)
  next
    case (Some cb)
    then show ?thesis by (auto simp: delivered_handleEvent split: option.splits if_splits)
  qed
  have o: "B \<noteq> requestId p \<longrightarrow>
        pendingRequests (forwardChunk fromId p s) B = pendingRequests s B
        \<and> listeners (handleEvent p c) B = listeners c B
        \<and> invokedFor B (handleEvent p c) = invokedFor B c"
    by (simp add: pendingRequests_forwardChunk_other handleEvent_other invokedFor_handleEvent_other)
  show ?thesis using b f o by (intro conjI)
qed

text \<open>
  Claim C4, at a concrete input: with A and B both in flight, a chunk for A goes to A's
  caller and A's \<^verbatim>\<open>onUpdate\<close>, and a done event for A leaves B's listener in place.
\<close>

theorem no_cross_delivery_witness:
  "forwarded (broker_init\<lparr>pendingRequests := [''A'' \<mapsto> \<lparr>senderId = 1\<rparr>, ''B'' \<mapsto> \<lparr>senderId = 2\<rparr>]\<rparr>)
     (forwardChunk (\<lambda>_. Some (WebContents False)) (chunkPayload ''A'' (ascii ''Hi'') False)
        (broker_init\<lparr>pendingRequests := [''A'' \<mapsto> \<lparr>senderId = 1\<rparr>, ''B'' \<mapsto> \<lparr>senderId = 2\<rparr>]\<rparr>))
     = [(1, chunkPayload ''A'' (ascii ''Hi'') False)]
   \<and> delivered
       (setListener ''B'' \<lparr>onUpdate = Some (3::nat), onError = Some (4::nat)\<rparr>
          (setListener ''A'' \<lparr>onUpdate = Some 1, onError = Some 2\<rparr> client_init))
       (handleEvent (chunkPayload ''A'' (ascii ''Hi'') False)
          (setListener ''B'' \<lparr>onUpdate = Some 3, onError = Some 4\<rparr>
             (setListener ''A'' \<lparr>onUpdate = Some 1, onError = Some 2\<rparr> client_init)))
     = [(''A'', OnUpdate 1 (ascii ''Hi'') False)]
   \<and> listeners
       (handleEvent (chunkPayload ''A'' (ascii ''Hi'') True)
          (setListener ''B'' \<lparr>onUpdate = Some (3::nat), onError = Some (4::nat)\<rparr>
             (setListener ''A'' \<lparr>onUpdate = Some 1, onError = Some 2\<rparr> client_init))) ''B''
     = Some \<lparr>onUpdate = Some 3, onError = Some 4\<rparr>"
proof -
  let ?s = "broker_init\<lparr>pendingRequests := [''A'' \<mapsto> \<lparr>senderId = 1\<rparr>, ''B'' \<mapsto> \<lparr>senderId = 2\<rparr>]\<rparr>"
  let ?c = "setListener ''B'' \<lparr>onUpdate = Some (3::nat), onError = Some (4::nat)\<rparr>
             (setListener ''A'' \<lparr>onUpdate = Some 1, onError = Some 2\<rparr> client_init)"
  have ids: "''B'' \<noteq> requestId (chunkPayload ''A'' (ascii ''Hi'') True)"
    by (simp add: chunkPayload_def)
  have before: "listeners ?c ''B'' = Some \<lparr>onUpdate = Some 3, onError = Some 4\<rparr>"
    by (simp add: setListener_def)
  from no_cross_delivery [where p = "chunkPayload ''A'' (ascii ''Hi'') True" and B = "''B''" and c = ?c] ids
  have "listeners (handleEvent (chunkPayload ''A'' (ascii ''Hi'') True) ?c) ''B'' = listeners ?c ''B''"
    by blast
  with before have kept: "listeners (handleEvent (chunkPayload ''A'' (ascii ''Hi'') True) ?c) ''B''
      = Some \<lparr>onUpdate = Some 3, onError = Some 4\<rparr>"
    by simp
  have fw: "forwarded ?s (forwardChunk (\<lambda>_. Some (WebContents False)) (chunkPayload ''A'' (ascii ''Hi'') False) ?s)
      = [(1, chunkPayload ''A'' (ascii ''Hi'') False)]"
    by (simp add: forwarded_forwardChunk chunkPayload_def)
  have dl: "delivered ?c (handleEvent (chunkPayload ''A'' (ascii ''Hi'') False) ?c) = [(''A'', OnUpdate 1 (ascii ''Hi'') False)]"
    by (simp add: delivered_handleEvent chunkPayload_def setListener_def truthyString_def truthyBool_def)
  from fw dl kept show ?thesis by (intro conjI)
qed

section \<open>Cancellation\<close>

lemma cleanupRequest_removes [simp]: "ACTIVE_REQUESTS (cleanupRequest rid \<sigma>) rid = None"
  by (simp add: cleanupRequest_def Let_def split: option.splits)

lemma cleanupRequest_unknown: "ACTIVE_REQUESTS \<sigma> rid = None \<Longrightarrow> cleanupRequest rid \<sigma> = \<sigma>"
  by (simp add: cleanupRequest_def)

lemma dom_log_cleanupRequest [simp]: "dom_log (cleanupRequest rid \<sigma>) = dom_log \<sigma>"
  by (simp add: cleanupRequest_def Let_def split: option.splits)

lemma cleanupRequest_polling:
  "polling \<sigma> h rid a \<Longrightarrow> intervals (cleanupRequest rid \<sigma>) h = None"
  by (simp add: polling_def cleanupRequest_def Let_def)

text \<open>
  What the three cancel functions do in their one step. They are total: none has a
  throw on its path. For an identifier that is not the empty string (the guard
  \<^verbatim>\<open>if (!requestId) return\<close> of both \<^verbatim>\<open>cancel\<close> methods), the Facade's cancel removes the
  listener and the Broker's cancel removes the pending-request record, in the same
  step. Neither invokes a callback nor forwards anything to a caller. For an
  identifier with no listener or no pending record the maps stay as they are, and
  other identifiers are never touched. The Facade calls \<^verbatim>\<open>window.api.webModel.cancel\<close>
  with the identifier if the API is there, and the Broker sends the cancel message down
  if it has a window. The Observer's \<^verbatim>\<open>cancelRequest\<close> sends nothing upstream, clicks
  the stop button if there is one, removes the entry of \<open>ACTIVE_REQUESTS\<close> and clears the
  timer of a polling request; for an identifier with no entry it leaves
  \<open>ACTIVE_REQUESTS\<close> and the timers as they are.
\<close>

theorem cancel_removes_without_event:
  "(rid \<noteq> [] \<longrightarrow> listeners (clientCancel api rid c) rid = None
                   \<and> pendingRequests (cancel rid s) rid = None)
   \<and> invoked (clientCancel api rid c) = invoked c
   \<and> toCallers (cancel rid s) = toCallers s
   \<and> (listeners c rid = None \<longrightarrow> listeners (clientCancel api rid c) = listeners c)
   \<and> (pendingRequests s rid = None \<longrightarrow> pendingRequests (cancel rid s) = pendingRequests s)
   \<and> (rid' \<noteq> rid \<longrightarrow> listeners (clientCancel api rid c) rid' = listeners c rid'
                      \<and> pendingRequests (cancel rid s) rid' = pendingRequests s rid')
   \<and> toObserver (cancel rid s)
       = toObserver s @ (case window s of
                           Some w \<Rightarrow> if rid = [] then [] else [(wid w, WebModelCancel rid)]
                         | None \<Rightarrow> [])
   \<and> sent (cancelRequest rid pg \<sigma>) = sent \<sigma>
   \<and> ACTIVE_REQUESTS (cancelRequest rid pg \<sigma>) rid = None
   \<and> dom_log (cancelRequest rid pg \<sigma>)
       = dom_log \<sigma> @ (if findStopButton pg = None then [] else [ClickStop])
   \<and> (polling \<sigma> h rid a \<longrightarrow> intervals (cancelRequest rid pg \<sigma>) h = None)
   \<and> (ACTIVE_REQUESTS \<sigma> rid = None \<longrightarrow>
        ACTIVE_REQUESTS (cancelRequest rid pg \<sigma>) = ACTIVE_REQUESTS \<sigma>
        \<and> intervals (cancelRequest rid pg \<sigma>) = intervals \<sigma>)
   \<and> apiCancel (clientCancel api rid c) = apiCancel c @ (if api \<and> rid \<noteq> [] then [rid] else [])"
proof -
  have 1: "rid \<noteq> [] \<longrightarrow> listeners (clientCancel api rid c) rid = None
                   \<and> pendingRequests (cancel rid s) rid = None"
    by (simp add: clientCancel_def cancel_def Let_def split: option.splits)
  have 2: "invoked (clientCancel api rid c) = invoked c"
    by (simp add: clientCancel_def Let_def)
  have 3: "toCallers (cancel rid s) = toCallers s"
    by (simp add: cancel_def Let_def split: option.splits)
  have 4: "listeners c rid = None \<longrightarrow> listeners (clientCancel api rid c) = listeners c"
    by (auto simp: clientCancel_def Let_def)
  have 5: "pendingRequests s rid = None \<longrightarrow> pendingRequests (cancel rid s) = pendingRequests s"
    by (auto simp: cancel_def Let_def split: option.splits)
  have 6: "rid' \<noteq> rid \<longrightarrow> listeners (clientCancel api rid c) rid' = listeners c rid'
                      \<and> pendingRequests (cancel rid s) rid' = pendingRequests s rid'"
    by (simp add: clientCancel_def cancel_def Let_def split: option.splits)
  have 7: "toObserver (cancel rid s)
       = toObserver s @ (case window s of
                           Some w \<Rightarrow> if rid = [] then [] else [(wid w, WebModelCancel rid)]
                         | None \<Rightarrow> [])"
    by (simp add: cancel_def Let_def split: option.splits)
  have 8: "sent (cancelRequest rid pg \<sigma>) = sent \<sigma>"
    by (simp add: cancelRequest_def split: option.splits)
  have 9: "ACTIVE_REQUESTS (cancelRequest rid pg \<sigma>) rid = None"
    by (simp add: cancelRequest_def)
  have 10: "dom_log (cancelRequest rid pg \<sigma>)
       = dom_log \<sigma> @ (if findStopButton pg = None then [] else [ClickStop])"
    by (simp add: cancelRequest_def act_def split: option.splits)
  have 11: "polling \<sigma> h rid a \<longrightarrow> intervals (cancelRequest rid pg \<sigma>) h = None"
  proof
    assume p: "polling \<sigma> h rid a"
    then have "polling (act ClickStop \<sigma>) h rid a" by (simp add: polling_def act_def)
    with p show "intervals (cancelRequest rid pg \<sigma>) h = None"
      by (simp add: cancelRequest_def cleanupRequest_polling split: option.splits)
  qed
  have 12: "ACTIVE_REQUESTS \<sigma> rid = None \<longrightarrow>
        ACTIVE_REQUESTS (cancelRequest rid pg \<sigma>) = ACTIVE_REQUESTS \<sigma>
        \<and> intervals (cancelRequest rid pg \<sigma>) = intervals \<sigma>"
    by (simp add: cancelRequest_def cleanupRequest_def act_def split: option.splits)
  have 13: "apiCancel (clientCancel api rid c) = apiCancel c @ (if api \<and> rid \<noteq> [] then [rid] else [])"
    by (simp add: clientCancel_def Let_def)
  show ?thesis using 1 2 3 4 5 6 7 8 9 10 11 12 13 by (intro conjI)
qed

text \<open>At a concrete input: a request in flight is cancelled in all three places.\<close>

theorem cancel_witness:
  "listeners (clientCancel True ''r1''
     (setListener ''r1'' \<lparr>onUpdate = Some (1::nat), onError = Some (2::nat)\<rparr> client_init)) ''r1'' = None
   \<and> pendingRequests (cancel ''r1'' (broker_init\<lparr>pendingRequests := [''r1'' \<mapsto> \<lparr>senderId = 7\<rparr>]\<rparr>)) ''r1'' = None
   \<and> intervals (cancelRequest ''r1'' (examplePage [ascii ''Hi''] True) (startPolling ''r1'' observer_init)) 0 = None
   \<and> sent (cancelRequest ''r1'' (examplePage [ascii ''Hi''] True) (startPolling ''r1'' observer_init)) = []
   \<and> dom_log (cancelRequest ''r1'' (examplePage [ascii ''Hi''] True) (startPolling ''r1'' observer_init)) = [ClickStop]
   \<and> pendingRequests (cancel ''unknown'' broker_init) = Map.empty"
proof -
  let ?c = "setListener ''r1'' \<lparr>onUpdate = Some (1::nat), onError = Some (2::nat)\<rparr> client_init"
  let ?s = "broker_init\<lparr>pendingRequests := [''r1'' \<mapsto> \<lparr>senderId = 7\<rparr>]\<rparr>"
  let ?\<sigma> = "startPolling ''r1'' observer_init"
  let ?pg = "examplePage [ascii ''Hi''] True"
  note T = cancel_removes_without_event
    [where rid = "''r1''" and api = True and c = ?c and s = ?s and \<sigma> = ?\<sigma> and pg = ?pg and h = 0 and a = 0]
  note U = cancel_removes_without_event [where rid = "''unknown''" and s = broker_init]
  have ne: "''r1'' \<noteq> []" by simp
  have pol: "polling ?\<sigma> 0 ''r1'' 0"
    using polling_startPolling [of "''r1''" observer_init] by (simp add: observer_init_def)
  have s0: "sent ?\<sigma> = []" by (simp add: observer_init_def)
  have d0: "dom_log ?\<sigma> = []" by (simp add: observer_init_def startPolling_def Let_def)
  have st: "findStopButton ?pg \<noteq> None" by simp
  have un: "pendingRequests broker_init ''unknown'' = None" by (simp add: broker_init_def)
  have em: "pendingRequests broker_init = Map.empty" by (simp add: broker_init_def)
  from T ne have a: "listeners (clientCancel True ''r1'' ?c) ''r1'' = None"
    and b: "pendingRequests (cancel ''r1'' ?s) ''r1'' = None" by blast+
  from T pol have c: "intervals (cancelRequest ''r1'' ?pg ?\<sigma>) 0 = None" by blast
  from T s0 have d: "sent (cancelRequest ''r1'' ?pg ?\<sigma>) = []" by metis
  from T d0 st have e: "dom_log (cancelRequest ''r1'' ?pg ?\<sigma>) = [ClickStop]" by simp
  from U un em have f: "pendingRequests (cancel ''unknown'' broker_init) = Map.empty" by metis
  from a b c d e f show ?thesis by (intro conjI)
qed

text \<open>
  Claim C8, where the code departs from it. A request whose prompt listener still waits
  for the input area has no entry in \<open>ACTIVE_REQUESTS\<close> yet: \<^verbatim>\<open>startPolling\<close> makes it
  only after the send button has been clicked. A cancel message that comes then finds
  nothing to discard (\<^verbatim>\<open>cleanupRequest\<close> returns at once) and leaves no trace of
  the cancellation, so the request is not stopped: when the input area and the send
  button are found, the listener types the prompt, clicks send and starts polling under
  the cancelled identifier, and the first tick that reads a text sends a chunk event for
  it.
\<close>

theorem cancel_while_submitting_does_not_stop:
  assumes "ACTIVE_REQUESTS \<sigma> rid = None"
    and "waitForSelector INPUT_SELECTORS 15000 start checks = Resolved (textarea, pg')"
    and "findSendButton pg' textarea = Some sendButton"
    and "getLatestAssistantContent pg2 \<noteq> []"
  shows "let \<sigma>1 = observerRun [OnCancel rid pg] \<sigma>;
             \<sigma>2 = observerRun [OnCancel rid pg, OnPrompt rid prompt start checks] \<sigma>;
             \<sigma>3 = observerRun [OnCancel rid pg, OnPrompt rid prompt start checks,
                                Tick (fresh \<sigma>) pg2 nowEmit nowCheck] \<sigma>
         in ACTIVE_REQUESTS \<sigma>1 = ACTIVE_REQUESTS \<sigma> \<and> intervals \<sigma>1 = intervals \<sigma>
            \<and> heap \<sigma>1 = heap \<sigma> \<and> sent \<sigma>1 = sent \<sigma>
            \<and> polling \<sigma>2 (fresh \<sigma>) rid (fresh \<sigma>)
            \<and> dom_log \<sigma>2
                = dom_log \<sigma> @ (if findStopButton pg = None then [] else [ClickStop])
                  @ [Focus, SetNativeValue prompt, ClickSend]
            \<and> sent \<sigma>2 = sent \<sigma>
            \<and> hd (emitted \<sigma> \<sigma>3)
                = WebModelChunk \<lparr>requestId = rid, content = Some (getLatestAssistantContent pg2),
                                 done_ev = Some False, error = None\<rparr>"
proof -
  let ?\<sigma>1 = "cancelRequest rid pg \<sigma>"
  let ?\<tau> = "act ClickSend (act (SetNativeValue prompt) (act Focus ?\<sigma>1))"
  let ?\<sigma>2 = "startPolling rid ?\<tau>"
  let ?\<sigma>3 = "pollTick (fresh \<sigma>) pg2 nowEmit nowCheck ?\<sigma>2"
  have c: "?\<sigma>1 = (case findStopButton pg of Some b \<Rightarrow> act ClickStop \<sigma> | None \<Rightarrow> \<sigma>)"
    using assms(1) by (simp add: cancelRequest_def cleanupRequest_unknown act_def split: option.splits)
  have f: "fresh ?\<sigma>1 = fresh \<sigma>" unfolding c by (simp add: act_def split: option.splits)
  have f': "fresh ?\<tau> = fresh \<sigma>"
    using f by (simp add: act_def)
  have 1: "ACTIVE_REQUESTS ?\<sigma>1 = ACTIVE_REQUESTS \<sigma>" "intervals ?\<sigma>1 = intervals \<sigma>"
    "heap ?\<sigma>1 = heap \<sigma>" "sent ?\<sigma>1 = sent \<sigma>"
    unfolding c by (simp_all add: act_def split: option.splits)
  have on: "onPrompt rid prompt start checks ?\<sigma>1 = Some ?\<sigma>2"
    using assms(2,3) by (simp add: onPrompt_def submitPrompt_def Let_def)
  have 2: "polling ?\<sigma>2 (fresh \<sigma>) rid (fresh \<sigma>)"
    using polling_startPolling [of rid ?\<tau>] unfolding f' .
  have 3: "dom_log ?\<sigma>2 = dom_log \<sigma> @ (if findStopButton pg = None then [] else [ClickStop])
                  @ [Focus, SetNativeValue prompt, ClickSend]"
    unfolding c by (simp add: startPolling_def Let_def act_def split: option.splits)
  have 4: "sent ?\<sigma>2 = sent \<sigma>"
    using 1(4) by simp
  have lc: "lastContent (heap ?\<sigma>2 (fresh \<sigma>)) = []"
    using f' by (simp add: startPolling_def Let_def)
  have ch: "changed ?\<sigma>2 (fresh \<sigma>) pg2"
    using assms(4) by (simp add: changed_def lc)
  have "sent ?\<sigma>3 = sent ?\<sigma>2
      @ WebModelChunk \<lparr>requestId = rid, content = Some (getLatestAssistantContent pg2),
                       done_ev = Some False, error = None\<rparr>
        # (if \<not> done_st (heap ?\<sigma>2 (fresh \<sigma>)) \<and> findStopButton pg2 = None
               \<and> 0 < lastEmit (heap (pollBody rid (fresh \<sigma>) pg2 nowEmit nowCheck ?\<sigma>2) (fresh \<sigma>))
               \<and> 1500 < nowCheck - lastEmit (heap (pollBody rid (fresh \<sigma>) pg2 nowEmit nowCheck ?\<sigma>2) (fresh \<sigma>))
           then [chunk rid (lastContent (heap (pollBody rid (fresh \<sigma>) pg2 nowEmit nowCheck ?\<sigma>2) (fresh \<sigma>))) True]
           else [])"
    unfolding pollTick_polling [OF 2] sent_pollBody using ch by (simp add: chunk_def chunkPayload_def)
  then have 5: "hd (emitted \<sigma> ?\<sigma>3)
      = WebModelChunk \<lparr>requestId = rid, content = Some (getLatestAssistantContent pg2),
                       done_ev = Some False, error = None\<rparr>"
    unfolding 4 by (simp add: emitted_def)
  have r1: "observerRun [OnCancel rid pg] \<sigma> = ?\<sigma>1"
    by (simp add: observerStep_def)
  have r2: "observerRun [OnCancel rid pg, OnPrompt rid prompt start checks] \<sigma> = ?\<sigma>2"
    by (simp add: observerStep_def on)
  have r3: "observerRun [OnCancel rid pg, OnPrompt rid prompt start checks,
                          Tick (fresh \<sigma>) pg2 nowEmit nowCheck] \<sigma> = ?\<sigma>3"
    by (simp add: observerStep_def on)
  show ?thesis
    unfolding Let_def r1 r2 r3 using 1 2 3 4 5 by (intro conjI)
qed

text \<open>
  Claim C8, at a concrete input: the cancel comes first, the input area appears at the
  second check; the prompt is typed and sent, the request polls, and a chunk and a done
  event are sent for the cancelled identifier.
\<close>

theorem cancel_while_submitting_witness:
  "sentFor ''r1''
     (observerRun [OnCancel ''r1'' (examplePage [] False),
                   OnPrompt ''r1'' ''Hello'' 0 [(examplePage [] False, 0), (exampleChatPage, 200)],
                   Tick 0 (examplePage [ascii ''Hi''] False) 400 400,
                   Tick 0 (examplePage [ascii ''Hi''] False) 2000 2000]
        observer_init)
     = [WebModelChunk \<lparr>requestId = ''r1'', content = Some (ascii ''Hi''), done_ev = Some False, error = None\<rparr>,
        WebModelChunk \<lparr>requestId = ''r1'', content = Some (ascii ''Hi''), done_ev = Some True, error = None\<rparr>]
   \<and> dom_log
       (observerRun [OnCancel ''r1'' (examplePage [] False),
                     OnPrompt ''r1'' ''Hello'' 0 [(examplePage [] False, 0), (exampleChatPage, 200)]]
          observer_init)
     = [Focus, SetNativeValue ''Hello'', ClickSend]
   \<and> polling
       (observerRun [OnCancel ''r1'' (examplePage [] False),
                     OnPrompt ''r1'' ''Hello'' 0 [(examplePage [] False, 0), (exampleChatPage, 200)]]
          observer_init) 0 ''r1'' 0"
proof -
  let ?checks = "[(examplePage [] False, 0), (exampleChatPage, 200 :: int)]"
  let ?pg2 = "examplePage [ascii ''Hi''] False"
  have a: "ACTIVE_REQUESTS observer_init ''r1'' = None" by (simp add: observer_init_def)
  have w: "waitForSelector INPUT_SELECTORS 15000 0 ?checks = Resolved (Element False None, exampleChatPage)"
    by (simp add: INPUT_SELECTORS_def examplePage_def exampleChatPage_def)
  have b: "findSendButton exampleChatPage (Element False None) = Some (Element True None)"
    by (simp add: findSendButton_def SEND_BUTTON_SELECTORS_def exampleChatPage_def)
  have t: "getLatestAssistantContent ?pg2 \<noteq> []" by simp
  have fr: "fresh observer_init = 0" and d0: "dom_log observer_init = []"
    by (simp_all add: observer_init_def)
  have ns: "findStopButton (examplePage [] False) = None" by simp
  note T = cancel_while_submitting_does_not_stop
    [OF a w b t, of "examplePage [] False" "''Hello''" 400 400, unfolded Let_def fr]
  from T [THEN conjunct2, THEN conjunct2, THEN conjunct2, THEN conjunct2, THEN conjunct1]
  have pol: "polling (observerRun [OnCancel ''r1'' (examplePage [] False), OnPrompt ''r1'' ''Hello'' 0 ?checks]
      observer_init) 0 ''r1'' 0" .
  from T [THEN conjunct2, THEN conjunct2, THEN conjunct2, THEN conjunct2, THEN conjunct2, THEN conjunct1]
  have dl: "dom_log (observerRun [OnCancel ''r1'' (examplePage [] False), OnPrompt ''r1'' ''Hello'' 0 ?checks]
      observer_init) = [Focus, SetNativeValue ''Hello'', ClickSend]"
    by (simp add: d0 ns)
  have on: "onPrompt ''r1'' ''Hello'' 0 ?checks observer_init
      = Some (startPolling ''r1'' (act ClickSend (act (SetNativeValue ''Hello'') (act Focus observer_init))))"
    using w b by (simp add: onPrompt_def submitPrompt_def Let_def)
  have c1: "observerStep (OnCancel ''r1'' (examplePage [] False)) observer_init = observer_init"
    by (simp add: observerStep_def cancelRequest_def cleanupRequest_unknown [OF a])
  have p1: "observerStep (OnPrompt ''r1'' ''Hello'' 0 ?checks) observer_init
      = startPolling ''r1'' (act ClickSend (act (SetNativeValue ''Hello'') (act Focus observer_init)))"
    by (simp add: observerStep_def on)
  have sf: "sentFor ''r1''
     (observerRun [OnCancel ''r1'' (examplePage [] False), OnPrompt ''r1'' ''Hello'' 0 ?checks,
                   Tick 0 ?pg2 400 400, Tick 0 ?pg2 2000 2000] observer_init)
     = [WebModelChunk \<lparr>requestId = ''r1'', content = Some (ascii ''Hi''), done_ev = Some False, error = None\<rparr>,
        WebModelChunk \<lparr>requestId = ''r1'', content = Some (ascii ''Hi''), done_ev = Some True, error = None\<rparr>]"
    unfolding observerRun.simps c1 p1
    by (simp add: observerStep_def act_def run_simps sentFor_def tagOf_def chunk_def chunkPayload_def)
  from sf dl pol show ?thesis by (intro conjI)
qed

section \<open>Failures while submitting\<close>

lemma waitForSelector_timeout:
  assumes "\<forall>c \<in> set checks. firstMatch (fst c) selectors = None"
    and "\<exists>c \<in> set checks. timeout < snd c - start"
  shows "waitForSelector selectors timeout start checks = Rejected ''Timed out waiting for ChatGPT input area''"
  using assms
proof (induction checks)
  case Nil
  then show ?case by simp
next
  case (Cons c checks)
  obtain pg now where c: "c = (pg, now)" by (cases c)
  show ?case
  proof (cases "timeout < now - start")
    case True
    with Cons.prems(1) show ?thesis by (simp add: c)
  next
    case False
    with Cons.prems have "\<exists>c \<in> set checks. timeout < snd c - start" by (auto simp: c)
    with Cons.IH Cons.prems(1) False show ?thesis by (simp add: c)
  qed
qed

lemma waitForSelector_Rejected:
  "waitForSelector selectors timeout start checks = Rejected msg
     \<Longrightarrow> msg = ''Timed out waiting for ChatGPT input area''"
proof (induction checks)
  case Nil
  then show ?case by simp
next
  case (Cons c checks)
  obtain pg now where c: "c = (pg, now)" by (cases c)
  from Cons show ?case by (auto simp: c split: option.splits if_splits)
qed

lemma submitPrompt_throws:
  assumes "submitPrompt rid prompt start checks \<sigma> = Some (Inl (e, \<sigma>1))"
  shows "(e = JsError ''Timed out waiting for ChatGPT input area''
          \<or> e = JsError ''Unable to locate ChatGPT send button. Please make sure you are signed in.'')
         \<and> sent \<sigma>1 = sent \<sigma> \<and> ACTIVE_REQUESTS \<sigma>1 = ACTIVE_REQUESTS \<sigma>"
  using assms
  by (auto simp: submitPrompt_def Let_def act_def
           split: promise.splits prod.splits option.splits dest: waitForSelector_Rejected)

text \<open>
  Claim C9. Whenever \<^verbatim>\<open>submitPrompt\<close> throws, the prompt listener finishes (it returns a
  state: the exception does not escape), what it sent is exactly one message, on the
  channel \<^verbatim>\<open>'web-model:error'\<close>, with \<^verbatim>\<open>requestId\<close> the request's identifier and \<^verbatim>\<open>error\<close>
  the non-empty message of the error that was thrown, and the identifier has no entry in
  \<open>ACTIVE_REQUESTS\<close> afterwards.
  \<^verbatim>\<open>submitPrompt\<close> throws the timeout error when no check finds an input element and one
  check comes more than 15000 ms after the start; it throws the send-button error
  when the input element is found and \<^verbatim>\<open>findSendButton\<close> finds nothing. The listener
  is unfinished only as long as \<^verbatim>\<open>waitForSelector\<close> is pending.
\<close>

theorem submission_failure_becomes_one_error_event:
  "(submitPrompt rid prompt start checks \<sigma> = Some (Inl (e, \<tau>)) \<longrightarrow>
      (\<exists>msg \<sigma>'. e = JsError msg \<and> msg \<noteq> []
         \<and> onPrompt rid prompt start checks \<sigma> = Some \<sigma>'
         \<and> emitted \<sigma> \<sigma>' = [WebModelError \<lparr>requestId = rid, content = None, done_ev = None, error = Some msg\<rparr>]
         \<and> ACTIVE_REQUESTS \<sigma>' rid = None))
   \<and> ((\<forall>c \<in> set checks. firstMatch (fst c) INPUT_SELECTORS = None)
        \<and> (\<exists>c \<in> set checks. 15000 < snd c - start) \<longrightarrow>
        submitPrompt rid prompt start checks \<sigma>
          = Some (Inl (JsError ''Timed out waiting for ChatGPT input area'', \<sigma>)))
   \<and> (waitForSelector INPUT_SELECTORS 15000 start checks = Resolved (textarea, pg)
        \<and> findSendButton pg textarea = None \<longrightarrow>
        submitPrompt rid prompt start checks \<sigma>
          = Some (Inl (JsError ''Unable to locate ChatGPT send button. Please make sure you are signed in.'',
                       act (SetNativeValue prompt) (act Focus \<sigma>))))
   \<and> ((onPrompt rid prompt start checks \<sigma> = None)
        = (waitForSelector INPUT_SELECTORS 15000 start checks = Pending))"
proof -
  have 1: "submitPrompt rid prompt start checks \<sigma> = Some (Inl (e, \<tau>)) \<longrightarrow>
      (\<exists>msg \<sigma>'. e = JsError msg \<and> msg \<noteq> []
         \<and> onPrompt rid prompt start checks \<sigma> = Some \<sigma>'
         \<and> emitted \<sigma> \<sigma>' = [WebModelError \<lparr>requestId = rid, content = None, done_ev = None, error = Some msg\<rparr>]
         \<and> ACTIVE_REQUESTS \<sigma>' rid = None)"
  proof
    assume th: "submitPrompt rid prompt start checks \<sigma> = Some (Inl (e, \<tau>))"
    from submitPrompt_throws [OF th] obtain msg where e: "e = JsError msg" and ne: "msg \<noteq> []"
      and s1: "sent \<tau> = sent \<sigma>" by auto
    let ?\<sigma>' = "ipcRenderer_send (errorEvent rid msg) (cleanupRequest rid \<tau>)"
    have "onPrompt rid prompt start checks \<sigma> = Some ?\<sigma>'"
      by (simp add: onPrompt_def th e errorEvent_def)
    moreover have "emitted \<sigma> ?\<sigma>' = [WebModelError \<lparr>requestId = rid, content = None, done_ev = None, error = Some msg\<rparr>]"
      by (simp add: emitted_def ipcRenderer_send_def s1 errorEvent_def)
    moreover have "ACTIVE_REQUESTS ?\<sigma>' rid = None"
      by (simp add: ipcRenderer_send_def)
    ultimately show "\<exists>msg \<sigma>'. e = JsError msg \<and> msg \<noteq> []
         \<and> onPrompt rid prompt start checks \<sigma> = Some \<sigma>'
         \<and> emitted \<sigma> \<sigma>' = [WebModelError \<lparr>requestId = rid, content = None, done_ev = None, error = Some msg\<rparr>]
         \<and> ACTIVE_REQUESTS \<sigma>' rid = None"
      using e ne by blast
  qed
  have 2: "(\<forall>c \<in> set checks. firstMatch (fst c) INPUT_SELECTORS = None)
        \<and> (\<exists>c \<in> set checks. 15000 < snd c - start) \<longrightarrow>
        submitPrompt rid prompt start checks \<sigma>
          = Some (Inl (JsError ''Timed out waiting for ChatGPT input area'', \<sigma>))"
    by (auto simp: submitPrompt_def waitForSelector_timeout)
  have 3: "waitForSelector INPUT_SELECTORS 15000 start checks = Resolved (textarea, pg)
        \<and> findSendButton pg textarea = None \<longrightarrow>
        submitPrompt rid prompt start checks \<sigma>
          = Some (Inl (JsError ''Unable to locate ChatGPT send button. Please make sure you are signed in.'',
                       act (SetNativeValue prompt) (act Focus \<sigma>)))"
    by (simp add: submitPrompt_def Let_def)
  have 4: "(onPrompt rid prompt start checks \<sigma> = None)
        = (waitForSelector INPUT_SELECTORS 15000 start checks = Pending)"
    by (simp add: onPrompt_def submitPrompt_def Let_def
          split: promise.splits prod.splits option.splits sum.splits)
  show ?thesis using 1 2 3 4 by (intro conjI)
qed

text \<open>
  Claim C9, at a concrete input: no input element at 0, 200 and 15201 ms gives one
  timeout error event.
\<close>

theorem submission_failure_witness:
  "submitPrompt ''r1'' ''Hello'' 0
     [(examplePage [] False, 0), (examplePage [] False, 200), (examplePage [] False, 15201)] observer_init
     = Some (Inl (JsError ''Timed out waiting for ChatGPT input area'', observer_init))
   \<and> (\<exists>\<sigma>'. onPrompt ''r1'' ''Hello'' 0
              [(examplePage [] False, 0), (examplePage [] False, 200), (examplePage [] False, 15201)]
              observer_init = Some \<sigma>'
            \<and> emitted observer_init \<sigma>' = [WebModelError \<lparr>requestId = ''r1'', content = None, done_ev = None,
                                              error = Some ''Timed out waiting for ChatGPT input area''\<rparr>]
            \<and> ACTIVE_REQUESTS \<sigma>' ''r1'' = None)"
proof -
  let ?checks = "[(examplePage [] False, 0), (examplePage [] False, 200), (examplePage [] False, 15201 :: int)]"
  note T = submission_failure_becomes_one_error_event
    [where rid = "''r1''" and prompt = "''Hello''" and start = 0 and checks = ?checks
       and \<sigma> = observer_init and e = "JsError ''Timed out waiting for ChatGPT input area''"
       and \<tau> = observer_init]
  have none: "\<forall>c \<in> set ?checks. firstMatch (fst c) INPUT_SELECTORS = None"
    by (simp add: INPUT_SELECTORS_def examplePage_def)
  have late: "\<exists>c \<in> set ?checks. 15000 < snd c - 0" by simp
  from T none late have sp: "submitPrompt ''r1'' ''Hello'' 0 ?checks observer_init
      = Some (Inl (JsError ''Timed out waiting for ChatGPT input area'', observer_init))"
    by blast
  with T have "\<exists>msg \<sigma>'. JsError ''Timed out waiting for ChatGPT input area'' = JsError msg \<and> msg \<noteq> []
         \<and> onPrompt ''r1'' ''Hello'' 0 ?checks observer_init = Some \<sigma>'
         \<and> emitted observer_init \<sigma>' = [WebModelError \<lparr>requestId = ''r1'', content = None, done_ev = None, error = Some msg\<rparr>]
         \<and> ACTIVE_REQUESTS \<sigma>' ''r1'' = None"
    by blast
  then have "\<exists>\<sigma>'. onPrompt ''r1'' ''Hello'' 0 ?checks observer_init = Some \<sigma>'
            \<and> emitted observer_init \<sigma>' = [WebModelError \<lparr>requestId = ''r1'', content = None, done_ev = None,
                                              error = Some ''Timed out waiting for ChatGPT input area''\<rparr>]
            \<and> ACTIVE_REQUESTS \<sigma>' ''r1'' = None"
    by auto
  with sp show ?thesis by (rule conjI)
qed

section \<open>Error events at the Broker\<close>

lemma forwardChunk_forwards:
  assumes "pendingRequests s (requestId p) = Some req" and "fromId (senderId req) = Some (WebContents False)"
  shows "forwarded s (forwardChunk fromId p s) = [(senderId req, p)]"
  using assms by (simp add: forwarded_forwardChunk)

lemma observerStep_errors:
  "\<exists>ms. sent (observerStep ev \<sigma>) = sent \<sigma> @ ms
        \<and> (\<forall>p. WebModelError p \<in> set ms \<longrightarrow>
               (\<exists>msg. error p = Some msg \<and> msg \<noteq> []) \<and> promptFor (requestId p) ev)"
proof (cases ev)
  case (Tick h pg nowEmit nowCheck)
  show ?thesis
  proof (cases "intervals \<sigma> h")
    case None
    with Tick show ?thesis by (simp add: observerStep_def pollTick_def)
  next
    case (Some x)
    obtain r a where x: "x = (r, a)" by (cases x)
    show ?thesis
      unfolding Tick
      by (simp add: observerStep_def pollTick_def Some x sent_pollBody chunk_def)
  qed
next
  case (OnCancel r pg)
  then show ?thesis
    by (simp add: observerStep_def cancelRequest_def split: option.splits)
next
  case (OnPrompt r prompt start checks)
  show ?thesis
  proof (cases "onPrompt r prompt start checks \<sigma>")
    case None
    with OnPrompt show ?thesis by (simp add: observerStep_def)
  next
    case (Some \<sigma>')
    have "sent \<sigma>' = sent \<sigma>
        \<or> (\<exists>msg. msg \<noteq> [] \<and> sent \<sigma>' = sent \<sigma> @ [WebModelError \<lparr>requestId = r, content = None, done_ev = None, error = Some msg\<rparr>])"
      using Some
      by (auto simp: onPrompt_def submitPrompt_def Let_def errorEvent_def ipcRenderer_send_def
               split: option.splits sum.splits promise.splits prod.splits thrown.splits
               dest: waitForSelector_Rejected)
    then show ?thesis
      unfolding OnPrompt by (auto simp: observerStep_def Some promptFor_def)
  qed
qed

lemma observerRun_errors:
  "\<exists>ms. sent (observerRun evs \<sigma>) = sent \<sigma> @ ms
        \<and> (\<forall>p. WebModelError p \<in> set ms \<longrightarrow>
               (\<exists>msg. error p = Some msg \<and> msg \<noteq> []) \<and> (\<exists>ev \<in> set evs. promptFor (requestId p) ev))"
proof (induction evs arbitrary: \<sigma>)
  case Nil
  show ?case by simp
next
  case (Cons ev evs)
  from observerStep_errors [of ev \<sigma>] obtain ms where
    s1: "sent (observerStep ev \<sigma>) = sent \<sigma> @ ms"
    and e1: "\<forall>p. WebModelError p \<in> set ms \<longrightarrow>
               (\<exists>msg. error p = Some msg \<and> msg \<noteq> []) \<and> promptFor (requestId p) ev"
    by (elim exE conjE)
  from Cons.IH [of "observerStep ev \<sigma>"] obtain ms' where
    s2: "sent (observerRun evs (observerStep ev \<sigma>)) = sent (observerStep ev \<sigma>) @ ms'"
    and e2: "\<forall>p. WebModelError p \<in> set ms' \<longrightarrow>
               (\<exists>msg. error p = Some msg \<and> msg \<noteq> []) \<and> (\<exists>ev \<in> set evs. promptFor (requestId p) ev)"
    by (elim exE conjE)
  have "sent (observerRun (ev # evs) \<sigma>) = sent \<sigma> @ (ms @ ms')"
    by (simp add: s1 s2)
  moreover have "\<forall>p. WebModelError p \<in> set (ms @ ms') \<longrightarrow>
               (\<exists>msg. error p = Some msg \<and> msg \<noteq> []) \<and> (\<exists>e \<in> set (ev # evs). promptFor (requestId p) e)"
    using e1 e2 by auto
  ultimately show ?case by (intro exI [of _ "ms @ ms'"] conjI)
qed

text \<open>
  Claim C10. The Observer sends an error event from the prompt listener only, and every
  error event it sends, in any run, carries a message that is not empty (one of the two
  messages \<^verbatim>\<open>submitPrompt\<close> throws) and the identifier of a prompt of that run. Such an
  event, and any error event that comes with a non-empty message or with none, for a
  request that is pending and whose caller is alive, goes through the listener of
  \<^verbatim>\<open>'web-model:error'\<close> as follows. The Broker forwards exactly one payload to that caller: the event with
  \<^verbatim>\<open>done\<close> set to true and \<^verbatim>\<open>error\<close> set to the message it came with, or to
  \<open>Unknown error\<close> when it came with none, so the error string forwarded is not empty;
  and it removes the pending-request record. The Facade's \<^verbatim>\<open>handleEvent\<close>, given that
  payload, invokes \<^verbatim>\<open>onError\<close> of the stored listener (if it has one) with that message
  and nothing else, and removes the listener.
\<close>

theorem error_event_is_terminal:
  "(WebModelError p \<in> set (emitted \<sigma> (observerRun evs \<sigma>)) \<longrightarrow>
      (\<exists>msg. error p = Some msg \<and> msg \<noteq> []) \<and> (\<exists>ev \<in> set evs. promptFor (requestId p) ev))
   \<and> ((WebModelError p \<in> set (emitted \<sigma> (observerRun evs \<sigma>)) \<or> error p \<noteq> Some [])
        \<and> pendingRequests s (requestId p) = Some req
        \<and> fromId (senderId req) = Some (WebContents False) \<longrightarrow>
        (let msg = (case error p of Some e \<Rightarrow> e | None \<Rightarrow> ''Unknown error'');
             q = p\<lparr>error := Some msg, done_ev := Some True\<rparr>;
             s' = ipcMain_on fromId (WebModelError p) s
         in msg \<noteq> []
            \<and> forwarded s s' = [(senderId req, q)]
            \<and> pendingRequests s' (requestId p) = None
            \<and> (listeners c (requestId p) = Some cb \<longrightarrow>
                 delivered c (handleEvent q c)
                   = (case onError cb of Some f \<Rightarrow> [(requestId p, OnError f msg)] | None \<Rightarrow> [])
                 \<and> listeners (handleEvent q c) (requestId p) = None)))"
proof -
  let ?msg = "case error p of Some e \<Rightarrow> e | None \<Rightarrow> ''Unknown error''"
  let ?q = "p\<lparr>error := Some ?msg, done_ev := Some True\<rparr>"
  let ?s' = "ipcMain_on fromId (WebModelError p) s"
  have A: "WebModelError p \<in> set (emitted \<sigma> (observerRun evs \<sigma>)) \<longrightarrow>
      (\<exists>msg. error p = Some msg \<and> msg \<noteq> []) \<and> (\<exists>ev \<in> set evs. promptFor (requestId p) ev)"
  proof -
    from observerRun_errors [of evs \<sigma>] obtain ms where
      s: "sent (observerRun evs \<sigma>) = sent \<sigma> @ ms"
      and e: "\<forall>p. WebModelError p \<in> set ms \<longrightarrow>
               (\<exists>msg. error p = Some msg \<and> msg \<noteq> []) \<and> (\<exists>ev \<in> set evs. promptFor (requestId p) ev)"
      by (elim exE conjE)
    from s have "emitted \<sigma> (observerRun evs \<sigma>) = ms" by (rule emitted_append)
    with e show ?thesis by simp
  qed
  have q: "asError p = ?q" by (simp add: asError_def)
  have rq: "requestId ?q = requestId p" by simp
  have ow: "?s' = forwardChunk fromId ?q s"
    by (simp add: ipcMain_on_def onWebModelError_def q)
  have tm: "terminal ?q" by (simp add: terminal_def truthyBool_def)
  have B: "?msg \<noteq> []
            \<and> forwarded s ?s' = [(senderId req, ?q)]
            \<and> pendingRequests ?s' (requestId p) = None
            \<and> (listeners c (requestId p) = Some cb \<longrightarrow>
                 delivered c (handleEvent ?q c)
                   = (case onError cb of Some f \<Rightarrow> [(requestId p, OnError f ?msg)] | None \<Rightarrow> [])
                 \<and> listeners (handleEvent ?q c) (requestId p) = None)"
    if ne: "error p \<noteq> Some []" and pen: "pendingRequests s (requestId p) = Some req"
      and live: "fromId (senderId req) = Some (WebContents False)"
  proof -
    from ne have 1: "?msg \<noteq> []" by (cases "error p") simp_all
    have 2: "forwarded s ?s' = [(senderId req, ?q)]"
      unfolding ow using pen live by (simp add: forwarded_forwardChunk)
    have 3: "pendingRequests ?s' (requestId p) = None"
      unfolding ow using pendingRequests_forwardChunk_terminal [OF tm, of fromId s] by simp
    have 4: "listeners c (requestId p) = Some cb \<longrightarrow>
                 delivered c (handleEvent ?q c)
                   = (case onError cb of Some f \<Rightarrow> [(requestId p, OnError f ?msg)] | None \<Rightarrow> [])
                 \<and> listeners (handleEvent ?q c) (requestId p) = None"
    proof
      assume l: "listeners c (requestId p) = Some cb"
      then have l': "listeners c (requestId ?q) = Some cb" by simp
      from 1 have ts: "truthyString (error ?q)" by (simp add: truthyString_def)
      show "delivered c (handleEvent ?q c)
                   = (case onError cb of Some f \<Rightarrow> [(requestId p, OnError f ?msg)] | None \<Rightarrow> [])
                 \<and> listeners (handleEvent ?q c) (requestId p) = None"
        using ts l tm
        by (simp add: delivered_handleEvent handleEvent_present(2) [OF l'] split: option.splits)
    qed
    from 1 2 3 4 show ?thesis by (intro conjI)
  qed
  have C: "error p \<noteq> Some []"
    if "WebModelError p \<in> set (emitted \<sigma> (observerRun evs \<sigma>)) \<or> error p \<noteq> Some []"
    using that A by auto
  show ?thesis
    unfolding Let_def using A B C by blast
qed

text \<open>
  Claim C10, at a concrete input: the Observer times out waiting for the input area
  and sends one error event; the Broker forwards it with \<^verbatim>\<open>done\<close> true and the message,
  and drops the pending record; the Facade invokes \<^verbatim>\<open>onError\<close> with the message and
  drops the listener. An error event with no message is forwarded as \<open>Unknown error\<close>.
\<close>

theorem error_event_witness:
  "emitted observer_init
     (observerRun [OnPrompt ''r1'' ''Hello'' 0
                     [(examplePage [] False, 0), (examplePage [] False, 200), (examplePage [] False, 15201)]]
        observer_init)
     = [WebModelError \<lparr>requestId = ''r1'', content = None, done_ev = None,
                        error = Some ''Timed out waiting for ChatGPT input area''\<rparr>]
   \<and> forwarded (broker_init\<lparr>pendingRequests := [''r1'' \<mapsto> \<lparr>senderId = 7\<rparr>]\<rparr>)
       (ipcMain_on (\<lambda>_. Some (WebContents False))
          (WebModelError \<lparr>requestId = ''r1'', content = None, done_ev = None,
                           error = Some ''Timed out waiting for ChatGPT input area''\<rparr>)
          (broker_init\<lparr>pendingRequests := [''r1'' \<mapsto> \<lparr>senderId = 7\<rparr>]\<rparr>))
     = [(7, \<lparr>requestId = ''r1'', content = None, done_ev = Some True,
              error = Some ''Timed out waiting for ChatGPT input area''\<rparr>)]
   \<and> pendingRequests
       (ipcMain_on (\<lambda>_. Some (WebContents False))
          (WebModelError \<lparr>requestId = ''r1'', content = None, done_ev = None,
                           error = Some ''Timed out waiting for ChatGPT input area''\<rparr>)
          (broker_init\<lparr>pendingRequests := [''r1'' \<mapsto> \<lparr>senderId = 7\<rparr>]\<rparr>)) ''r1'' = None
   \<and> delivered (setListener ''r1'' \<lparr>onUpdate = Some (1::nat), onError = Some (2::nat)\<rparr> client_init)
       (handleEvent \<lparr>requestId = ''r1'', content = None, done_ev = Some True,
                     error = Some ''Timed out waiting for ChatGPT input area''\<rparr>
          (setListener ''r1'' \<lparr>onUpdate = Some (1::nat), onError = Some (2::nat)\<rparr> client_init))
     = [(''r1'', OnError 2 ''Timed out waiting for ChatGPT input area'')]
   \<and> listeners
       (handleEvent \<lparr>requestId = ''r1'', content = None, done_ev = Some True,
                     error = Some ''Timed out waiting for ChatGPT input area''\<rparr>
          (setListener ''r1'' \<lparr>onUpdate = Some (1::nat), onError = Some (2::nat)\<rparr> client_init)) ''r1'' = None
   \<and> forwarded (broker_init\<lparr>pendingRequests := [''r1'' \<mapsto> \<lparr>senderId = 7\<rparr>]\<rparr>)
       (ipcMain_on (\<lambda>_. Some (WebContents False))
          (WebModelError \<lparr>requestId = ''r1'', content = None, done_ev = None, error = None\<rparr>)
          (broker_init\<lparr>pendingRequests := [''r1'' \<mapsto> \<lparr>senderId = 7\<rparr>]\<rparr>))
     = [(7, \<lparr>requestId = ''r1'', content = None, done_ev = Some True, error = Some ''Unknown error''\<rparr>)]"
proof -
  let ?checks = "[(examplePage [] False, 0), (examplePage [] False, 200), (examplePage [] False, 15201 :: int)]"
  let ?s = "broker_init\<lparr>pendingRequests := [''r1'' \<mapsto> \<lparr>senderId = 7\<rparr>]\<rparr>"
  let ?p = "\<lparr>requestId = ''r1'', content = None, done_ev = None,
             error = Some ''Timed out waiting for ChatGPT input area''\<rparr>"
  let ?n = "\<lparr>requestId = ''r1'', content = None :: jsstring option, done_ev = None :: bool option,
             error = None :: string option\<rparr>"
  let ?cb = "\<lparr>onUpdate = Some (1::nat), onError = Some (2::nat)\<rparr>"
  let ?c = "setListener ''r1'' ?cb client_init"
  let ?f = "\<lambda>_ :: int. Some (WebContents False)"
  have sent: "emitted observer_init (observerRun [OnPrompt ''r1'' ''Hello'' 0 ?checks] observer_init)
      = [WebModelError ?p]"
    by (simp add: observerStep_def onPrompt_def submitPrompt_def INPUT_SELECTORS_def examplePage_def
          errorEvent_def ipcRenderer_send_def cleanupRequest_def observer_init_def emitted_def)
  have ne: "error ?p \<noteq> Some []" and nn: "error ?n \<noteq> Some []" by simp_all
  have pen: "pendingRequests ?s (requestId ?p) = Some \<lparr>senderId = 7\<rparr>"
    and pen': "pendingRequests ?s (requestId ?n) = Some \<lparr>senderId = 7\<rparr>" by simp_all
  have live: "?f (senderId \<lparr>senderId = 7\<rparr>) = Some (WebContents False)" by simp
  have lis: "listeners ?c (requestId ?p) = Some ?cb" by (simp add: setListener_def)
  have from_observer: "WebModelError ?p
      \<in> set (emitted observer_init (observerRun [OnPrompt ''r1'' ''Hello'' 0 ?checks] observer_init))"
    unfolding sent by simp
  note T = error_event_is_terminal
    [where p = ?p and \<sigma> = observer_init and evs = "[OnPrompt ''r1'' ''Hello'' 0 ?checks]"
       and s = ?s and req = "\<lparr>senderId = 7\<rparr>" and fromId = ?f and c = ?c and cb = ?cb,
     THEN conjunct2, rule_format, OF conjI [OF disjI1 [OF from_observer] conjI [OF pen live]],
     unfolded Let_def]
  note U = error_event_is_terminal
    [where p = ?n and s = ?s and req = "\<lparr>senderId = 7\<rparr>" and fromId = ?f,
     THEN conjunct2, rule_format, OF conjI [OF disjI2 [OF nn] conjI [OF pen' live]], unfolded Let_def]
  from T [THEN conjunct2, THEN conjunct1]
  have a: "forwarded ?s (ipcMain_on ?f (WebModelError ?p) ?s)
      = [(7, \<lparr>requestId = ''r1'', content = None, done_ev = Some True,
              error = Some ''Timed out waiting for ChatGPT input area''\<rparr>)]"
    by simp
  from T [THEN conjunct2, THEN conjunct2, THEN conjunct1]
  have b: "pendingRequests (ipcMain_on ?f (WebModelError ?p) ?s) ''r1'' = None"
    by simp
  from T [THEN conjunct2, THEN conjunct2, THEN conjunct2, rule_format, OF lis]
  have c: "delivered ?c (handleEvent \<lparr>requestId = ''r1'', content = None, done_ev = Some True,
                     error = Some ''Timed out waiting for ChatGPT input area''\<rparr> ?c)
      = [(''r1'', OnError 2 ''Timed out waiting for ChatGPT input area'')]"
    and d: "listeners (handleEvent \<lparr>requestId = ''r1'', content = None, done_ev = Some True,
                     error = Some ''Timed out waiting for ChatGPT input area''\<rparr> ?c) ''r1'' = None"
    by simp_all
  from U [THEN conjunct2, THEN conjunct1]
  have e: "forwarded ?s (ipcMain_on ?f (WebModelError ?n) ?s)
      = [(7, \<lparr>requestId = ''r1'', content = None, done_ev = Some True, error = Some ''Unknown error''\<rparr>)]"
    by simp
  from sent a b c d e show ?thesis by (intro conjI)
qed

text \<open>
  An error event with the empty string as its message, which the Observer never sends:
  \<^verbatim>\<open>??\<close> replaces only a missing message, so the Broker forwards the empty string, and
  the Facade, which tests \<^verbatim>\<open>payload.error\<close> by truthiness, retires the listener without
  invoking \<^verbatim>\<open>onError\<close>.
\<close>

theorem empty_error_message_is_swallowed:
  "forwarded (broker_init\<lparr>pendingRequests := [''r1'' \<mapsto> \<lparr>senderId = 7\<rparr>]\<rparr>)
     (onWebModelError (\<lambda>_. Some (WebContents False))
        \<lparr>requestId = ''r1'', content = None, done_ev = None, error = Some []\<rparr>
        (broker_init\<lparr>pendingRequests := [''r1'' \<mapsto> \<lparr>senderId = 7\<rparr>]\<rparr>))
     = [(7, \<lparr>requestId = ''r1'', content = None, done_ev = Some True, error = Some []\<rparr>)]
   \<and> invoked (handleEvent \<lparr>requestId = ''r1'', content = None, done_ev = Some True, error = Some []\<rparr>
               (setListener ''r1'' \<lparr>onUpdate = Some (1::nat), onError = Some (2::nat)\<rparr> client_init)) = []
   \<and> listeners (handleEvent \<lparr>requestId = ''r1'', content = None, done_ev = Some True, error = Some []\<rparr>
               (setListener ''r1'' \<lparr>onUpdate = Some (1::nat), onError = Some (2::nat)\<rparr> client_init)) ''r1'' = None"
  by (simp add: way_up_simps)

section \<open>Creating the window once\<close>

lemma ensureWindow_live: "liveWindow s \<Longrightarrow> ensureWindow s = (Returned, s)"
  by (simp add: ensureWindow_def)

lemma ensureWindow_stored:
  "\<not> liveWindow s \<Longrightarrow> creatingWindowPromise s = Some p \<Longrightarrow> ensureWindow s = (AwaitsStored p, s)"
  by (simp add: ensureWindow_def)

lemma ensureWindow_creates:
  assumes "\<not> liveWindow s" and "creatingWindowPromise s = None"
  shows "fst (ensureWindow s) = AwaitsOwn (created s)"
    and "liveWindow (snd (ensureWindow s))"
    and "creatingWindowPromise (snd (ensureWindow s)) = Some (created s)"
    and "created (snd (ensureWindow s)) = Suc (created s)"
    and "\<not> isReady (snd (ensureWindow s))"
  using assms by (simp_all add: ensureWindow_def createWindow_def liveWindow_def)

lemma ensureWindowCalls_live:
  "liveWindow s \<Longrightarrow> ensureWindowCalls n s = (replicate n Returned, s)"
  by (induction n) (simp_all add: ensureWindow_live)

text \<open>
  Claim C7, what the code does. From a state with no live window and no stored promise,
  \<open>n + 1\<close> calls of \<^verbatim>\<open>ensureWindow\<close> arriving before the creation settles make exactly one
  call of \<^verbatim>\<open>createWindow\<close>, by the first of them, which stores the promise and awaits
  it. The later calls do not await that promise: \<^verbatim>\<open>createWindow\<close> has stored the new
  window before its first \<^verbatim>\<open>await\<close>, so they find a live window and return at once,
  while the page is still loading and \<open>isReady\<close> is false; \<^verbatim>\<open>initialize\<close> of such a call
  returns false. The stored promise is awaited only by a call that finds the window
  closed again while the creation is still in flight.
\<close>

theorem later_calls_return_while_creating:
  assumes "\<not> liveWindow s" and "creatingWindowPromise s = None"
  shows "fst (ensureWindowCalls (Suc n) s) = AwaitsOwn (created s) # replicate n Returned
         \<and> created (snd (ensureWindowCalls (Suc n) s)) = Suc (created s)
         \<and> creatingWindowPromise (snd (ensureWindowCalls (Suc n) s)) = Some (created s)
         \<and> \<not> isReady (snd (ensureWindowCalls (Suc n) s))
         \<and> fst (initialize Returned ok (snd (ensureWindowCalls (Suc n) s))) = Inr False
         \<and> ensureWindow (onClosed (snd (ensureWindowCalls (Suc n) s)))
             = (AwaitsStored (created s), onClosed (snd (ensureWindowCalls (Suc n) s)))"
proof -
  obtain e s1 where es: "ensureWindow s = (e, s1)" by (cases "ensureWindow s")
  from ensureWindow_creates [OF assms] es
  have e: "e = AwaitsOwn (created s)" and live: "liveWindow s1"
    and pr: "creatingWindowPromise s1 = Some (created s)" and cr: "created s1 = Suc (created s)"
    and nr: "\<not> isReady s1"
    by simp_all
  have calls: "ensureWindowCalls (Suc n) s = (e # replicate n Returned, s1)"
    by (simp add: es ensureWindowCalls_live [OF live])
  have "\<not> liveWindow (onClosed s1)" by (simp add: onClosed_def liveWindow_def)
  moreover have "creatingWindowPromise (onClosed s1) = Some (created s)" by (simp add: onClosed_def pr)
  ultimately have "ensureWindow (onClosed s1) = (AwaitsStored (created s), onClosed s1)"
    by (rule ensureWindow_stored)
  with e pr cr nr show ?thesis unfolding calls by (simp add: initialize_def ensureWindow_settled_def)
qed

text \<open>
  Claim C7, at the failing input: two calls on the initial state. The second returns at
  once, with the creation in flight.
\<close>

theorem second_call_returns_at_once:
  "fst (ensureWindowCalls 2 broker_init) = [AwaitsOwn 0, Returned]
   \<and> created (snd (ensureWindowCalls 2 broker_init)) = 1
   \<and> creatingWindowPromise (snd (ensureWindowCalls 2 broker_init)) = Some 0
   \<and> \<not> isReady (snd (ensureWindowCalls 2 broker_init))
   \<and> fst (initialize Returned True (snd (ensureWindowCalls 2 broker_init))) = Inr False"
proof -
  have a: "\<not> liveWindow broker_init" by (simp add: liveWindow_def broker_init_def)
  have b: "creatingWindowPromise broker_init = None" by (simp add: broker_init_def)
  have c: "created broker_init = 0" by (simp add: broker_init_def)
  have two: "(2::nat) = Suc 1" by simp
  from later_calls_return_while_creating [OF a b, of 1 True] show ?thesis
    unfolding c two by simp
qed

section \<open>Objects and timers of the Observer\<close>

lemma allocated_init: "allocated observer_init"
  by (simp add: allocated_def observer_init_def)

lemma allocated_fields:
  assumes "allocated \<sigma>"
    and "intervals \<sigma>' = intervals \<sigma>" and "ACTIVE_REQUESTS \<sigma>' = ACTIVE_REQUESTS \<sigma>"
    and "fresh \<sigma>' = fresh \<sigma>" and "\<And>a. interval (heap \<sigma>' a) = interval (heap \<sigma> a)"
  shows "allocated \<sigma>'"
  using assms unfolding allocated_def by simp

lemma allocated_send [simp]: "allocated (ipcRenderer_send m \<sigma>) = allocated \<sigma>"
  by (simp add: allocated_def ipcRenderer_send_def)

lemma allocated_act [simp]: "allocated (act x \<sigma>) = allocated \<sigma>"
  by (simp add: allocated_def act_def)

lemma allocated_cleanupRequest: "allocated \<sigma> \<Longrightarrow> allocated (cleanupRequest r \<sigma>)"
  unfolding allocated_def cleanupRequest_def Let_def
  by (auto split: option.splits if_splits)

lemma allocated_startPolling: "allocated \<sigma> \<Longrightarrow> allocated (startPolling r \<sigma>)"
  unfolding allocated_def startPolling_def Let_def
  by (auto split: if_splits simp: less_Suc_eq)

lemma allocated_pollBody: "allocated \<sigma> \<Longrightarrow> allocated (pollBody r a pg nowEmit nowCheck \<sigma>)"
proof -
  assume al: "allocated \<sigma>"
  have upd: "allocated (\<tau>\<lparr>heap := (heap \<tau>)(a := (heap \<tau> a)\<lparr>lastContent := c, lastEmit := t\<rparr>)\<rparr>)"
    if "allocated \<tau>" for \<tau> c t
    by (rule allocated_fields [OF that]) simp_all
  have dn: "allocated (\<tau>\<lparr>heap := (heap \<tau>)(a := (heap \<tau> a)\<lparr>done_st := True\<rparr>)\<rparr>)"
    if "allocated \<tau>" for \<tau>
    by (rule allocated_fields [OF that]) simp_all
  show ?thesis
    unfolding pollBody_def Let_def
    using al by (auto intro!: allocated_cleanupRequest upd dn simp del: heap_cleanupRequest)
qed

lemma allocated_pollTick: "allocated \<sigma> \<Longrightarrow> allocated (pollTick h pg nowEmit nowCheck \<sigma>)"
  by (auto simp: pollTick_def allocated_pollBody split: option.splits)

lemma allocated_cancelRequest: "allocated \<sigma> \<Longrightarrow> allocated (cancelRequest r pg \<sigma>)"
  by (auto simp: cancelRequest_def allocated_cleanupRequest split: option.splits)

lemma allocated_onPrompt:
  "allocated \<sigma> \<Longrightarrow> onPrompt r prompt start checks \<sigma> = Some \<sigma>' \<Longrightarrow> allocated \<sigma>'"
  by (auto simp: onPrompt_def submitPrompt_def Let_def allocated_cleanupRequest allocated_startPolling
           split: option.splits sum.splits promise.splits prod.splits)

lemma allocated_observerStep: "allocated \<sigma> \<Longrightarrow> allocated (observerStep ev \<sigma>)"
  by (cases ev)
     (auto simp: observerStep_def allocated_pollTick allocated_cancelRequest
           split: option.splits dest: allocated_onPrompt)

lemma allocated_observerRun: "allocated \<sigma> \<Longrightarrow> allocated (observerRun evs \<sigma>)"
  by (induction evs arbitrary: \<sigma>) (simp_all add: allocated_observerStep)

text \<open>
  \<open>allocated\<close> holds in every state the Observer reaches from its initial state,
  whatever it reacts to.
\<close>

theorem allocated_reachable: "allocated (observerRun evs observer_init)"
  by (rule allocated_observerRun [OF allocated_init])

text \<open>At a concrete input: the state after a cancel and a tick with no request in flight.\<close>

theorem allocated_reachable_witness:
  "allocated
     (observerRun [OnCancel ''r2'' (examplePage [] True), Tick 0 (examplePage [ascii ''Hi''] True) 900 900]
        observer_init)"
  by (rule allocated_reachable)

text \<open>\<^verbatim>\<open>startPolling\<close> gives an identifier that no live timer carries its one timer.\<close>

lemma soleTimer_startPolling:
  assumes "allocated \<sigma>" and "quiet rid \<sigma>"
  shows "soleTimer (startPolling rid \<sigma>) (fresh \<sigma>) rid (fresh \<sigma>)"
  using assms
  by (auto simp: soleTimer_def startPolling_def Let_def quiet_def allocated_def split: if_splits)

text \<open>
  What belongs to the request \<open>rid\<close> with timer \<open>h\<close> (the timer, the entry of
  \<open>ACTIVE_REQUESTS\<close>, the object, what was sent for it) is left alone by the ticks of
  other timers and by the cancels and prompts of other identifiers.
\<close>

lemma soleTimer_address: "allocated \<sigma> \<Longrightarrow> soleTimer \<sigma> h rid a \<Longrightarrow> a = h"
  by (auto simp: allocated_def soleTimer_def)

lemma cleanupRequest_foreign:
  assumes "allocated \<sigma>" and "soleTimer \<sigma> h rid a" and "r \<noteq> rid"
  shows "soleTimer (cleanupRequest r \<sigma>) h rid a"
proof (cases "ACTIVE_REQUESTS \<sigma> r")
  case None
  with assms(2) show ?thesis by (simp add: cleanupRequest_unknown)
next
  case (Some a')
  from assms(1) Some have own: "interval (heap \<sigma> a') = Some a'" by (auto simp: allocated_def)
  from assms Some have "a' \<noteq> a" by (auto simp: allocated_def soleTimer_def)
  moreover from assms(1,2) have "a = h" by (rule soleTimer_address)
  ultimately show ?thesis
    using assms(2,3) Some own by (auto simp: soleTimer_def cleanupRequest_def Let_def)
qed

lemma pollBody_foreign:
  assumes "allocated \<sigma>" and "soleTimer \<sigma> h rid a" and "r \<noteq> rid" and "a' \<noteq> a"
  shows "soleTimer (pollBody r a' pg nowEmit nowCheck \<sigma>) h rid a"
    and "heap (pollBody r a' pg nowEmit nowCheck \<sigma>) a = heap \<sigma> a"
proof -
  have keep: "soleTimer \<tau> h rid a \<Longrightarrow> soleTimer (\<tau>\<lparr>heap := (heap \<tau>)(a' := x)\<rparr>) h rid a" for \<tau> x
    using assms(4) by (simp add: soleTimer_def)
  have keepa: "allocated \<tau> \<Longrightarrow> allocated (\<tau>\<lparr>heap := (heap \<tau>)(a' := (heap \<tau> a')\<lparr>lastContent := c, lastEmit := t\<rparr>)\<rparr>)"
    for \<tau> c t by (erule allocated_fields) simp_all
  have keepd: "allocated \<tau> \<Longrightarrow> allocated (\<tau>\<lparr>heap := (heap \<tau>)(a' := (heap \<tau> a')\<lparr>done_st := True\<rparr>)\<rparr>)"
    for \<tau> by (erule allocated_fields) simp_all
  have snd: "soleTimer \<tau> h rid a \<Longrightarrow> soleTimer (ipcRenderer_send m \<tau>) h rid a" for \<tau> m
    by (simp add: soleTimer_def ipcRenderer_send_def)
  show "soleTimer (pollBody r a' pg nowEmit nowCheck \<sigma>) h rid a"
    unfolding pollBody_def Let_def
    using assms(1,2,3)
    by (auto intro!: cleanupRequest_foreign snd keep keepa keepd simp del: heap_cleanupRequest)
  show "heap (pollBody r a' pg nowEmit nowCheck \<sigma>) a = heap \<sigma> a"
    using assms(4) by (simp add: pollBody_def Let_def ipcRenderer_send_def)
qed

lemma sentFor_cleanupRequest [simp]: "sentFor rid (cleanupRequest r \<sigma>) = sentFor rid \<sigma>"
  by (simp add: sentFor_def)

lemma soleTimer_send [simp]: "soleTimer (ipcRenderer_send m \<sigma>) h rid a = soleTimer \<sigma> h rid a"
  by (simp add: soleTimer_def ipcRenderer_send_def)

lemma heap_send [simp]: "heap (ipcRenderer_send m \<sigma>) = heap \<sigma>"
  by (simp add: ipcRenderer_send_def)

lemma fresh_send [simp]: "fresh (ipcRenderer_send m \<sigma>) = fresh \<sigma>"
  by (simp add: ipcRenderer_send_def)

lemma fresh_cleanupRequest [simp]: "fresh (cleanupRequest r \<sigma>) = fresh \<sigma>"
  by (simp add: cleanupRequest_def Let_def split: option.splits)

lemma sentFor_errorEvent_other:
  "r \<noteq> rid \<Longrightarrow> sentFor rid (ipcRenderer_send (errorEvent r msg) \<sigma>) = sentFor rid \<sigma>"
  by (simp add: sentFor_def ipcRenderer_send_def tagOf_def errorEvent_def)

lemma onPrompt_cases:
  assumes "onPrompt r prompt start checks \<sigma> = Some \<sigma>'"
  shows "(\<exists>msg \<tau>. (\<tau> = \<sigma> \<or> \<tau> = act (SetNativeValue prompt) (act Focus \<sigma>))
            \<and> \<sigma>' = ipcRenderer_send (errorEvent r msg) (cleanupRequest r \<tau>))
         \<or> \<sigma>' = startPolling r (act ClickSend (act (SetNativeValue prompt) (act Focus \<sigma>)))"
  using assms
  by (auto simp: onPrompt_def submitPrompt_def Let_def errorEvent_def
           split: option.splits sum.splits promise.splits prod.splits thrown.splits)

lemma foreign_observerStep:
  assumes "allocated \<sigma>" and "soleTimer \<sigma> h rid a" and "foreign h rid ev"
  shows "soleTimer (observerStep ev \<sigma>) h rid a
         \<and> heap (observerStep ev \<sigma>) a = heap \<sigma> a
         \<and> sentFor rid (observerStep ev \<sigma>) = sentFor rid \<sigma>"
proof (cases ev)
  case (Tick h' pg nowEmit nowCheck)
  with assms(3) have hh: "h' \<noteq> h" by (simp add: foreign_def)
  show ?thesis
  proof (cases "intervals \<sigma> h'")
    case None
    with Tick assms(2) show ?thesis by (simp add: observerStep_def pollTick_def)
  next
    case (Some x)
    obtain r a' where x: "x = (r, a')" by (cases x)
    from assms(1) Some x have a': "a' = h'" by (auto simp: allocated_def)
    from assms(1,2) have a: "a = h" by (rule soleTimer_address)
    from assms(2) Some x hh have r: "r \<noteq> rid" by (auto simp: soleTimer_def)
    from a a' hh have ne: "a' \<noteq> a" by simp
    from pollBody_foreign [OF assms(1,2) r ne] sentFor_pollBody_other [OF r] Tick Some x
    show ?thesis by (simp add: observerStep_def pollTick_def)
  qed
next
  case (OnCancel r pg)
  with assms(3) have r: "r \<noteq> rid" by (simp add: foreign_def)
  have st: "soleTimer (act ClickStop \<sigma>) h rid a" using assms(2) by (simp add: soleTimer_def act_def)
  have al: "allocated (act ClickStop \<sigma>)" using assms(1) by simp
  from cleanupRequest_foreign [OF assms(1,2) r] cleanupRequest_foreign [OF al st r] OnCancel
  show ?thesis
    by (auto simp: observerStep_def cancelRequest_def sentFor_def act_def split: option.splits)
next
  case (OnPrompt r prompt start checks)
  with assms(3) have r: "r \<noteq> rid" by (simp add: foreign_def)
  from assms(1,2) have a: "a = h" by (rule soleTimer_address)
  from assms(1,2) have lt: "h < fresh \<sigma>" by (auto simp: allocated_def soleTimer_def)
  define P where "P \<tau> \<longleftrightarrow> soleTimer \<tau> h rid a \<and> heap \<tau> a = heap \<sigma> a
      \<and> sentFor rid \<tau> = sentFor rid \<sigma> \<and> allocated \<tau> \<and> h < fresh \<tau>" for \<tau>
  have P0: "P \<sigma>" using assms(1,2) lt by (simp add: P_def)
  have Pact: "P (act x \<tau>)" if "P \<tau>" for x \<tau>
    using that unfolding P_def by (auto simp: soleTimer_def sentFor_def act_def allocated_def)
  have Psp: "P (startPolling r \<tau>)" if "P \<tau>" for \<tau>
  proof -
    from that have "soleTimer (startPolling r \<tau>) h rid a" "heap (startPolling r \<tau>) a = heap \<tau> a"
      "h < fresh (startPolling r \<tau>)"
      using r a by (auto simp: P_def soleTimer_def startPolling_def Let_def)
    with that show ?thesis unfolding P_def by (auto simp: sentFor_def allocated_startPolling)
  qed
  have Per: "P (ipcRenderer_send (errorEvent r msg) (cleanupRequest r \<tau>))" if "P \<tau>" for \<tau> msg
  proof -
    from that have st: "soleTimer \<tau> h rid a" and al: "allocated \<tau>"
      and hp: "heap \<tau> a = heap \<sigma> a" and sf: "sentFor rid \<tau> = sentFor rid \<sigma>" and fr: "h < fresh \<tau>"
      by (simp_all add: P_def)
    from cleanupRequest_foreign [OF al st r] allocated_cleanupRequest [OF al] hp sf fr r
    show ?thesis
      unfolding P_def by (simp add: sentFor_errorEvent_other)
  qed
  show ?thesis
  proof (cases "onPrompt r prompt start checks \<sigma>")
    case None
    with OnPrompt assms(2) show ?thesis by (simp add: observerStep_def)
  next
    case (Some \<sigma>')
    from onPrompt_cases [OF Some] have "P \<sigma>'"
      using P0 Pact Psp Per by auto
    with OnPrompt Some show ?thesis by (simp add: observerStep_def P_def)
  qed
qed

lemma foreign_observerRun:
  assumes "allocated \<sigma>" and "soleTimer \<sigma> h rid a" and "\<forall>ev \<in> set evs. foreign h rid ev"
  shows "soleTimer (observerRun evs \<sigma>) h rid a
         \<and> heap (observerRun evs \<sigma>) a = heap \<sigma> a
         \<and> sentFor rid (observerRun evs \<sigma>) = sentFor rid \<sigma>"
  using assms
proof (induction evs arbitrary: \<sigma>)
  case Nil
  then show ?case by simp
next
  case (Cons ev evs)
  from Cons.prems have f: "foreign h rid ev" by simp
  note step = foreign_observerStep [OF Cons.prems(1,2) f]
  from Cons.IH [OF allocated_observerStep [OF Cons.prems(1)], of ev] step Cons.prems(3)
  show ?case by simp
qed

text \<open>
  A request started, in a state that \<open>allocated\<close> holds for, under an identifier no
  live timer carries has one timer, and keeps it through everything the Observer does
  for other requests: so \<open>soleTimer\<close> holds whenever that timer fires.
\<close>

theorem request_keeps_its_timer:
  assumes "allocated \<sigma>" and "quiet rid \<sigma>" and "\<forall>ev \<in> set evs. foreign (fresh \<sigma>) rid ev"
  shows "soleTimer (observerRun evs (startPolling rid \<sigma>)) (fresh \<sigma>) rid (fresh \<sigma>)"
  using foreign_observerRun [OF allocated_startPolling [OF assms(1)] soleTimer_startPolling [OF assms(1,2)] assms(3)]
  by simp

text \<open>
  At a concrete input: a cancel for another identifier and a tick of a timer that does
  not exist leave the request its timer.
\<close>

theorem request_keeps_its_timer_witness:
  "soleTimer
     (observerRun [OnCancel ''r2'' (examplePage [] True), Tick 5 (examplePage [ascii ''Hi''] True) 900 900]
        (startPolling ''r1'' observer_init)) 0 ''r1'' 0"
proof -
  let ?evs = "[OnCancel ''r2'' (examplePage [] True), Tick 5 (examplePage [ascii ''Hi''] True) 900 900]"
  have fr: "fresh observer_init = 0" by (simp add: observer_init_def)
  have q: "quiet ''r1'' observer_init" by (simp add: quiet_def observer_init_def)
  have f: "\<forall>ev \<in> set ?evs. foreign (fresh observer_init) ''r1'' ev"
    by (simp add: foreign_def fr)
  from request_keeps_its_timer [OF allocated_init q f] show ?thesis by (simp add: fr)
qed

lemma cancelRequest_soleTimer:
  assumes "soleTimer \<sigma> h rid a"
  shows "quiet rid (cancelRequest rid pg \<sigma>)"
proof -
  have "quiet rid (cleanupRequest rid \<tau>)" if "soleTimer \<tau> h rid a" for \<tau>
    using that by (auto simp: soleTimer_def quiet_def cleanupRequest_def Let_def)
  moreover have "soleTimer (act ClickStop \<sigma>) h rid a"
    using assms by (simp add: soleTimer_def act_def)
  ultimately show ?thesis using assms by (simp add: cancelRequest_def split: option.splits)
qed

text \<open>
  A request that reads an empty text at each of its ticks: either its timer is as
  \<^verbatim>\<open>startPolling\<close> left it, or it has been cancelled; nothing was sent for it.
\<close>

lemma silent_observerStep:
  assumes "allocated \<sigma>"
    and "quiet rid \<sigma> \<or> (soleTimer \<sigma> h rid a \<and> lastEmit (heap \<sigma> a) = 0)"
    and "silentFor h rid ev"
  shows "(quiet rid (observerStep ev \<sigma>)
            \<or> (soleTimer (observerStep ev \<sigma>) h rid a \<and> lastEmit (heap (observerStep ev \<sigma>) a) = 0))
         \<and> sentFor rid (observerStep ev \<sigma>) = sentFor rid \<sigma>"
proof (cases "quiet rid \<sigma>")
  case True
  from assms(3) have "\<not> promptFor rid ev"
    by (cases ev) (simp_all add: silentFor_def promptFor_def)
  with quiet_observerStep [OF True] show ?thesis by simp
next
  case False
  with assms(2) have st: "soleTimer \<sigma> h rid a" and z: "lastEmit (heap \<sigma> a) = 0" by simp_all
  show ?thesis
  proof (cases "foreign h rid ev")
    case True
    from foreign_observerStep [OF assms(1) st True] z show ?thesis by simp
  next
    case nf: False
    show ?thesis
    proof (cases ev)
      case (Tick h' pg nowEmit nowCheck)
      with nf assms(3) have h': "h' = h" and em: "getLatestAssistantContent pg = []"
        by (simp_all add: foreign_def silentFor_def)
      from st have iv: "intervals \<sigma> h = Some (rid, a)" and nd: "\<not> done_st (heap \<sigma> a)"
        by (simp_all add: soleTimer_def)
      have "pollTick h pg nowEmit nowCheck \<sigma> = \<sigma>"
        by (rule pollTick_silent [OF iv z nd em])
      with Tick h' st z show ?thesis by (simp add: observerStep_def)
    next
      case (OnCancel r pg)
      with nf have r: "r = rid" by (simp add: foreign_def)
      from cancelRequest_soleTimer [OF st, of pg] OnCancel r show ?thesis
        by (simp add: observerStep_def cancelRequest_def sentFor_def split: option.splits)
    next
      case (OnPrompt r prompt start checks)
      with nf assms(3) show ?thesis by (simp add: foreign_def silentFor_def)
    qed
  qed
qed

lemma silent_observerRun:
  assumes "allocated \<sigma>"
    and "quiet rid \<sigma> \<or> (soleTimer \<sigma> h rid a \<and> lastEmit (heap \<sigma> a) = 0)"
    and "\<forall>ev \<in> set evs. silentFor h rid ev"
  shows "sentFor rid (observerRun evs \<sigma>) = sentFor rid \<sigma>"
  using assms
proof (induction evs arbitrary: \<sigma>)
  case Nil
  then show ?case by simp
next
  case (Cons ev evs)
  from Cons.prems have s: "silentFor h rid ev" by simp
  note step = silent_observerStep [OF Cons.prems(1,2) s]
  from Cons.IH [OF allocated_observerStep [OF Cons.prems(1)], of ev] step Cons.prems(3)
  show ?case by simp
qed

text \<open>
  Claim C6. If every tick of a request reads an empty answer text (the text of the last
  assistant message after \<^verbatim>\<open>trim\<close>, or no assistant message at all), then whatever the
  stop button does and however many ticks there are, the ticks change nothing: nothing
  is sent and the timer stays live (the request never completes). The same holds
  inside any run of the Observer, started in a state that \<open>allocated\<close> holds for (every
  reachable state) under an identifier no live timer carries: with ticks of other
  timers, cancels and prompts for other identifiers in between, and even a cancel for
  the request itself, nothing is ever sent for the request.
\<close>

theorem empty_content_never_emits:
  "((\<forall>t \<in> set ticks. getLatestAssistantContent (fst t) = []) \<longrightarrow>
      runTicks (fresh \<sigma>) ticks (startPolling rid \<sigma>) = startPolling rid \<sigma>
      \<and> sent (startPolling rid \<sigma>) = sent \<sigma>
      \<and> intervals (startPolling rid \<sigma>) (fresh \<sigma>) = Some (rid, fresh \<sigma>))
   \<and> (allocated \<sigma> \<and> quiet rid \<sigma> \<and> (\<forall>ev \<in> set evs. silentFor (fresh \<sigma>) rid ev) \<longrightarrow>
        sentFor rid (observerRun evs (startPolling rid \<sigma>)) = sentFor rid \<sigma>)"
proof -
  let ?\<sigma> = "startPolling rid \<sigma>"
  have live: "intervals ?\<sigma> (fresh \<sigma>) = Some (rid, fresh \<sigma>)"
    by (simp add: startPolling_def Let_def)
  have zero: "lastEmit (heap ?\<sigma> (fresh \<sigma>)) = 0" and fresh: "\<not> done_st (heap ?\<sigma> (fresh \<sigma>))"
    by (simp_all add: startPolling_def Let_def)
  have 1: "(\<forall>t \<in> set ticks. getLatestAssistantContent (fst t) = []) \<longrightarrow>
      runTicks (fresh \<sigma>) ticks ?\<sigma> = ?\<sigma> \<and> sent ?\<sigma> = sent \<sigma>
      \<and> intervals ?\<sigma> (fresh \<sigma>) = Some (rid, fresh \<sigma>)"
    using runTicks_silent [OF live zero fresh] live by simp
  have 2: "allocated \<sigma> \<and> quiet rid \<sigma> \<and> (\<forall>ev \<in> set evs. silentFor (fresh \<sigma>) rid ev) \<longrightarrow>
        sentFor rid (observerRun evs ?\<sigma>) = sentFor rid \<sigma>"
  proof (intro impI, elim conjE)
    assume al: "allocated \<sigma>" and q: "quiet rid \<sigma>" and ev: "\<forall>ev \<in> set evs. silentFor (fresh \<sigma>) rid ev"
    have "soleTimer ?\<sigma> (fresh \<sigma>) rid (fresh \<sigma>) \<and> lastEmit (heap ?\<sigma> (fresh \<sigma>)) = 0"
      using soleTimer_startPolling [OF al q] zero by simp
    then have "sentFor rid (observerRun evs ?\<sigma>) = sentFor rid ?\<sigma>"
      using silent_observerRun [OF allocated_startPolling [OF al] _ ev] by blast
    then show "sentFor rid (observerRun evs ?\<sigma>) = sentFor rid \<sigma>"
      by (simp add: sentFor_def)
  qed
  from 1 2 show ?thesis by (rule conjI)
qed

text \<open>
  Claim C6, at a concrete input: four ticks, on a page with no assistant message, on one
  whose message is a no-break space, on one whose message is two spaces, and on one whose
  message is a byte-order mark and a line separator, with the stop button there or not
  (\<^verbatim>\<open>trim\<close> leaves the empty text of each); and a run with another timer's tick and
  another request's cancel in between.
\<close>

theorem empty_content_never_emits_witness:
  "runTicks 0 [(examplePage [] False, 400, 400), (examplePage [[0x00A0]] True, 800, 800),
               (examplePage [ascii ''  ''] False, 5000, 5000),
               (examplePage [[0xFEFF, 0x2028]] False, 9000, 9000)] (startPolling ''r1'' observer_init)
     = startPolling ''r1'' observer_init
   \<and> sentFor ''r1''
       (observerRun
          [Tick 0 (examplePage [] False) 400 400, OnCancel ''r2'' (examplePage [] True),
           Tick 0 (examplePage [] True) 800 800, Tick 1 (examplePage [ascii ''Hi''] True) 900 900,
           Tick 0 (examplePage [] False) 5000 5000]
          (startPolling ''r1'' observer_init)) = []"
proof -
  let ?ticks = "[(examplePage [] False, 400, 400), (examplePage [[0x00A0]] True, 800, 800),
               (examplePage [ascii ''  ''] False, 5000 :: int, 5000 :: int),
               (examplePage [[0xFEFF, 0x2028]] False, 9000, 9000)]"
  let ?evs = "[Tick 0 (examplePage [] False) 400 400, OnCancel ''r2'' (examplePage [] True),
           Tick 0 (examplePage [] True) 800 800, Tick 1 (examplePage [ascii ''Hi''] True) 900 900,
           Tick 0 (examplePage [] False) 5000 5000]"
  note T = empty_content_never_emits
    [where ticks = ?ticks and \<sigma> = observer_init and rid = "''r1''" and evs = ?evs]
  have fr: "fresh observer_init = 0" by (simp add: observer_init_def)
  have e: "\<forall>t \<in> set ?ticks. getLatestAssistantContent (fst t) = []" by simp
  have q: "quiet ''r1'' observer_init" by (simp add: quiet_def observer_init_def)
  have s: "\<forall>ev \<in> set ?evs. silentFor (fresh observer_init) ''r1'' ev"
    by (simp add: silentFor_def fr)
  have n: "sentFor ''r1'' observer_init = []" by (simp add: sentFor_def observer_init_def)
  from T e have a: "runTicks 0 ?ticks (startPolling ''r1'' observer_init) = startPolling ''r1'' observer_init"
    unfolding fr by blast
  from T allocated_init q s have "sentFor ''r1'' (observerRun ?evs (startPolling ''r1'' observer_init))
      = sentFor ''r1'' observer_init"
    by blast
  with n have b: "sentFor ''r1'' (observerRun ?evs (startPolling ''r1'' observer_init)) = []"
    by simp
  from a b show ?thesis by (rule conjI)
qed

end
